theory Spec2Isabelle
  imports Main "HOL-Library.Sublist"
begin

section \<open>Python values and library functions used by baf.py\<close>

type_synonym path = string

text \<open>
  \<^verbatim>\<open>os.path.join(a, b)\<close> of posixpath: a component that starts with the separator replaces
  what came before it; otherwise the separator is inserted unless the left part is empty
  or already ends with it.
\<close>

definition os_path_join :: "path \<Rightarrow> string \<Rightarrow> path" where
  "os_path_join a b =
     (if prefix ''/'' b then b
      else if a = [] \<or> suffix ''/'' a then a @ b
      else a @ ''/'' @ b)"

text \<open>\<^verbatim>\<open>x in s\<close> on two strings: \<open>x\<close> is a contiguous substring of \<open>s\<close>.\<close>

definition py_in :: "string \<Rightarrow> string \<Rightarrow> bool" where
  "py_in x s = sublist x s"

text \<open>\<^verbatim>\<open>str(n)\<close> and \<^verbatim>\<open>"%d" % n\<close> for a non-negative integer.\<close>

definition digit_char :: "nat \<Rightarrow> char" where
  "digit_char d = ''0123456789'' ! d"

fun str_nat :: "nat \<Rightarrow> string" where
  "str_nat n = (if n < 10 then [digit_char n] else str_nat (n div 10) @ [digit_char (n mod 10)])"

declare str_nat.simps [simp del]

text \<open>\<^verbatim>\<open>"'%s'" % s\<close>: the string between two apostrophes, as the log messages print it.\<close>

definition quoted :: "string \<Rightarrow> string" where
  "quoted s = [CHR 0x27] @ s @ [CHR 0x27]"

subsection \<open>Exceptions, calls of the external stages, and the observable trace\<close>

text \<open>
  The exceptions that can leave \<^verbatim>\<open>main\<close>. \<open>AssertN\<close> and \<open>AssertE p\<close> are what the helpers
  \<^verbatim>\<open>assert_n\<close> and \<^verbatim>\<open>assert_e(p)\<close> raise; \<open>OSError p\<close> is a failed \<^verbatim>\<open>os.mkdir(p)\<close>;
  \<open>StageError m\<close> is an exception raised inside one of the stage functions imported from
  \<^verbatim>\<open>xcltk.baf.genotype\<close> and \<^verbatim>\<open>xcltk.utils.vcf\<close>.
\<close>

datatype exn =
    AssertN
  | AssertE "string option"
  | TypeError
  | OSError path
  | ValueError string
  | GetoptError string
  | SystemExit int
  | StageError string

text \<open>
  One constructor for each stage function of the repository that baf.py calls, with the
  arguments of the call in the order of the keyword list in the source:
  \<^item> \<open>Pileup sam_fn sam_list_fn barcode_fn sample snp_vcf_fn out_dir mode cell_tag umi_tag
     ncores min_maf min_count script_fn log_fn\<close> (the float literal \<^verbatim>\<open>0.1\<close> is kept as its text);
  \<^item> \<open>VcfAddGenotype in_fn out_fn sample chr_prefix sort unique\<close>;
  \<^item> \<open>VcfSplitChrom fn out_dir label chrom_list\<close> (with \<^verbatim>\<open>out_prefix_list = None\<close>,
     \<^verbatim>\<open>verbose = True\<close>);
  \<^item> \<open>VcfIndex fn\<close>;
  \<^item> \<open>RefPhasing target_vcf_list ref_vcf_list out_prefix_list gmap_fn eagle_fn out_dir ncores
     script_fn log_fn\<close> (with \<^verbatim>\<open>verbose = True\<close>);
  \<^item> \<open>VcfMerge in_fn_list out_fn sort\<close>.
\<close>

datatype call =
    Pileup "string option" "string option" "string option" "string option" path path
      string string string int string int path path
  | VcfAddGenotype path path string bool bool bool
  | VcfSplitChrom path path string "string list"
  | VcfIndex path
  | RefPhasing "path list" "path list" "path list" path path path int path path
  | VcfMerge "path list" path bool

text \<open>
  What a run does that can be seen from outside, in order: log lines (\<^verbatim>\<open>info\<close>,
  \<^verbatim>\<open>error\<close>), text written to standard output, the set-up of logging, a directory
  created by \<^verbatim>\<open>os.mkdir\<close>, and a call of a stage function.
\<close>

datatype event =
    Info string
  | Error string
  | Stdout string
  | InitLogging
  | Mkdir path
  | Call call

text \<open>
  The file system is the set of the path strings for which \<^verbatim>\<open>os.path.exists\<close> is true. Two
  strings can name one file (\<^verbatim>\<open>d\<close>, \<^verbatim>\<open>./d\<close>, \<^verbatim>\<open>d/\<close>, an absolute path), and a string can
  lead through a directory (\<^verbatim>\<open>d/../x\<close>): such strings are separate members of the set.

  The parts of the environment the source file does not fix: whether \<^verbatim>\<open>os.mkdir\<close> of an
  absent path succeeds (parent directory, permissions) and which other path strings exist
  once the new directory does (its other spellings, the paths that lead through it),
  Python's \<^verbatim>\<open>int(str)\<close>, and the stage functions of the repository that are defined outside
  baf.py. A stage function reads and changes the file system and either returns or raises
  (\<open>Some message\<close>); \<^verbatim>\<open>vcf_split_chrom\<close> also returns its list of (chrom, n_variants, vcf_fn)
  triples.
\<close>

record env =
  mkdir_ok :: "path \<Rightarrow> path set \<Rightarrow> bool"
  mkdir_also :: "path \<Rightarrow> path set \<Rightarrow> path set"
  py_int :: "string \<Rightarrow> int option"
  tool :: "call \<Rightarrow> path set \<Rightarrow> string option \<times> path set"
  splitter :: "call \<Rightarrow> path set \<Rightarrow> (string + (string \<times> int \<times> path) list) \<times> path set"

subsection \<open>Programs: the file system is threaded, exceptions stop the run, events accumulate\<close>

text \<open>
  A program maps the set of existing paths to its outcome (an exception or a value), the
  file system it leaves behind (also when it raises) and the events it produced.
\<close>

type_synonym 'a prog = "path set \<Rightarrow> (exn + 'a) \<times> path set \<times> event list"

definition ret :: "'a \<Rightarrow> 'a prog" where
  "ret x = (\<lambda>fs. (Inr x, fs, []))"

definition raise :: "exn \<Rightarrow> 'a prog" where
  "raise e = (\<lambda>fs. (Inl e, fs, []))"

definition bnd :: "'a prog \<Rightarrow> ('a \<Rightarrow> 'b prog) \<Rightarrow> 'b prog" where
  "bnd m k = (\<lambda>fs.
     case m fs of
       (Inl e, fs1, ev1) \<Rightarrow> (Inl e, fs1, ev1)
     | (Inr x, fs1, ev1) \<Rightarrow> (case k x fs1 of (r, fs2, ev2) \<Rightarrow> (r, fs2, ev1 @ ev2)))"

definition thn :: "'a prog \<Rightarrow> 'b prog \<Rightarrow> 'b prog" where
  "thn m k = bnd m (\<lambda>_. k)"

definition emit :: "event \<Rightarrow> unit prog" where
  "emit e = (\<lambda>fs. (Inr (), fs, [e]))"

definition info :: "string \<Rightarrow> unit prog" where
  "info s = emit (Info s)"

definition log_error :: "string \<Rightarrow> unit prog" where
  "log_error s = emit (Error s)"

definition os_path_exists :: "path \<Rightarrow> bool prog" where
  "os_path_exists p = (\<lambda>fs. (Inr (p \<in> fs), fs, []))"

text \<open>
  The path strings that exist after \<^verbatim>\<open>os.mkdir(p)\<close> has succeeded: those that existed, \<open>p\<close>,
  and the other strings that the new directory makes resolvable.
\<close>

definition after_mkdir :: "env \<Rightarrow> path \<Rightarrow> path set \<Rightarrow> path set" where
  "after_mkdir env p fs = insert p (fs \<union> mkdir_also env p fs)"

text \<open>\<^verbatim>\<open>os.mkdir(p)\<close>: fails on an existing path and where the environment refuses.\<close>

definition os_mkdir :: "env \<Rightarrow> path \<Rightarrow> unit prog" where
  "os_mkdir env p = (\<lambda>fs.
     if p \<in> fs \<or> \<not> mkdir_ok env p fs then (Inl (OSError p), fs, [])
     else (Inr (), after_mkdir env p fs, [Mkdir p]))"

text \<open>
  Modelled from the spec: \<^verbatim>\<open>assert_n\<close> of \<^verbatim>\<open>xcltk.utils.base\<close>, which is not in the source
  files. The Preflight Validator "fails fast if the label is unset"; afterwards the value
  is a string.
\<close>

definition assert_n :: "string option \<Rightarrow> string prog" where
  "assert_n var = (case var of None \<Rightarrow> raise AssertN | Some s \<Rightarrow> ret s)"

text \<open>
  Modelled from the spec: \<^verbatim>\<open>assert_e\<close> of \<^verbatim>\<open>xcltk.utils.base\<close>, which is not in the source
  files. It fails when the "path does not exist" (an unset path does not exist);
  afterwards the path is a string.
\<close>

definition assert_e :: "string option \<Rightarrow> path prog" where
  "assert_e p = (case p of
       None \<Rightarrow> raise (AssertE None)
     | Some f \<Rightarrow> (\<lambda>fs. if f \<in> fs then (Inr f, fs, []) else (Inl (AssertE (Some f)), fs, [])))"

text \<open>A call of a stage function: the call is recorded, then the environment runs it.\<close>

definition invoke :: "env \<Rightarrow> call \<Rightarrow> unit prog" where
  "invoke env c = (\<lambda>fs.
     case tool env c fs of
       (None, fs1) \<Rightarrow> (Inr (), fs1, [Call c])
     | (Some m, fs1) \<Rightarrow> (Inl (StageError m), fs1, [Call c]))"

definition vcf_split_chrom ::
  "env \<Rightarrow> path \<Rightarrow> path \<Rightarrow> string \<Rightarrow> string list \<Rightarrow> (string \<times> int \<times> path) list prog" where
  "vcf_split_chrom env fn out_dir' label' chrom_list' = (\<lambda>fs.
     case splitter env (VcfSplitChrom fn out_dir' label' chrom_list') fs of
       (Inr res, fs1) \<Rightarrow> (Inr res, fs1, [Call (VcfSplitChrom fn out_dir' label' chrom_list')])
     | (Inl m, fs1) \<Rightarrow> (Inl (StageError m), fs1, [Call (VcfSplitChrom fn out_dir' label' chrom_list')]))"

definition vcf_index :: "env \<Rightarrow> path \<Rightarrow> unit prog" where
  "vcf_index env fn = invoke env (VcfIndex fn)"

definition vcf_merge :: "env \<Rightarrow> path list \<Rightarrow> path \<Rightarrow> bool \<Rightarrow> unit prog" where
  "vcf_merge env in_fn_list out_fn sort' = invoke env (VcfMerge in_fn_list out_fn sort')"

section \<open>run_baf_preprocess\<close>

text \<open>The keyword arguments of \<^verbatim>\<open>run_baf_preprocess\<close>; \<open>None\<close> is Python's \<^verbatim>\<open>None\<close>.\<close>

record args =
  label :: "string option"
  sam_fn :: "string option"
  sam_list_fn :: "string option"
  barcode_fn :: "string option"
  snp_vcf_fn :: "string option"
  out_dir :: "string option"
  gmap_fn :: "string option"
  eagle_fn :: "string option"
  panel_dir :: "string option"
  cell_tag :: string
  umi_tag :: string
  ncores :: int
  mode :: string

text \<open>
  The arguments that "check args" has found to be strings: after \<^verbatim>\<open>assert_n(label)\<close>,
  \<^verbatim>\<open>assert_e(...)\<close> and \<^verbatim>\<open>os.path.exists(out_dir)\<close> have returned, none of them is
  \<^verbatim>\<open>None\<close>.
\<close>

record checked =
  c_label :: string
  c_snp_vcf_fn :: path
  c_out_dir :: path
  c_gmap_fn :: path
  c_eagle_fn :: path
  c_panel_dir :: path

text \<open>\<^verbatim>\<open>if not os.path.exists(d): os.mkdir(d)\<close>\<close>

definition ensure_dir :: "env \<Rightarrow> path \<Rightarrow> unit prog" where
  "ensure_dir env d = bnd (os_path_exists d) (\<lambda>e. if \<not> e then os_mkdir env d else ret ())"

text \<open>The two files the reference panel must hold for chromosome \<open>chrom\<close>.\<close>

definition panel_bcf :: "path \<Rightarrow> nat \<Rightarrow> path" where
  "panel_bcf pd chrom = os_path_join pd (''chr'' @ str_nat chrom @ ''.genotypes.bcf'')"

definition panel_csi :: "path \<Rightarrow> nat \<Rightarrow> path" where
  "panel_csi pd chrom = os_path_join pd (''chr'' @ str_nat chrom @ ''.genotypes.bcf.csi'')"

text \<open>The loop \<^verbatim>\<open>for chrom in range(1, 23)\<close> of "check args", over the list of its values.\<close>

primrec panel_loop :: "path \<Rightarrow> nat list \<Rightarrow> unit prog" where
  "panel_loop pd [] = ret ()"
| "panel_loop pd (chrom # rest) =
     thn (assert_e (Some (panel_bcf pd chrom)))
    (thn (assert_e (Some (panel_csi pd chrom)))
         (panel_loop pd rest))"

text \<open>\<^verbatim>\<open>genome = "hg19" if "hg19" in gmap_fn else "hg38"\<close>\<close>

definition genome_of :: "string \<Rightarrow> string" where
  "genome_of gmap = (if py_in ''hg19'' gmap then ''hg19'' else ''hg38'')"

text \<open>
  Lines 141 to 151: the checks of "check args" that come after the output directory,
  given the label, the SNP file and the output directory already found.
\<close>

definition late_checks :: "args \<Rightarrow> string \<Rightarrow> path \<Rightarrow> path \<Rightarrow> checked prog" where
  "late_checks a l snp od =
     bnd (assert_e (gmap_fn a)) (\<lambda>gm.
     bnd (assert_e (eagle_fn a)) (\<lambda>eg.
     bnd (assert_e (panel_dir a)) (\<lambda>pd.
     thn (panel_loop pd [1..<23])
    (thn (info (''run in '' @ quoted (mode a) @ '' mode (genome version ''
                 @ quoted (genome_of gm) @ '')''))
         (ret \<lparr>c_label = l, c_snp_vcf_fn = snp, c_out_dir = od, c_gmap_fn = gm,
               c_eagle_fn = eg, c_panel_dir = pd\<rparr>)))))"

text \<open>
  Lines 132 to 151: "check args". \<^verbatim>\<open>os.path.exists(None)\<close> raises TypeError.
\<close>

definition check_args :: "env \<Rightarrow> args \<Rightarrow> checked prog" where
  "check_args env a =
     thn (info ''check args ...'')
    (bnd (assert_n (label a)) (\<lambda>l.
     bnd (assert_e (snp_vcf_fn a)) (\<lambda>snp.
     bnd (case out_dir a of
            None \<Rightarrow> raise TypeError
          | Some od \<Rightarrow> thn (ensure_dir env od) (ret od)) (\<lambda>od.
     late_checks a l snp od))))"

text \<open>Lines 153 to 178: "pileup". The result is \<^verbatim>\<open>pileup_vcf_fn\<close>.\<close>

definition pileup_stage :: "env \<Rightarrow> args \<Rightarrow> checked \<Rightarrow> path prog" where
  "pileup_stage env a c =
     thn (info ''start pileup ...'')
    (let pileup_dir = os_path_join (c_out_dir c) ''pileup'' in
     thn (ensure_dir env pileup_dir)
    (let pileup_script = os_path_join (c_out_dir c) ''run_pileup.sh'';
         pileup_log_fn = os_path_join (c_out_dir c) ''pileup.log'';
         sample = (if mode a = ''bulk'' then Some (c_label c) else None) in
     thn (invoke env (Pileup (sam_fn a) (sam_list_fn a) (barcode_fn a) sample
            (c_snp_vcf_fn c) pileup_dir (mode a) (cell_tag a) (umi_tag a) (ncores a)
            ''0.1'' 20 pileup_script pileup_log_fn))
    (let pileup_vcf_fn = os_path_join pileup_dir ''cellSNP.base.vcf.gz'' in
     thn (assert_e (Some pileup_vcf_fn))
    (thn (info (''pileup VCF is '' @ quoted pileup_vcf_fn @ ''.''))
         (ret pileup_vcf_fn)))))"

text \<open>
  Lines 180 to 200: "prepare VCF files for phasing" and "add genotypes". The result is
  \<^verbatim>\<open>genotype_vcf_fn\<close>.
\<close>

definition phasing_dir_of :: "path \<Rightarrow> path" where
  "phasing_dir_of od = os_path_join od ''phasing''"

definition genotype_vcf_fn_of :: "path \<Rightarrow> string \<Rightarrow> path" where
  "genotype_vcf_fn_of od l = os_path_join od (l @ ''.genotype.vcf.gz'')"

definition genotype_stage :: "env \<Rightarrow> checked \<Rightarrow> path \<Rightarrow> path prog" where
  "genotype_stage env c pileup_vcf_fn =
     thn (info ''prepare VCF files for phasing ...'')
    (thn (ensure_dir env (phasing_dir_of (c_out_dir c)))
    (thn (info ''add genotypes ...'')
    (let genotype_vcf_fn = genotype_vcf_fn_of (c_out_dir c) (c_label c) in
     thn (invoke env (VcfAddGenotype pileup_vcf_fn genotype_vcf_fn (c_label c) True True True))
         (ret genotype_vcf_fn))))"

text \<open>\<^verbatim>\<open>["chr" + str(i) for i in range(1, 23)]\<close>\<close>

definition chrom_list :: "string list" where
  "chrom_list = map (\<lambda>i. ''chr'' @ str_nat i) [1..<23]"

text \<open>Lines 202 to 214: "split VCF by chromosomes". The result is \<^verbatim>\<open>res\<close>.\<close>

definition split_stage :: "env \<Rightarrow> checked \<Rightarrow> path \<Rightarrow> (string \<times> int \<times> path) list prog" where
  "split_stage env c genotype_vcf_fn =
     thn (info ''split VCF by chromosomes ...'')
         (vcf_split_chrom env genotype_vcf_fn (phasing_dir_of (c_out_dir c)) (c_label c) chrom_list)"

text \<open>
  Lines 215 to 219: the loop over \<^verbatim>\<open>res\<close>, with the two lists it appends to as the
  accumulator (\<open>valid_chroms\<close>, \<open>target_vcf_list\<close>).
\<close>

primrec index_loop ::
  "env \<Rightarrow> (string \<times> int \<times> path) list \<Rightarrow> string list \<times> path list \<Rightarrow> (string list \<times> path list) prog" where
  "index_loop env [] acc = ret acc"
| "index_loop env (t # res) acc =
     (case t of (chrom, n_variants, vcf_fn) \<Rightarrow>
        if n_variants > 0 then
          thn (vcf_index env vcf_fn)
              (index_loop env res (fst acc @ [chrom], snd acc @ [vcf_fn]))
        else index_loop env res acc)"

text \<open>The list comprehensions of lines 227 to 230 and 249.\<close>

definition ref_vcf_list_of :: "path \<Rightarrow> string list \<Rightarrow> path list" where
  "ref_vcf_list_of pd valid_chroms =
     map (\<lambda>chrom. os_path_join pd (chrom @ ''.genotypes.bcf'')) valid_chroms"

definition out_prefix_list_of :: "path \<Rightarrow> string \<Rightarrow> string list \<Rightarrow> path list" where
  "out_prefix_list_of phasing_dir l valid_chroms =
     map (\<lambda>chrom. os_path_join phasing_dir (l @ ''_'' @ chrom @ ''.phased'')) valid_chroms"

definition phased_vcf_list_of :: "path list \<Rightarrow> path list" where
  "phased_vcf_list_of out_prefix_list = map (\<lambda>prefix'. prefix' @ ''.vcf.gz'') out_prefix_list"

text \<open>
  Lines 221 to 244: "reference phasing", from the two lists of the loop. The result is
  \<^verbatim>\<open>out_prefix_list\<close>.
\<close>

definition phasing_stage ::
  "env \<Rightarrow> args \<Rightarrow> checked \<Rightarrow> string list \<Rightarrow> path list \<Rightarrow> path list prog" where
  "phasing_stage env a c valid_chroms target_vcf_list =
     thn (info (str_nat (length valid_chroms) @ '' chromosome VCFs are outputted with variants.''))
    (thn (info ''reference phasing ...'')
    (let phasing_dir = phasing_dir_of (c_out_dir c);
         ref_vcf_list = ref_vcf_list_of (c_panel_dir c) valid_chroms;
         out_prefix_list = out_prefix_list_of phasing_dir (c_label c) valid_chroms in
     thn (invoke env (RefPhasing target_vcf_list ref_vcf_list out_prefix_list
            (c_gmap_fn c) (c_eagle_fn c) phasing_dir (ncores a)
            (os_path_join (c_out_dir c) ''run_phasing.sh'')
            (os_path_join (c_out_dir c) ''phasing.log'')))
    (thn (info (''phased VCFs are in dir '' @ quoted phasing_dir @ ''.''))
         (ret out_prefix_list))))"

text \<open>The loop \<^verbatim>\<open>for fn in phased_vcf_list: assert_e(fn)\<close>.\<close>

primrec assert_all :: "path list \<Rightarrow> unit prog" where
  "assert_all [] = ret ()"
| "assert_all (fn # fns) = thn (assert_e (Some fn)) (assert_all fns)"

definition phased_vcf_fn_of :: "path \<Rightarrow> string \<Rightarrow> path" where
  "phased_vcf_fn_of od l = os_path_join od (l @ ''.phased.vcf.gz'')"

text \<open>Lines 246 to 256: "merge phased VCFs".\<close>

definition merge_stage :: "env \<Rightarrow> checked \<Rightarrow> path list \<Rightarrow> unit prog" where
  "merge_stage env c out_prefix_list =
     thn (info ''merge phased VCFs ...'')
    (let phased_vcf_list = phased_vcf_list_of out_prefix_list in
     thn (assert_all phased_vcf_list)
    (let phased_vcf_fn = phased_vcf_fn_of (c_out_dir c) (c_label c) in
     thn (vcf_merge env phased_vcf_list phased_vcf_fn True)
         (info (''merged VCF is '' @ quoted phased_vcf_fn @ ''.''))))"

text \<open>Lines 215 to 256: the pipeline from the result \<^verbatim>\<open>res\<close> of the split on.\<close>

definition run_from_split :: "env \<Rightarrow> args \<Rightarrow> checked \<Rightarrow> (string \<times> int \<times> path) list \<Rightarrow> unit prog" where
  "run_from_split env a c res =
     bnd (index_loop env res ([], [])) (\<lambda>(valid_chroms, target_vcf_list).
     bnd (phasing_stage env a c valid_chroms target_vcf_list) (\<lambda>out_prefix_list.
     merge_stage env c out_prefix_list))"

text \<open>Lines 153 to 256: the pipeline after "check args".\<close>

definition run_from_check :: "env \<Rightarrow> args \<Rightarrow> checked \<Rightarrow> unit prog" where
  "run_from_check env a c =
     bnd (pileup_stage env a c) (\<lambda>pileup_vcf_fn.
     bnd (genotype_stage env c pileup_vcf_fn) (\<lambda>genotype_vcf_fn.
     bnd (split_stage env c genotype_vcf_fn) (\<lambda>res.
     run_from_split env a c res)))"

text \<open>Lines 120 to 256: the whole function. It returns \<^verbatim>\<open>None\<close>.\<close>

definition run_baf_preprocess :: "env \<Rightarrow> args \<Rightarrow> unit prog" where
  "run_baf_preprocess env a =
     thn (info ''xcltk BAF preprocessing starts ...'')
    (bnd (check_args env a) (\<lambda>c. run_from_check env a c))"

section \<open>The command line: getopt, main and the exit status\<close>

text \<open>
  \<^verbatim>\<open>getopt.getopt(args, "", longopts)\<close> of the Python standard library. With no short
  options every argument \<^verbatim>\<open>-x...\<close> is refused; a long option is looked up among
  \<open>longopts\<close> (a name that ends with \<^verbatim>\<open>=\<close> takes an argument), an exact match first,
  a unique prefix otherwise.
\<close>

definition long_has_args :: "string \<Rightarrow> string list \<Rightarrow> exn + (bool \<times> string)" where
  "long_has_args opt longopts =
     (let possibilities = filter (\<lambda>o'. prefix opt o') longopts in
      if possibilities = [] then Inl (GetoptError (''option --'' @ opt @ '' not recognized''))
      else if opt \<in> set possibilities then Inr (False, opt)
      else if (opt @ ''='') \<in> set possibilities then Inr (True, opt)
      else if length possibilities > 1 then
        Inl (GetoptError (''option --'' @ opt @ '' not a unique prefix''))
      else
        (let unique_match = hd possibilities;
             has_arg = suffix ''='' unique_match
         in Inr (has_arg, if has_arg then butlast unique_match else unique_match)))"

text \<open>
  \<^verbatim>\<open>do_longs(opts, opt, longopts, args)\<close>, where \<open>opt\<close> is the argument without its
  two dashes. The result is the new option and the arguments that are left.
\<close>

definition do_longs ::
  "string \<Rightarrow> string list \<Rightarrow> string list \<Rightarrow> exn + ((string \<times> string) \<times> string list)" where
  "do_longs opt0 longopts args' =
     (let i = length (takeWhile (\<lambda>ch. ch \<noteq> CHR ''='') opt0);
          opt = take i opt0;
          optarg = (if i < length opt0 then Some (drop (i + 1) opt0) else None)
      in case long_has_args opt longopts of
           Inl e \<Rightarrow> Inl e
         | Inr (has_arg, name) \<Rightarrow>
             if has_arg then
               (case optarg of
                  Some v \<Rightarrow> Inr ((''--'' @ name, v), args')
                | None \<Rightarrow>
                    (case args' of
                       [] \<Rightarrow> Inl (GetoptError (''option --'' @ name @ '' requires argument''))
                     | v # rest \<Rightarrow> Inr ((''--'' @ name, v), rest)))
             else
               (case optarg of
                  Some v \<Rightarrow>
                    Inl (GetoptError (''option --'' @ name @ '' must not have an argument''))
                | None \<Rightarrow> Inr ((''--'' @ name, []), args')))"

text \<open>
  The loop of \<^verbatim>\<open>getopt\<close>: every round consumes at least one argument. With
  \<^verbatim>\<open>shortopts = ""\<close> the call of \<^verbatim>\<open>do_shorts\<close> raises for the first character after
  the dash.
\<close>

function getopt_loop ::
  "(string \<times> string) list \<Rightarrow> string list \<Rightarrow> string list \<Rightarrow>
     exn + ((string \<times> string) list \<times> string list)" where
  "getopt_loop opts [] longopts = Inr (opts, [])"
| "getopt_loop opts (a # rest) longopts =
     (if \<not> (prefix ''-'' a \<and> a \<noteq> ''-'') then Inr (opts, a # rest)
      else if a = ''--'' then Inr (opts, rest)
      else if prefix ''--'' a then
        (case do_longs (drop 2 a) longopts rest of
           Inl e \<Rightarrow> Inl e
         | Inr (ov, rest') \<Rightarrow> getopt_loop (opts @ [ov]) rest' longopts)
      else Inl (GetoptError (''option -'' @ [a ! 1] @ '' not recognized'')))"
  by pat_completeness auto
termination
  by (relation "measure (\<lambda>(opts, args', longopts). length args')")
     (auto simp: do_longs_def Let_def split: sum.splits option.splits list.splits if_splits prod.splits)

definition getopt :: "string list \<Rightarrow> string list \<Rightarrow> exn + ((string \<times> string) list \<times> string list)" where
  "getopt args' longopts = getopt_loop [] args' longopts"

text \<open>\<^verbatim>\<open>str.lower()\<close> on the ASCII letters, which are all an option name can hold.\<close>

definition lower_char :: "char \<Rightarrow> char" where
  "lower_char ch =
     (if (65::nat) \<le> of_char ch \<and> of_char ch \<le> (90::nat) then char_of (of_char ch + (32::nat)) else ch)"

definition lower :: "string \<Rightarrow> string" where
  "lower s = map lower_char s"

definition APP :: string where "APP = ''baf.py''"

definition VERSION :: string where "VERSION = ''0.0.1''"

definition CELL_TAG :: string where "CELL_TAG = ''CB''"

definition N_CORES :: int where "N_CORES = 1"

definition UMI_TAG :: string where "UMI_TAG = ''UB''"

definition long_options :: "string list" where
  "long_options =
     [''label='',
      ''sam='', ''samlist='', ''barcode='', ''snpvcf='',
      ''outdir='',
      ''gmap='', ''eagle='', ''paneldir='',
      ''version'', ''help'',
      ''cellTAG='', ''UMItag='',
      ''ncores='',
      ''smartseq'', ''bulk'']"

definition usage_text :: string where
  "usage_text =
     ''\<newline>'' @
     ''Version: '' @ VERSION @ ''\<newline>'' @
     ''Usage:   '' @ APP @ '' [options]\<newline>'' @
     ''\<newline>'' @
     ''Options:\<newline>'' @
     ''  --label STR        Task label.\<newline>'' @
     ''  --sam FILE         Comma separated indexed BAM/CRAM file(s).\<newline>'' @
     ''  --samlist FILE     A file listing BAM/CRAM files, each per line.\<newline>'' @
     ''  --barcode FILE     A plain file listing all effective cell barcodes (for 10x)\<newline>'' @
     ''                     or sample IDs (for smartseq).\<newline>'' @
     ''  --snpvcf FILE      A vcf file listing all candidate SNPs.\<newline>'' @
     ''  --outdir DIR       Output dir.\<newline>'' @
     ''  --gmap FILE        Path to genetic map provided by Eagle2\<newline>'' @
     ''                     (e.g. Eagle_v2.4.1/tables/genetic_map_hg38_withX.txt.gz).\<newline>'' @
     ''  --eagle FILE       Path to Eagle2 binary file.\<newline>'' @
     ''  --paneldir DIR     Directory to phasing reference panel (BCF files).\<newline>'' @
     ''  --version          Print version and exit.\<newline>'' @
     ''  --help             Print this message and exit.\<newline>'' @
     ''\<newline>'' @
     ''Optional arguments:\<newline>'' @
     ''  --cellTAG STR      Cell barcode tag ['' @ CELL_TAG @ '']\<newline>'' @
     ''  --UMItag STR       UMI tag ['' @ UMI_TAG @ '']\<newline>'' @
     ''  --ncores INT       Number of threads ['' @ (if N_CORES < 0 then ''-'' else []) @
        str_nat (nat \<bar>N_CORES\<bar>) @ '']\<newline>'' @
     ''  --smartseq         Run in smartseq mode.\<newline>'' @
     ''  --bulk             Run in bulk mode.\<newline>'' @
     ''\<newline>'' @
     ''Notes:\<newline>'' @
     ''  1. One and only one of '' @ [CHR 0x60] @ ''--sam'' @ [CHR 0x60] @ '' and '' @ [CHR 0x60]
        @ ''--samlist'' @ [CHR 0x60] @ '' should be specified.\<newline>'' @
     ''  2. For smartseq data, the order of the BAM files (in '' @ [CHR 0x60] @ ''--sam''
        @ [CHR 0x60] @ '' or '' @ [CHR 0x60] @ ''--samlist'' @ [CHR 0x60] @ '')\<newline>'' @
     ''     and the sample IDs (in '' @ [CHR 0x60] @ ''--barcode'' @ [CHR 0x60]
        @ '') should match each other.\<newline>'' @
     ''\<newline>''"

text \<open>
  \<^verbatim>\<open>usage()\<close> writes the text to standard output; \<^verbatim>\<open>sys.exit(n)\<close> raises SystemExit;
  \<^verbatim>\<open>init_logging\<close> is recorded as an event.
\<close>

definition usage :: "unit prog" where
  "usage = emit (Stdout usage_text)"

definition sys_exit :: "int \<Rightarrow> 'a prog" where
  "sys_exit n = raise (SystemExit n)"

definition init_logging :: "unit prog" where
  "init_logging = emit InitLogging"

text \<open>The values of the local variables of \<^verbatim>\<open>main\<close> before the options are read.\<close>

definition default_args :: args where
  "default_args =
     \<lparr>label = None, sam_fn = None, sam_list_fn = None, barcode_fn = None, snp_vcf_fn = None,
      out_dir = None, gmap_fn = None, eagle_fn = None, panel_dir = None,
      cell_tag = CELL_TAG, umi_tag = UMI_TAG, ncores = N_CORES, mode = ''10x''\<rparr>"

text \<open>
  One round of the loop \<^verbatim>\<open>for op, val in opts\<close>. Each test \<^verbatim>\<open>op in ("--label")\<close> is a
  substring test: the parentheses hold a string, not a tuple. The result is \<open>Inl v\<close> when
  the round returns \<open>v\<close> from \<^verbatim>\<open>main\<close>, and the updated variables otherwise.
\<close>

definition opt_step :: "env \<Rightarrow> string \<times> string \<Rightarrow> args \<Rightarrow> (int + args) prog" where
  "opt_step env ov a =
     (let val = snd ov;
          op = (if length (fst ov) > 2 then lower (fst ov) else fst ov) in
      if py_in op ''--label'' then ret (Inr (a\<lparr>label := Some val\<rparr>))
      else if py_in op ''--sam'' then ret (Inr (a\<lparr>sam_fn := Some val\<rparr>))
      else if py_in op ''--samlist'' then ret (Inr (a\<lparr>sam_list_fn := Some val\<rparr>))
      else if py_in op ''--barcode'' then ret (Inr (a\<lparr>barcode_fn := Some val\<rparr>))
      else if py_in op ''--snpvcf'' then ret (Inr (a\<lparr>snp_vcf_fn := Some val\<rparr>))
      else if py_in op ''--outdir'' then ret (Inr (a\<lparr>out_dir := Some val\<rparr>))
      else if py_in op ''--gmap'' then ret (Inr (a\<lparr>gmap_fn := Some val\<rparr>))
      else if py_in op ''--eagle'' then ret (Inr (a\<lparr>eagle_fn := Some val\<rparr>))
      else if py_in op ''--paneldir'' then ret (Inr (a\<lparr>panel_dir := Some val\<rparr>))
      else if py_in op ''--version'' then thn (log_error VERSION) (sys_exit 1)
      else if py_in op ''--help'' then thn usage (sys_exit 1)
      else if py_in op ''--celltag'' then ret (Inr (a\<lparr>cell_tag := val\<rparr>))
      else if py_in op ''--umitag'' then ret (Inr (a\<lparr>umi_tag := val\<rparr>))
      else if py_in op ''--ncores'' then
        (case py_int env val of
           None \<Rightarrow> raise (ValueError val)
         | Some n \<Rightarrow> ret (Inr (a\<lparr>ncores := n\<rparr>)))
      else if py_in op ''--smartseq'' then ret (Inr (a\<lparr>mode := ''smartseq''\<rparr>))
      else if py_in op ''--bulk'' then ret (Inr (a\<lparr>mode := ''bulk''\<rparr>))
      else thn (log_error (''invalid option: '' @ quoted op @ ''.'')) (ret (Inl (- 1))))"

primrec opt_loop :: "env \<Rightarrow> (string \<times> string) list \<Rightarrow> args \<Rightarrow> (int + args) prog" where
  "opt_loop env [] a = ret (Inr a)"
| "opt_loop env (ov # rest) a =
     bnd (opt_step env ov a) (\<lambda>r.
       case r of Inl v \<Rightarrow> ret (Inl v) | Inr a' \<Rightarrow> opt_loop env rest a')"

text \<open>
  Lines 50 to 117: \<^verbatim>\<open>main(argv)\<close>. Its value is \<open>Some (- 1)\<close> after \<^verbatim>\<open>return(-1)\<close> and
  \<open>None\<close> after \<^verbatim>\<open>return(ret)\<close>, since \<^verbatim>\<open>run_baf_preprocess\<close> returns \<^verbatim>\<open>None\<close>.
\<close>

definition main :: "env \<Rightarrow> string list \<Rightarrow> int option prog" where
  "main env argv =
     (if length argv < 2 then thn usage (sys_exit 1)
      else
        thn init_logging
       (case getopt (tl argv) long_options of
          Inl e \<Rightarrow> raise e
        | Inr (opts, rest) \<Rightarrow>
            bnd (opt_loop env opts default_args) (\<lambda>r.
              case r of
                Inl v \<Rightarrow> ret (Some v)
              | Inr a \<Rightarrow>
                  thn (run_baf_preprocess env a)
                 (thn (info ''All Done!'')
                      (ret None)))))"

text \<open>
  Lines 270 and 271: the script calls \<^verbatim>\<open>main(sys.argv)\<close> and drops its value. The exit
  status of the interpreter is the argument of \<^verbatim>\<open>sys.exit\<close>, 1 after any other
  exception that nothing caught, and 0 when the script ran to its end.
\<close>

definition exit_status :: "(exn + 'a) \<Rightarrow> int" where
  "exit_status r = (case r of Inl (SystemExit n) \<Rightarrow> n | Inl _ \<Rightarrow> 1 | Inr _ \<Rightarrow> 0)"

definition script :: "env \<Rightarrow> string list \<Rightarrow> path set \<Rightarrow> int \<times> path set \<times> event list" where
  "script env argv fs = (case main env argv fs of (r, fs1, ev) \<Rightarrow> (exit_status r, fs1, ev))"

section \<open>Notions the properties are stated with\<close>

text \<open>The calls of stage functions in a trace, in order.\<close>

primrec calls_of :: "event list \<Rightarrow> call list" where
  "calls_of [] = []"
| "calls_of (e # es) = (case e of Call c \<Rightarrow> c # calls_of es | _ \<Rightarrow> calls_of es)"

text \<open>The directories a trace created, in order.\<close>

primrec mkdirs_of :: "event list \<Rightarrow> path list" where
  "mkdirs_of [] = []"
| "mkdirs_of (e # es) = (case e of Mkdir d \<Rightarrow> d # mkdirs_of es | _ \<Rightarrow> mkdirs_of es)"

text \<open>
  The file system after \<^verbatim>\<open>if not os.path.exists(d): os.mkdir(d)\<close> has gone through.
\<close>

definition ensured :: "env \<Rightarrow> path \<Rightarrow> path set \<Rightarrow> path set" where
  "ensured env d fs = (if d \<in> fs then fs else after_mkdir env d fs)"

text \<open>
  The checks of lines 141 to 146 all pass on the file system \<open>fs1\<close>: the genetic map, the
  Eagle binary, the panel directory and the 22 pairs of panel files exist.
\<close>

definition later_checks_pass :: "args \<Rightarrow> path set \<Rightarrow> bool" where
  "later_checks_pass a fs1 =
     (case (gmap_fn a, eagle_fn a, panel_dir a) of
        (Some gm, Some eg, Some pd) \<Rightarrow>
           gm \<in> fs1 \<and> eg \<in> fs1 \<and> pd \<in> fs1 \<and>
           (\<forall>n\<in>set [1..<23]. panel_bcf pd n \<in> fs1 \<and> panel_csi pd n \<in> fs1)
      | _ \<Rightarrow> False)"

text \<open>The entries of \<^verbatim>\<open>res\<close> that the loop of lines 215 to 219 keeps.\<close>

definition retained :: "(string \<times> int \<times> path) list \<Rightarrow> (string \<times> int \<times> path) list" where
  "retained res = filter (\<lambda>t. fst (snd t) > 0) res"

text \<open>The values of lines 156 to 175 and the call of lines 162 to 173, by name.\<close>

definition pileup_dir_of :: "path \<Rightarrow> path" where
  "pileup_dir_of od = os_path_join od ''pileup''"

definition pileup_vcf_fn_of :: "path \<Rightarrow> path" where
  "pileup_vcf_fn_of od = os_path_join (pileup_dir_of od) ''cellSNP.base.vcf.gz''"

definition pileup_call :: "args \<Rightarrow> checked \<Rightarrow> call" where
  "pileup_call a c =
     Pileup (sam_fn a) (sam_list_fn a) (barcode_fn a)
       (if mode a = ''bulk'' then Some (c_label c) else None)
       (c_snp_vcf_fn c) (pileup_dir_of (c_out_dir c)) (mode a) (cell_tag a) (umi_tag a) (ncores a)
       ''0.1'' 20 (os_path_join (c_out_dir c) ''run_pileup.sh'')
       (os_path_join (c_out_dir c) ''pileup.log'')"

text \<open>The calls of lines 193 to 200, 207 to 214, 231 to 242 and 254, by name.\<close>

definition genotype_call :: "checked \<Rightarrow> call" where
  "genotype_call c =
     VcfAddGenotype (pileup_vcf_fn_of (c_out_dir c)) (genotype_vcf_fn_of (c_out_dir c) (c_label c))
       (c_label c) True True True"

definition split_call :: "checked \<Rightarrow> call" where
  "split_call c =
     VcfSplitChrom (genotype_vcf_fn_of (c_out_dir c) (c_label c)) (phasing_dir_of (c_out_dir c))
       (c_label c) chrom_list"

definition phasing_call :: "args \<Rightarrow> checked \<Rightarrow> string list \<Rightarrow> path list \<Rightarrow> call" where
  "phasing_call a c valid_chroms target_vcf_list =
     RefPhasing target_vcf_list (ref_vcf_list_of (c_panel_dir c) valid_chroms)
       (out_prefix_list_of (phasing_dir_of (c_out_dir c)) (c_label c) valid_chroms)
       (c_gmap_fn c) (c_eagle_fn c) (phasing_dir_of (c_out_dir c)) (ncores a)
       (os_path_join (c_out_dir c) ''run_phasing.sh'')
       (os_path_join (c_out_dir c) ''phasing.log'')"

definition merge_call :: "checked \<Rightarrow> path list \<Rightarrow> call" where
  "merge_call c out_prefix_list =
     VcfMerge (phased_vcf_list_of out_prefix_list) (phased_vcf_fn_of (c_out_dir c) (c_label c)) True"

text \<open>
  A bound on what a program can do, whatever the file system: every event it produces
  satisfies \<open>P\<close> and every exception it raises satisfies \<open>E\<close>.
\<close>

definition sat :: "(event \<Rightarrow> bool) \<Rightarrow> (exn \<Rightarrow> bool) \<Rightarrow> 'a prog \<Rightarrow> bool" where
  "sat P E p = (\<forall>fs. case p fs of (r, fs1, ev) \<Rightarrow>
      list_all P ev \<and> (case r of Inl e \<Rightarrow> E e | Inr _ \<Rightarrow> True))"

text \<open>The exception of \<^verbatim>\<open>sys.exit\<close>, and a log line of \<^verbatim>\<open>info\<close>.\<close>

definition is_exit :: "exn \<Rightarrow> bool" where
  "is_exit e = (case e of SystemExit _ \<Rightarrow> True | _ \<Rightarrow> False)"

definition is_info :: "event \<Rightarrow> bool" where
  "is_info e = (case e of Info _ \<Rightarrow> True | _ \<Rightarrow> False)"

text \<open>The events of the loop of lines 215 to 219 when every \<^verbatim>\<open>vcf_index\<close> returns.\<close>

definition index_events :: "(string \<times> int \<times> path) list \<Rightarrow> event list" where
  "index_events res = map (\<lambda>t. Call (VcfIndex (snd (snd t)))) (retained res)"

text \<open>A call of \<^verbatim>\<open>pileup\<close> in a trace.\<close>

definition is_pileup :: "event \<Rightarrow> bool" where
  "is_pileup e =
     (case e of
        Call (Pileup s sl b smp snp d m ct ut nc mm mc scr lg) \<Rightarrow> True
      | _ \<Rightarrow> False)"

text \<open>A call of \<^verbatim>\<open>ref_phasing\<close> in a trace.\<close>

definition is_phasing :: "event \<Rightarrow> bool" where
  "is_phasing e =
     (case e of
        Call (RefPhasing tg rl ol gm eg d nc scr lg) \<Rightarrow> True
      | _ \<Rightarrow> False)"

text \<open>
  The files a run with label \<open>l\<close> and output directory \<open>od\<close> names after its label: the
  genotype VCF (line 192), the merged VCF (line 253) and, for the chromosomes of
  chr1..chr22 (a run has them for those it retains), the phased VCFs (lines 229 and 249).
\<close>

definition label_paths :: "path \<Rightarrow> string \<Rightarrow> path list" where
  "label_paths od l =
     genotype_vcf_fn_of od l # phased_vcf_fn_of od l #
     phased_vcf_list_of (out_prefix_list_of (phasing_dir_of od) l chrom_list)"

text \<open>What \<^verbatim>\<open>os.path.join\<close> puts between a directory and a relative name.\<close>

definition sep_after :: "path \<Rightarrow> string" where
  "sep_after d = (if d = [] \<or> suffix ''/'' d then [] else ''/'')"

text \<open>A long option of \<^verbatim>\<open>getopt\<close> without the \<^verbatim>\<open>=\<close> that marks an argument.\<close>

definition strip_eq :: "string \<Rightarrow> string" where
  "strip_eq n = (if suffix ''='' n then butlast n else n)"

text \<open>The option names \<^verbatim>\<open>getopt\<close> can return for \<open>long_options\<close>.\<close>

definition known_ops :: "string list" where
  "known_ops = map (\<lambda>n. ''--'' @ strip_eq n) long_options"

text \<open>The name the loop of \<^verbatim>\<open>main\<close> tests: lower case when longer than two characters.\<close>

definition lowered :: "string \<Rightarrow> string" where
  "lowered op = (if length op > 2 then lower op else op)"

text \<open>One of the tests of the loop of \<^verbatim>\<open>main\<close> succeeds for the name.\<close>

definition dispatched :: "string \<Rightarrow> bool" where
  "dispatched op =
     list_ex (\<lambda>n. py_in op n)
       [''--label'', ''--sam'', ''--samlist'', ''--barcode'', ''--snpvcf'', ''--outdir'', ''--gmap'',
        ''--eagle'', ''--paneldir'', ''--version'', ''--help'', ''--celltag'', ''--umitag'',
        ''--ncores'', ''--smartseq'', ''--bulk'']"

text \<open>
  Modelled from the spec: what \<^verbatim>\<open>vcf_merge\<close> of \<^verbatim>\<open>xcltk.utils.vcf\<close>, which is not in the
  source files, leaves behind. The Merge Aggregator "concatenates them ... into a single
  cohort-level phased VCF at \<^verbatim>\<open><label>.phased.vcf.gz\<close>": when the call returns, the output
  file exists.
\<close>

definition vcf_merge_contract :: "env \<Rightarrow> bool" where
  "vcf_merge_contract env =
     (\<forall>in_fn_list out_fn srt fs fs1.
        tool env (VcfMerge in_fn_list out_fn srt) fs = (None, fs1) \<longrightarrow> out_fn \<in> fs1)"

section \<open>An example run and the inputs of the counterexamples\<close>

text \<open>
  Stage functions that do what the spec says of them: the pileup leaves its base VCF, the
  phasing leaves one phased VCF for each output prefix, the merge leaves the merged VCF.
\<close>

definition ex_tool :: "call \<Rightarrow> path set \<Rightarrow> string option \<times> path set" where
  "ex_tool c fs =
     (case c of
        Pileup s sl b smp snp d m ct ut nc mm mc scr lg \<Rightarrow>
          (None, insert (os_path_join d ''cellSNP.base.vcf.gz'') fs)
      | RefPhasing tg rl ol gm eg d nc scr lg \<Rightarrow>
          (None, fs \<union> set (map (\<lambda>p. p @ ''.vcf.gz'') ol))
      | VcfMerge ins out s \<Rightarrow> (None, insert out fs)
      | _ \<Rightarrow> (None, fs))"

text \<open>A split that finds variants on chr1 and chr5 only (the scenario of the spec).\<close>

definition ex_splitter :: "call \<Rightarrow> path set \<Rightarrow> (string + (string \<times> int \<times> path) list) \<times> path set" where
  "ex_splitter c fs =
     (case c of
        VcfSplitChrom fn d l cl \<Rightarrow>
          (Inr (map (\<lambda>ch. (ch, if ch = ''chr1'' \<or> ch = ''chr5'' then 3 else 0,
                            os_path_join d (l @ ''_'' @ ch @ ''.vcf.gz''))) cl), fs)
      | _ \<Rightarrow> (Inl ''not a split'', fs))"

definition ex_env :: env where
  "ex_env = \<lparr>mkdir_ok = (\<lambda>p fs. True), mkdir_also = (\<lambda>p fs. {}), py_int = (\<lambda>s. None),
              tool = ex_tool, splitter = ex_splitter\<rparr>"

text \<open>Arguments with every required input, and a file system that holds them all.\<close>

definition ex_args :: args where
  "ex_args =
     \<lparr>label = Some ''s1'', sam_fn = Some ''a.bam'', sam_list_fn = None, barcode_fn = Some ''bc.tsv'',
      snp_vcf_fn = Some ''snp.vcf.gz'', out_dir = Some ''out'',
      gmap_fn = Some ''genetic_map_hg38_withX.txt.gz'', eagle_fn = Some ''eagle'',
      panel_dir = Some ''panel'',
      cell_tag = ''CB'', umi_tag = ''UB'', ncores = 1, mode = ''10x''\<rparr>"

definition ex_fs :: "path set" where
  "ex_fs = set ([''a.bam'', ''bc.tsv'', ''snp.vcf.gz'', ''genetic_map_hg38_withX.txt.gz'', ''eagle'', ''panel'']
               @ map (panel_bcf ''panel'') [1..<23] @ map (panel_csi ''panel'') [1..<23])"

text \<open>What "check args" returns for \<open>ex_args\<close>.\<close>

definition ex_checked :: checked where
  "ex_checked =
     \<lparr>c_label = ''s1'', c_snp_vcf_fn = ''snp.vcf.gz'', c_out_dir = ''out'',
      c_gmap_fn = ''genetic_map_hg38_withX.txt.gz'', c_eagle_fn = ''eagle'',
      c_panel_dir = ''panel''\<rparr>"

text \<open>The output prefixes of the phasing when chr1 and chr5 are retained.\<close>

definition ex_prefixes :: "path list" where
  "ex_prefixes = [''out/phasing/s1_chr1.phased'', ''out/phasing/s1_chr5.phased'']"

text \<open>
  A reference panel without \<^verbatim>\<open>chr13.genotypes.bcf.csi\<close>, and arguments whose output
  directory is the path of that missing file.
\<close>

definition c3_fs :: "path set" where
  "c3_fs = ex_fs - {''panel/chr13.genotypes.bcf.csi''}"

definition c3_args :: args where
  "c3_args = ex_args\<lparr>out_dir := Some ''panel/chr13.genotypes.bcf.csi''\<rparr>"

text \<open>What "check args" returns for \<open>c3_args\<close>.\<close>

definition c3_checked :: checked where
  "c3_checked = ex_checked\<lparr>c_out_dir := ''panel/chr13.genotypes.bcf.csi''\<rparr>"

text \<open>
  Arguments with neither \<^verbatim>\<open>--sam\<close> nor \<^verbatim>\<open>--samlist\<close> and no barcode list, and arguments
  with both \<^verbatim>\<open>--sam\<close> and \<^verbatim>\<open>--samlist\<close>, of which the second names a file that does not
  exist.
\<close>

definition c6_args_neither :: args where
  "c6_args_neither = ex_args\<lparr>sam_fn := None, sam_list_fn := None, barcode_fn := None\<rparr>"

definition c6_args_both :: args where
  "c6_args_both = ex_args\<lparr>sam_fn := Some ''a.bam'', sam_list_fn := Some ''absent.list''\<rparr>"

text \<open>The result of the split in the example run: variants on chr1 and chr5 only.\<close>

definition ex_res :: "(string \<times> int \<times> path) list" where
  "ex_res = map (\<lambda>ch. (ch, if ch = ''chr1'' \<or> ch = ''chr5'' then 3 else 0,
                     os_path_join ''out/phasing'' (''s1_'' @ ch @ ''.vcf.gz''))) chrom_list"

text \<open>The command line of the example run.\<close>

definition ex_argv :: "string list" where
  "ex_argv =
     [''baf.py'', ''--label'', ''s1'', ''--sam'', ''a.bam'', ''--barcode'', ''bc.tsv'',
      ''--snpvcf'', ''snp.vcf.gz'', ''--outdir'', ''out'',
      ''--gmap'', ''genetic_map_hg38_withX.txt.gz'', ''--eagle'', ''eagle'', ''--paneldir'', ''panel'']"

section \<open>Properties of the model\<close>

subsection \<open>Running programs\<close>

lemma bnd_cases:
  assumes "bnd m k fs = (r, fs', ev)"
  obtains (fail) e where "m fs = (Inl e, fs', ev)" "r = Inl e"
        | (ok) x fs1 ev1 ev2 where "m fs = (Inr x, fs1, ev1)" "k x fs1 = (r, fs', ev2)" "ev = ev1 @ ev2"
  using assms by (auto simp: bnd_def split: prod.splits sum.splits)

lemma thn_cases:
  assumes "thn m k fs = (r, fs', ev)"
  obtains (fail) e where "m fs = (Inl e, fs', ev)" "r = Inl e"
        | (ok) x fs1 ev1 ev2 where "m fs = (Inr x, fs1, ev1)" "k fs1 = (r, fs', ev2)" "ev = ev1 @ ev2"
  using assms by (auto simp: thn_def elim: bnd_cases)

lemma bnd_Inl: "m fs = (Inl e, fs1, ev1) \<Longrightarrow> bnd m k fs = (Inl e, fs1, ev1)"
  by (simp add: bnd_def)

lemma bnd_Inr:
  "m fs = (Inr x, fs1, ev1) \<Longrightarrow> k x fs1 = (r, fs2, ev2) \<Longrightarrow> bnd m k fs = (r, fs2, ev1 @ ev2)"
  by (simp add: bnd_def)

lemma thn_Inl: "m fs = (Inl e, fs1, ev1) \<Longrightarrow> thn m k fs = (Inl e, fs1, ev1)"
  by (simp add: thn_def bnd_def)

lemma thn_Inr:
  "m fs = (Inr x, fs1, ev1) \<Longrightarrow> k fs1 = (r, fs2, ev2) \<Longrightarrow> thn m k fs = (r, fs2, ev1 @ ev2)"
  by (simp add: thn_def bnd_def)

lemma info_run: "info s fs = (Inr (), fs, [Info s])"
  by (simp add: info_def emit_def)

lemma thn_info: "thn (info s) k fs = (case k fs of (r, fs2, ev2) \<Rightarrow> (r, fs2, Info s # ev2))"
  by (simp add: thn_def bnd_def info_def emit_def)

lemma calls_of_append: "calls_of (xs @ ys) = calls_of xs @ calls_of ys"
  by (induction xs) (auto split: event.splits)

lemma mkdirs_of_append: "mkdirs_of (xs @ ys) = mkdirs_of xs @ mkdirs_of ys"
  by (induction xs) (auto split: event.splits)

lemma calls_of_mem: "c \<in> set (calls_of ev) \<longleftrightarrow> Call c \<in> set ev"
  by (induction ev) (auto split: event.splits)

lemma mkdirs_of_mem: "d \<in> set (mkdirs_of ev) \<longleftrightarrow> Mkdir d \<in> set ev"
  by (induction ev) (auto split: event.splits)

subsection \<open>Bounds on programs\<close>

lemma satD:
  "sat P E p \<Longrightarrow> p fs = (r, fs1, ev) \<Longrightarrow> list_all P ev \<and> (\<forall>e. r = Inl e \<longrightarrow> E e)"
  by (auto simp: sat_def split: prod.splits sum.splits dest!: spec[of _ fs])

lemma sat_bnd: "sat P E m \<Longrightarrow> (\<And>x. sat P E (k x)) \<Longrightarrow> sat P E (bnd m k)"
  unfolding sat_def bnd_def
  apply (intro allI)
  subgoal for fs
    apply (drule spec[of _ fs])
    apply (cases "m fs")
    subgoal for r fs1 ev1
      apply (cases r)
       apply simp
      subgoal for x
        apply (drule_tac x = x in meta_spec)
        apply (drule spec[of _ fs1])
        apply (auto split: prod.splits sum.splits)
        done
      done
    done
  done

lemma sat_thn: "sat P E m \<Longrightarrow> sat P E k \<Longrightarrow> sat P E (thn m k)"
  by (simp add: thn_def sat_bnd)

lemma sat_ret: "sat P E (ret x)"
  by (simp add: sat_def ret_def)

lemma sat_raise: "E e \<Longrightarrow> sat P E (raise e)"
  by (simp add: sat_def raise_def)

lemma sat_emit: "P e \<Longrightarrow> sat P E (emit e)"
  by (simp add: sat_def emit_def)

lemma sat_info: "P (Info s) \<Longrightarrow> sat P E (info s)"
  by (simp add: info_def sat_emit)

lemma sat_assert_e: "E (AssertE p) \<Longrightarrow> sat P E (assert_e p)"
  by (auto simp: sat_def assert_e_def raise_def split: option.splits)

lemma sat_assert_n: "E AssertN \<Longrightarrow> sat P E (assert_n v)"
  by (auto simp: sat_def assert_n_def raise_def ret_def split: option.splits)

lemma sat_ensure_dir: "P (Mkdir d) \<Longrightarrow> E (OSError d) \<Longrightarrow> sat P E (ensure_dir env d)"
  by (auto simp: sat_def ensure_dir_def bnd_def os_path_exists_def os_mkdir_def ret_def)

lemma sat_invoke: "P (Call c) \<Longrightarrow> (\<And>m. E (StageError m)) \<Longrightarrow> sat P E (invoke env c)"
  by (auto simp: sat_def invoke_def split: prod.splits option.splits)

lemma sat_vcf_split_chrom:
  "P (Call (VcfSplitChrom f d l cl)) \<Longrightarrow> (\<And>m. E (StageError m)) \<Longrightarrow> sat P E (vcf_split_chrom env f d l cl)"
  by (auto simp: sat_def vcf_split_chrom_def split: prod.splits sum.splits)

lemma sat_panel_loop: "(\<And>p. E (AssertE p)) \<Longrightarrow> sat P E (panel_loop pd cs)"
  by (induction cs) (simp_all add: sat_ret sat_thn sat_assert_e)

lemma sat_assert_all: "(\<And>p. E (AssertE p)) \<Longrightarrow> sat P E (assert_all fns)"
  by (induction fns) (simp_all add: sat_ret sat_thn sat_assert_e)

lemma sat_index_loop:
  "(\<And>f. P (Call (VcfIndex f))) \<Longrightarrow> (\<And>m. E (StageError m)) \<Longrightarrow> sat P E (index_loop env res acc)"
  by (induction res arbitrary: acc)
     (auto simp: sat_ret sat_thn sat_invoke vcf_index_def split: prod.splits)

subsection \<open>The loops\<close>

lemma panel_loop_ok:
  "(\<forall>c\<in>set cs. panel_bcf pd c \<in> fs \<and> panel_csi pd c \<in> fs) \<Longrightarrow> panel_loop pd cs fs = (Inr (), fs, [])"
  by (induction cs) (auto simp: ret_def thn_def bnd_def assert_e_def)

lemma panel_loop_fail:
  "\<not> (\<forall>c\<in>set cs. panel_bcf pd c \<in> fs \<and> panel_csi pd c \<in> fs) \<Longrightarrow> \<exists>e. panel_loop pd cs fs = (Inl e, fs, [])"
  by (induction cs) (auto simp: ret_def thn_def bnd_def assert_e_def)

lemma assert_all_ok: "set fns \<subseteq> fs \<Longrightarrow> assert_all fns fs = (Inr (), fs, [])"
  by (induction fns) (auto simp: ret_def thn_def bnd_def assert_e_def)

lemma assert_all_fail:
  "\<not> set fns \<subseteq> fs \<Longrightarrow> \<exists>fn\<in>set fns. fn \<notin> fs \<and> assert_all fns fs = (Inl (AssertE (Some fn)), fs, [])"
  by (induction fns) (auto simp: ret_def thn_def bnd_def assert_e_def)

lemma index_loop_Inr:
  "index_loop env res acc fs = (Inr r, fs', ev) \<Longrightarrow>
     r = (fst acc @ map fst (retained res), snd acc @ map (\<lambda>t. snd (snd t)) (retained res))
     \<and> ev = index_events res"
proof (induction res arbitrary: acc fs ev)
  case Nil
  then show ?case by (simp add: ret_def retained_def index_events_def)
next
  case (Cons t res)
  obtain chrom n f where t: "t = (chrom, n, f)" by (cases t) auto
  show ?case
  proof (cases "n > 0")
    case True
    with Cons.prems t have "thn (vcf_index env f) (index_loop env res (fst acc @ [chrom], snd acc @ [f])) fs = (Inr r, fs', ev)"
      by simp
    then obtain x fs1 ev1 ev2 where
      a: "vcf_index env f fs = (Inr x, fs1, ev1)" and
      b: "index_loop env res (fst acc @ [chrom], snd acc @ [f]) fs1 = (Inr r, fs', ev2)" and
      c: "ev = ev1 @ ev2"
      by (auto elim!: thn_cases)
    from a have "ev1 = [Call (VcfIndex f)]"
      by (auto simp: vcf_index_def invoke_def split: prod.splits option.splits)
    with Cons.IH[OF b] c True t show ?thesis
      by (simp add: retained_def index_events_def)
  next
    case False
    with Cons.prems t have "index_loop env res acc fs = (Inr r, fs', ev)" by simp
    from Cons.IH[OF this] False t show ?thesis
      by (simp add: retained_def index_events_def)
  qed
qed

lemma index_loop_events:
  "index_loop env res acc fs = (r, fs', ev) \<Longrightarrow> prefix ev (index_events res)"
proof (induction res arbitrary: acc fs ev)
  case Nil
  then show ?case by (simp add: ret_def)
next
  case (Cons t res)
  obtain chrom n f where t: "t = (chrom, n, f)" by (cases t) auto
  show ?case
  proof (cases "n > 0")
    case True
    with Cons.prems t have run: "thn (vcf_index env f) (index_loop env res (fst acc @ [chrom], snd acc @ [f])) fs = (r, fs', ev)"
      by simp
    have ie: "index_events (t # res) = Call (VcfIndex f) # index_events res"
      using True t by (simp add: index_events_def retained_def)
    from run show ?thesis
    proof (cases rule: thn_cases)
      case (fail e)
      then have "ev = [Call (VcfIndex f)]"
        by (auto simp: vcf_index_def invoke_def split: prod.splits option.splits)
      then show ?thesis by (simp add: ie)
    next
      case (ok x fs1 ev1 ev2)
      then have "ev1 = [Call (VcfIndex f)]"
        by (auto simp: vcf_index_def invoke_def split: prod.splits option.splits)
      with ok Cons.IH[OF ok(2)] show ?thesis by (simp add: ie)
    qed
  next
    case False
    with Cons.prems t have "index_loop env res acc fs = (r, fs', ev)" by simp
    from Cons.IH[OF this] False t show ?thesis
      by (simp add: retained_def index_events_def)
  qed
qed

subsection \<open>The stages, run\<close>

lemma invoke_run:
  "invoke env c fs =
     (case tool env c fs of
        (None, fs1) \<Rightarrow> (Inr (), fs1, [Call c])
      | (Some m, fs1) \<Rightarrow> (Inl (StageError m), fs1, [Call c]))"
  by (simp add: invoke_def)

lemma phasing_stage_run:
  "phasing_stage env a c vc tg fs =
     (case tool env (phasing_call a c vc tg) fs of
        (None, fs1) \<Rightarrow>
          (Inr (out_prefix_list_of (phasing_dir_of (c_out_dir c)) (c_label c) vc), fs1,
           [Info (str_nat (length vc) @ '' chromosome VCFs are outputted with variants.''),
            Info ''reference phasing ...'', Call (phasing_call a c vc tg),
            Info (''phased VCFs are in dir '' @ quoted (phasing_dir_of (c_out_dir c)) @ ''.'')])
      | (Some m, fs1) \<Rightarrow>
          (Inl (StageError m), fs1,
           [Info (str_nat (length vc) @ '' chromosome VCFs are outputted with variants.''),
            Info ''reference phasing ...'', Call (phasing_call a c vc tg)]))"
  by (simp add: phasing_stage_def phasing_call_def Let_def thn_def bnd_def info_def emit_def
        invoke_def ret_def split: prod.splits option.splits)

lemma merge_stage_missing:
  assumes "\<not> set (phased_vcf_list_of opl) \<subseteq> fs"
  shows "\<exists>fn\<in>set (phased_vcf_list_of opl). fn \<notin> fs \<and>
           merge_stage env c opl fs = (Inl (AssertE (Some fn)), fs, [Info ''merge phased VCFs ...''])"
proof -
  from assert_all_fail[OF assms] obtain fn where
    fn: "fn \<in> set (phased_vcf_list_of opl)" "fn \<notin> fs"
        "assert_all (phased_vcf_list_of opl) fs = (Inl (AssertE (Some fn)), fs, [])" by blast
  then have "merge_stage env c opl fs = (Inl (AssertE (Some fn)), fs, [Info ''merge phased VCFs ...''])"
    by (simp add: merge_stage_def Let_def thn_def bnd_def info_def emit_def)
  with fn show ?thesis by blast
qed

lemma merge_stage_present:
  assumes "set (phased_vcf_list_of opl) \<subseteq> fs"
  shows "merge_stage env c opl fs =
     (case tool env (merge_call c opl) fs of
        (None, fs1) \<Rightarrow>
          (Inr (), fs1,
           [Info ''merge phased VCFs ...'', Call (merge_call c opl),
            Info (''merged VCF is '' @ quoted (phased_vcf_fn_of (c_out_dir c) (c_label c)) @ ''.'')])
      | (Some m, fs1) \<Rightarrow>
          (Inl (StageError m), fs1, [Info ''merge phased VCFs ...'', Call (merge_call c opl)]))"
  using assert_all_ok[OF assms]
  by (simp add: merge_stage_def merge_call_def Let_def thn_def bnd_def info_def emit_def
        invoke_def vcf_merge_def split: prod.splits option.splits)

subsection \<open>check args\<close>

lemma late_checks_pass:
  "later_checks_pass a fs \<Longrightarrow>
   late_checks a l snp od fs =
     (Inr \<lparr>c_label = l, c_snp_vcf_fn = snp, c_out_dir = od, c_gmap_fn = the (gmap_fn a),
               c_eagle_fn = the (eagle_fn a), c_panel_dir = the (panel_dir a)\<rparr>, fs,
      [Info (''run in '' @ quoted (mode a) @ '' mode (genome version ''
                 @ quoted (genome_of (the (gmap_fn a))) @ '')'')])"
  unfolding later_checks_pass_def late_checks_def
  by (auto simp: bnd_def thn_def assert_e_def ret_def info_def emit_def panel_loop_ok split: option.splits)

lemma late_checks_fail:
  assumes "\<not> later_checks_pass a fs"
  shows "\<exists>e. late_checks a l snp od fs = (Inl e, fs, [])"
proof (cases "\<exists>gm eg pd. gmap_fn a = Some gm \<and> eagle_fn a = Some eg \<and> panel_dir a = Some pd
                 \<and> gm \<in> fs \<and> eg \<in> fs \<and> pd \<in> fs")
  case True
  then obtain gm eg pd where h: "gmap_fn a = Some gm" "eagle_fn a = Some eg" "panel_dir a = Some pd"
     "gm \<in> fs" "eg \<in> fs" "pd \<in> fs" by blast
  with assms have "\<not> (\<forall>n\<in>set [1..<23]. panel_bcf pd n \<in> fs \<and> panel_csi pd n \<in> fs)"
    by (simp add: later_checks_pass_def)
  from panel_loop_fail[OF this] obtain e where "panel_loop pd [1..<23] fs = (Inl e, fs, [])" ..
  with h show ?thesis
    by (simp add: late_checks_def bnd_def thn_def assert_e_def)
next
  case False
  then show ?thesis
    by (auto simp: late_checks_def bnd_def thn_def assert_e_def raise_def split: option.splits)
qed

lemma check_args_early_fail:
  assumes "label a = None \<or> snp_vcf_fn a = None \<or> (\<exists>s. snp_vcf_fn a = Some s \<and> s \<notin> fs)"
  shows "\<exists>e. check_args env a fs = (Inl e, fs, [Info ''check args ...''])"
  using assms
  by (auto simp: check_args_def thn_def bnd_def info_def emit_def assert_n_def assert_e_def
                 raise_def ret_def split: option.splits)

lemma check_args_no_out_dir:
  assumes "out_dir a = None"
  shows "\<exists>e. check_args env a fs = (Inl e, fs, [Info ''check args ...''])"
  using assms
  by (auto simp: check_args_def thn_def bnd_def info_def emit_def assert_n_def assert_e_def
                 raise_def ret_def split: option.splits)

lemma check_args_late:
  assumes "label a = Some l" "snp_vcf_fn a = Some s" "s \<in> fs" "out_dir a = Some od"
  shows "check_args env a fs =
     (if od \<in> fs then
        (case late_checks a l s od fs of (r, fs2, ev2) \<Rightarrow> (r, fs2, Info ''check args ...'' # ev2))
      else if mkdir_ok env od fs then
        (case late_checks a l s od (after_mkdir env od fs) of (r, fs2, ev2) \<Rightarrow>
           (r, fs2, Info ''check args ...'' # Mkdir od # ev2))
      else (Inl (OSError od), fs, [Info ''check args ...'']))"
  using assms
  by (simp add: check_args_def thn_def bnd_def info_def emit_def assert_n_def assert_e_def
                 raise_def ret_def ensure_dir_def os_path_exists_def os_mkdir_def split: prod.splits)

text \<open>What a passed "check args" has established, and what it has done.\<close>

lemma check_args_Inr:
  assumes "check_args env a fs = (Inr c, fs', ev)"
  shows "label a = Some (c_label c) \<and> snp_vcf_fn a = Some (c_snp_vcf_fn c) \<and> c_snp_vcf_fn c \<in> fs
       \<and> out_dir a = Some (c_out_dir c) \<and> gmap_fn a = Some (c_gmap_fn c)
       \<and> eagle_fn a = Some (c_eagle_fn c) \<and> panel_dir a = Some (c_panel_dir c)
       \<and> fs' = ensured env (c_out_dir c) fs \<and> later_checks_pass a fs'
       \<and> (c_out_dir c \<notin> fs \<longrightarrow> mkdir_ok env (c_out_dir c) fs)"
proof -
  from assms check_args_early_fail[of a fs env] obtain l s where
    ls: "label a = Some l" "snp_vcf_fn a = Some s" "s \<in> fs"
    by (cases "label a"; cases "snp_vcf_fn a") auto
  from assms check_args_no_out_dir[of a env fs] obtain od where od: "out_dir a = Some od"
    by (cases "out_dir a") auto
  define fs1 where "fs1 = ensured env od fs"
  have ok: "od \<in> fs \<or> mkdir_ok env od fs"
    using assms check_args_late[OF ls od, of env] by (auto split: if_splits)
  then have "\<exists>evx. (case late_checks a l s od fs1 of (r, fs2, ev2) \<Rightarrow> (r, fs2, evx @ ev2)) = (Inr c, fs', ev)"
    using assms check_args_late[OF ls od, of env]
    by (auto simp: fs1_def ensured_def split: if_splits intro: exI[of _ "[Info ''check args ...'']"]
         exI[of _ "[Info ''check args ...'', Mkdir od]"])
  then obtain evx where l: "(case late_checks a l s od fs1 of (r, fs2, ev2) \<Rightarrow> (r, fs2, evx @ ev2)) = (Inr c, fs', ev)" ..
  have p: "later_checks_pass a fs1"
    using l late_checks_fail[of a fs1 l s od] by (cases "later_checks_pass a fs1") auto
  from l late_checks_pass[OF p, of l s od] have
    "c = \<lparr>c_label = l, c_snp_vcf_fn = s, c_out_dir = od, c_gmap_fn = the (gmap_fn a),
               c_eagle_fn = the (eagle_fn a), c_panel_dir = the (panel_dir a)\<rparr>" "fs' = fs1"
    by auto
  moreover from p have "gmap_fn a \<noteq> None" "eagle_fn a \<noteq> None" "panel_dir a \<noteq> None"
    by (auto simp: later_checks_pass_def split: option.splits)
  ultimately show ?thesis using ls od p ok by (auto simp: fs1_def)
qed

text \<open>"check args" produces log lines and at most the output directory.\<close>

lemma check_args_sat:
  "sat (\<lambda>e. is_info e \<or> (\<exists>od. out_dir a = Some od \<and> e = Mkdir od)) (\<lambda>e. \<not> is_exit e) (check_args env a)"
  unfolding check_args_def late_checks_def
  by (intro sat_thn sat_bnd sat_info sat_assert_n sat_assert_e sat_panel_loop sat_ret)
     (auto simp: is_info_def is_exit_def intro!: sat_raise sat_thn sat_ensure_dir sat_ret split: option.splits)

lemma run_check_Inl:
  "check_args env a fs = (Inl e, fs1, ev1) \<Longrightarrow>
   run_baf_preprocess env a fs = (Inl e, fs1, Info ''xcltk BAF preprocessing starts ...'' # ev1)"
  by (simp add: run_baf_preprocess_def thn_info bnd_Inl)

lemma run_check_Inr:
  "check_args env a fs = (Inr c, fs1, ev1) \<Longrightarrow>
   run_baf_preprocess env a fs =
     (case run_from_check env a c fs1 of (r, fs2, ev2) \<Rightarrow>
        (r, fs2, Info ''xcltk BAF preprocessing starts ...'' # ev1 @ ev2))"
  by (simp add: run_baf_preprocess_def thn_info bnd_def split: prod.splits)

lemma os_path_join_neq: "b \<noteq> [] \<Longrightarrow> \<not> prefix ''/'' b \<Longrightarrow> os_path_join a b \<noteq> a"
  by (simp add: os_path_join_def)

lemma calls_of_Nil: "(\<And>c. Call c \<notin> set ev) \<Longrightarrow> calls_of ev = []"
  by (induction ev) (auto split: event.splits)

lemma check_args_files:
  assumes "check_args env a fs = (r, fs', ev)"
  shows "fs' = fs \<or> (\<exists>od. out_dir a = Some od \<and> od \<notin> fs \<and> fs' = after_mkdir env od fs)"
proof (cases "label a = None \<or> snp_vcf_fn a = None \<or> (\<exists>s. snp_vcf_fn a = Some s \<and> s \<notin> fs) \<or> out_dir a = None")
  case True
  with assms check_args_early_fail[of a fs env] check_args_no_out_dir[of a env fs] show ?thesis by auto
next
  case False
  then obtain l s od where h: "label a = Some l" "snp_vcf_fn a = Some s" "s \<in> fs" "out_dir a = Some od"
    by auto
  have lc: "\<And>fs1 r2 fs2 ev2. late_checks a l s od fs1 = (r2, fs2, ev2) \<Longrightarrow> fs2 = fs1"
    using late_checks_pass[of a _ l s od] late_checks_fail[of a _ l s od]
    by (metis fst_conv snd_conv)
  show ?thesis
  proof (cases "od \<in> fs")
    case True
    obtain r2 fs2 ev2 where l: "late_checks a l s od fs = (r2, fs2, ev2)"
      by (cases "late_checks a l s od fs") auto
    with assms check_args_late[OF h, of env] True lc[OF l] show ?thesis by simp
  next
    case False
    obtain r2 fs2 ev2 where l: "late_checks a l s od (after_mkdir env od fs) = (r2, fs2, ev2)"
      by (cases "late_checks a l s od (after_mkdir env od fs)") auto
    with assms check_args_late[OF h, of env] False lc[OF l] h(4) show ?thesis
      by (cases "mkdir_ok env od fs") simp_all
  qed
qed

subsection \<open>The stages after "check args"\<close>

lemma ensure_dir_run:
  "ensure_dir env d fs =
     (if d \<in> fs then (Inr (), fs, [])
      else if mkdir_ok env d fs then (Inr (), after_mkdir env d fs, [Mkdir d])
      else (Inl (OSError d), fs, []))"
  by (simp add: ensure_dir_def bnd_def os_path_exists_def os_mkdir_def ret_def)

lemma pileup_stage_unfold:
  "pileup_stage env a c =
     thn (info ''start pileup ...'')
    (thn (ensure_dir env (pileup_dir_of (c_out_dir c)))
    (thn (invoke env (pileup_call a c))
    (thn (assert_e (Some (pileup_vcf_fn_of (c_out_dir c))))
    (thn (info (''pileup VCF is '' @ quoted (pileup_vcf_fn_of (c_out_dir c)) @ ''.''))
         (ret (pileup_vcf_fn_of (c_out_dir c)))))))"
  by (simp add: pileup_stage_def Let_def pileup_call_def pileup_dir_of_def pileup_vcf_fn_of_def)

lemma genotype_stage_unfold:
  "genotype_stage env c (pileup_vcf_fn_of (c_out_dir c)) =
     thn (info ''prepare VCF files for phasing ...'')
    (thn (ensure_dir env (phasing_dir_of (c_out_dir c)))
    (thn (info ''add genotypes ...'')
    (thn (invoke env (genotype_call c))
         (ret (genotype_vcf_fn_of (c_out_dir c) (c_label c))))))"
  by (simp add: genotype_stage_def Let_def genotype_call_def)

lemma split_stage_unfold:
  "split_stage env c (genotype_vcf_fn_of (c_out_dir c) (c_label c)) =
     thn (info ''split VCF by chromosomes ...'')
         (vcf_split_chrom env (genotype_vcf_fn_of (c_out_dir c) (c_label c))
            (phasing_dir_of (c_out_dir c)) (c_label c) chrom_list)"
  by (simp add: split_stage_def)

text \<open>Bounds on the stages: which events they produce and which exceptions they raise.\<close>

lemma sat_merge_stage:
  assumes "\<And>s. P (Info s)" "P (Call (merge_call c opl))" "\<And>p. E (AssertE p)" "\<And>m. E (StageError m)"
  shows "sat P E (merge_stage env c opl)"
  unfolding merge_stage_def Let_def vcf_merge_def
  using assms
  by (intro sat_thn sat_info sat_assert_all sat_invoke) (simp_all add: merge_call_def)

lemma sat_phasing_stage:
  assumes "\<And>s. P (Info s)" "P (Call (phasing_call a c vc tg))" "\<And>m. E (StageError m)"
  shows "sat P E (phasing_stage env a c vc tg)"
  unfolding phasing_stage_def Let_def
  using assms
  by (intro sat_thn sat_info sat_invoke sat_ret) (simp_all add: phasing_call_def)

lemma sat_run_from_split:
  assumes "\<And>s. P (Info s)" "\<And>f. P (Call (VcfIndex f))"
    "\<And>vc tg. P (Call (phasing_call a c vc tg))" "\<And>opl. P (Call (merge_call c opl))"
    "\<And>p. E (AssertE p)" "\<And>m. E (StageError m)"
  shows "sat P E (run_from_split env a c res)"
  unfolding run_from_split_def
  using assms
  by (intro sat_bnd sat_index_loop) (auto intro!: sat_bnd sat_phasing_stage sat_merge_stage)

lemma sat_pileup_stage:
  assumes "\<And>s. P (Info s)" "\<And>d. P (Mkdir d)" "P (Call (pileup_call a c))"
    "\<And>p. E (AssertE p)" "\<And>m. E (StageError m)" "\<And>d. E (OSError d)"
  shows "sat P E (pileup_stage env a c)"
  unfolding pileup_stage_unfold using assms
  by (intro sat_thn sat_info sat_ensure_dir sat_invoke sat_assert_e sat_ret) simp_all

lemma sat_genotype_stage:
  assumes "\<And>s. P (Info s)" "\<And>d. P (Mkdir d)"
    "\<And>pv g l. P (Call (VcfAddGenotype pv g l True True True))"
    "\<And>m. E (StageError m)" "\<And>d. E (OSError d)"
  shows "sat P E (genotype_stage env c pv)"
  unfolding genotype_stage_def Let_def using assms
  by (intro sat_thn sat_info sat_ensure_dir sat_invoke sat_ret) simp_all

lemma sat_split_stage:
  assumes "\<And>s. P (Info s)" "\<And>g d l cl. P (Call (VcfSplitChrom g d l cl))" "\<And>m. E (StageError m)"
  shows "sat P E (split_stage env c g)"
  unfolding split_stage_def using assms
  by (intro sat_thn sat_info sat_vcf_split_chrom) simp_all

lemma sat_run_from_check:
  assumes "\<And>s. P (Info s)" "\<And>d. P (Mkdir d)" "P (Call (pileup_call a c))"
    "\<And>pv g l. P (Call (VcfAddGenotype pv g l True True True))"
    "\<And>g d l cl. P (Call (VcfSplitChrom g d l cl))"
    "\<And>f. P (Call (VcfIndex f))"
    "\<And>vc tg. P (Call (phasing_call a c vc tg))" "\<And>opl. P (Call (merge_call c opl))"
    "\<And>p. E (AssertE p)" "\<And>m. E (StageError m)" "\<And>d. E (OSError d)"
  shows "sat P E (run_from_check env a c)"
  unfolding run_from_check_def using assms
  by (intro sat_bnd sat_pileup_stage sat_genotype_stage sat_split_stage sat_run_from_split) simp_all

text \<open>The only call of \<^verbatim>\<open>pileup\<close> is the one of lines 162 to 173.\<close>

lemma run_from_check_one_pileup:
  "sat (\<lambda>e. is_pileup e \<longrightarrow> e = Call (pileup_call a c)) (\<lambda>e. True) (run_from_check env a c)"
  by (rule sat_run_from_check) (simp_all add: is_pileup_def phasing_call_def merge_call_def)

text \<open>\<^verbatim>\<open>run_baf_preprocess\<close> never raises SystemExit.\<close>

lemma run_baf_preprocess_no_exit:
  "sat (\<lambda>e. True) (\<lambda>e. \<not> is_exit e) (run_baf_preprocess env a)"
proof -
  have "sat (\<lambda>e. True) (\<lambda>e. \<not> is_exit e) (check_args env a)"
    unfolding sat_def
  proof (intro allI)
    fix fs
    obtain r fs1 ev where run: "check_args env a fs = (r, fs1, ev)" by (metis prod_cases3)
    from satD[OF check_args_sat run] run
    show "case check_args env a fs of (r, fs1, ev) \<Rightarrow>
            list_all (\<lambda>e. True) ev \<and> (case r of Inl e \<Rightarrow> \<not> is_exit e | Inr _ \<Rightarrow> True)"
      by (auto simp: list_all_iff split: sum.splits)
  qed
  then show ?thesis
    unfolding run_baf_preprocess_def
    by (intro sat_thn sat_bnd sat_info sat_run_from_check) (simp_all add: is_exit_def)
qed

lemma run_from_check_pileup:
  assumes "run_from_check env a c fs1 = (r, fs', ev)"
  shows "if pileup_dir_of (c_out_dir c) \<in> fs1 \<or> mkdir_ok env (pileup_dir_of (c_out_dir c)) fs1
         then Call (pileup_call a c) \<in> set ev
         else ev = [Info ''start pileup ...''] \<and> r = Inl (OSError (pileup_dir_of (c_out_dir c))) \<and> fs' = fs1"
proof -
  define K where "K = thn (assert_e (Some (pileup_vcf_fn_of (c_out_dir c))))
    (thn (info (''pileup VCF is '' @ quoted (pileup_vcf_fn_of (c_out_dir c)) @ ''.''))
         (ret (pileup_vcf_fn_of (c_out_dir c))))"
  define K2 where "K2 = (\<lambda>pileup_vcf_fn.
     bnd (genotype_stage env c pileup_vcf_fn) (\<lambda>genotype_vcf_fn.
     bnd (split_stage env c genotype_vcf_fn) (\<lambda>res.
     run_from_split env a c res)))"
  have "run_from_check env a c =
     bnd (thn (info ''start pileup ...'')
         (thn (ensure_dir env (pileup_dir_of (c_out_dir c)))
         (thn (invoke env (pileup_call a c)) K))) K2"
    by (simp add: run_from_check_def pileup_stage_unfold K_def K2_def)
  with assms show ?thesis
    by (auto simp: bnd_def thn_def info_def emit_def ensure_dir_run invoke_def
             split: prod.splits sum.splits option.splits if_splits)
qed

text \<open>"check args" reads neither the alignment arguments nor the barcode list.\<close>

lemma check_args_ignores_sam:
  "check_args env (a\<lparr>sam_fn := s, sam_list_fn := sl, barcode_fn := b\<rparr>) = check_args env a"
  by (simp add: check_args_def late_checks_def)

lemma run_events_Inr:
  assumes "check_args env a fs = (Inr c, fs1, ev1)"
  shows "snd (snd (run_baf_preprocess env a fs)) =
           Info ''xcltk BAF preprocessing starts ...'' # ev1 @ snd (snd (run_from_check env a c fs1))"
  using run_check_Inr[OF assms] by (simp split: prod.splits)

lemma later_checks_pass_mono: "later_checks_pass a fs \<Longrightarrow> fs \<subseteq> fs' \<Longrightarrow> later_checks_pass a fs'"
  by (auto simp: later_checks_pass_def split: option.splits)

lemma check_args_pass:
  assumes "label a = Some l" "snp_vcf_fn a = Some s" "s \<in> fs" "out_dir a = Some od"
    and "od \<in> fs \<or> mkdir_ok env od fs" and "later_checks_pass a (ensured env od fs)"
  shows "check_args env a fs =
     (Inr \<lparr>c_label = l, c_snp_vcf_fn = s, c_out_dir = od, c_gmap_fn = the (gmap_fn a),
           c_eagle_fn = the (eagle_fn a), c_panel_dir = the (panel_dir a)\<rparr>,
      ensured env od fs,
      Info ''check args ...'' # (if od \<in> fs then [] else [Mkdir od]) @
      [Info (''run in '' @ quoted (mode a) @ '' mode (genome version ''
                 @ quoted (genome_of (the (gmap_fn a))) @ '')'')])"
proof (cases "od \<in> fs")
  case True
  then have "ensured env od fs = fs" by (simp add: ensured_def)
  with assms True check_args_late[OF assms(1-4), of env] late_checks_pass[of a fs l s od]
  show ?thesis by simp
next
  case False
  then have "ensured env od fs = after_mkdir env od fs" by (simp add: ensured_def)
  with False assms check_args_late[OF assms(1-4), of env]
    late_checks_pass[of a "after_mkdir env od fs" l s od]
  show ?thesis by simp
qed

lemma ex_after_mkdir: "after_mkdir ex_env p fs = insert p fs"
  by (simp add: after_mkdir_def ex_env_def)

lemma ex_ensured: "ensured ex_env p fs = insert p fs"
  by (auto simp: ensured_def ex_after_mkdir)

lemma ex_later_checks: "later_checks_pass ex_args ex_fs"
  by (simp add: later_checks_pass_def ex_args_def ex_fs_def)

lemma ex_check_args:
  assumes "label a = Some ''s1''" "snp_vcf_fn a = Some ''snp.vcf.gz''" "out_dir a = Some od"
    "gmap_fn a = gmap_fn ex_args" "eagle_fn a = eagle_fn ex_args" "panel_dir a = panel_dir ex_args"
    "fs \<union> {od} = ex_fs \<union> {od}" "''snp.vcf.gz'' \<in> fs"
  shows "\<exists>ev1. check_args ex_env a fs = (Inr (ex_checked\<lparr>c_out_dir := od\<rparr>), insert od ex_fs, ev1)"
proof -
  have "later_checks_pass a ex_fs"
    using ex_later_checks assms(4-6) by (simp add: later_checks_pass_def)
  then have "later_checks_pass a (insert od fs)"
    using assms(7) by (auto intro: later_checks_pass_mono)
  moreover have "insert od fs = insert od ex_fs" using assms(7) by auto
  moreover have "od \<in> fs \<or> mkdir_ok ex_env od fs" by (simp add: ex_env_def)
  ultimately show ?thesis
    using check_args_pass[OF assms(1,2,8,3), of ex_env, unfolded ex_ensured] assms(4-6)
    by (simp add: ex_checked_def ex_args_def)
qed

lemma ex_reaches_pileup:
  assumes "check_args ex_env a fs = (Inr c, fs1, ev1)"
  shows "Call (pileup_call a c) \<in> set (snd (snd (run_baf_preprocess ex_env a fs)))"
proof -
  obtain r fs' ev where run: "run_from_check ex_env a c fs1 = (r, fs', ev)" by (metis prod_cases3)
  from run_from_check_pileup[OF run] have "Call (pileup_call a c) \<in> set ev"
    by (simp add: ex_env_def)
  with run_events_Inr[OF assms] run show ?thesis by simp
qed

lemma ex_pileup_call:
  assumes "label a = Some ''s1''" "snp_vcf_fn a = Some ''snp.vcf.gz''" "out_dir a = Some ''out''"
    "gmap_fn a = gmap_fn ex_args" "eagle_fn a = eagle_fn ex_args" "panel_dir a = panel_dir ex_args"
  shows "Call (pileup_call a ex_checked) \<in> set (snd (snd (run_baf_preprocess ex_env a ex_fs)))"
proof -
  have "\<exists>ev1. check_args ex_env a ex_fs = (Inr (ex_checked\<lparr>c_out_dir := ''out''\<rparr>), insert ''out'' ex_fs, ev1)"
    using assms by (intro ex_check_args) (simp_all add: ex_fs_def)
  then obtain ev1 where "check_args ex_env a ex_fs = (Inr ex_checked, insert ''out'' ex_fs, ev1)"
    by (auto simp: ex_checked_def)
  from ex_reaches_pileup[OF this] show ?thesis .
qed

subsection \<open>Chromosome names and paths\<close>

lemma chrom_list_eq:
  "chrom_list =
     [''chr1'', ''chr2'', ''chr3'', ''chr4'', ''chr5'', ''chr6'', ''chr7'', ''chr8'', ''chr9'',
      ''chr10'', ''chr11'', ''chr12'', ''chr13'', ''chr14'', ''chr15'', ''chr16'', ''chr17'',
      ''chr18'', ''chr19'', ''chr20'', ''chr21'', ''chr22'']"
  by code_simp

lemma distinct_chrom_list: "distinct chrom_list"
  unfolding chrom_list_eq by simp

lemma chrom_list_chr: "ch \<in> set chrom_list \<Longrightarrow> \<exists>d. ch = ''chr'' @ d"
  by (auto simp: chrom_list_def)

lemma chrom_list_no_underscore: "ch \<in> set chrom_list \<Longrightarrow> CHR ''_'' \<notin> set ch"
  unfolding chrom_list_eq by auto

lemma out_prefix_inj:
  "os_path_join d (l @ ''_'' @ ch @ s) = os_path_join d (l @ ''_'' @ ch' @ s) \<longleftrightarrow> ch = ch'"
  by (cases l) (auto simp: os_path_join_def)

lemma retained_subset: "t \<in> set (retained res) \<longleftrightarrow> t \<in> set res \<and> fst (snd t) > 0"
  by (simp add: retained_def)

lemma ex_retained:
  "retained ex_res = [(''chr1'', 3, ''out/phasing/s1_chr1.vcf.gz''),
                      (''chr5'', 3, ''out/phasing/s1_chr5.vcf.gz'')]"
  by (simp add: ex_res_def chrom_list_eq retained_def os_path_join_def suffix_to_prefix)

lemma ex_res_chroms: "map fst ex_res = chrom_list"
  by (simp add: ex_res_def comp_def)

lemma ex_res_chr2: "(''chr2'', 0, ''out/phasing/s1_chr2.vcf.gz'') \<in> set ex_res"
  by (simp add: ex_res_def chrom_list_eq os_path_join_def suffix_to_prefix)

lemma ex_res_chr5: "(''chr5'', 3, ''out/phasing/s1_chr5.vcf.gz'') \<in> set ex_res"
  using ex_retained retained_subset[of "(''chr5'', 3, ''out/phasing/s1_chr5.vcf.gz'')" ex_res]
  by simp

subsection \<open>The trace from the split on\<close>

lemma split_unique:
  "xs @ x # ys = pre @ y # post \<Longrightarrow> \<forall>e\<in>set xs. \<not> P e \<Longrightarrow> \<forall>e\<in>set ys. \<not> P e \<Longrightarrow> P y \<Longrightarrow>
     pre = xs \<and> y = x \<and> post = ys"
proof (induction xs arbitrary: pre)
  case Nil
  then show ?case by (cases pre) auto
next
  case (Cons a xs)
  then show ?case by (cases pre) auto
qed

lemma index_events_not_phasing: "\<forall>e\<in>set (index_events res). \<not> is_phasing e"
  by (auto simp: index_events_def is_phasing_def)

text \<open>
  A run from the split on either never calls \<^verbatim>\<open>ref_phasing\<close>, or its trace is the
  \<^verbatim>\<open>vcf_index\<close> calls for all retained files, two log lines, the one call of
  \<^verbatim>\<open>ref_phasing\<close>, and a rest without such a call.
\<close>

lemma run_from_split_events:
  assumes "run_from_split env a c res fs = (r, fs', ev)"
  shows "(\<forall>e\<in>set ev. \<not> is_phasing e)
       \<or> (\<exists>rest. ev = (index_events res @
              [Info (str_nat (length (retained res)) @ '' chromosome VCFs are outputted with variants.''),
               Info ''reference phasing ...'']) @
              Call (phasing_call a c (map fst (retained res)) (map (\<lambda>t. snd (snd t)) (retained res))) # rest
            \<and> (\<forall>e\<in>set rest. \<not> is_phasing e))"
proof -
  let ?vc = "map fst (retained res)" and ?tg = "map (\<lambda>t. snd (snd t)) (retained res)"
  from assms have "bnd (index_loop env res ([], [])) (\<lambda>(valid_chroms, target_vcf_list).
     bnd (phasing_stage env a c valid_chroms target_vcf_list) (\<lambda>out_prefix_list.
     merge_stage env c out_prefix_list)) fs = (r, fs', ev)"
    by (simp add: run_from_split_def)
  then show ?thesis
  proof (cases rule: bnd_cases)
    case (fail e)
    from index_loop_events[OF fail(1)] have "set ev \<subseteq> set (index_events res)"
      by (rule set_mono_prefix)
    with index_events_not_phasing show ?thesis by blast
  next
    case (ok x fs1 ev1 ev2)
    from index_loop_Inr[OF ok(1)] have x: "x = (?vc, ?tg)" and ev1: "ev1 = index_events res"
      by simp_all
    from ok(2) have "bnd (phasing_stage env a c ?vc ?tg) (\<lambda>out_prefix_list.
        merge_stage env c out_prefix_list) fs1 = (r, fs', ev2)"
      unfolding x by simp
    then have "\<exists>rest. ev2 =
              [Info (str_nat (length (retained res)) @ '' chromosome VCFs are outputted with variants.''),
               Info ''reference phasing ...'',
               Call (phasing_call a c ?vc ?tg)] @ rest \<and> (\<forall>e\<in>set rest. \<not> is_phasing e)"
    proof (cases rule: bnd_cases)
      case (fail e)
      then show ?thesis
        by (auto simp: phasing_stage_run split: prod.splits option.splits)
    next
      case (ok opl fs2 ev21 ev22)
      have "sat (\<lambda>e. \<not> is_phasing e) (\<lambda>e. True) (merge_stage env c opl)"
        by (rule sat_merge_stage) (simp_all add: is_phasing_def merge_call_def)
      from satD[OF this ok(2)] have "\<forall>e\<in>set ev22. \<not> is_phasing e"
        by (simp add: list_all_iff)
      moreover from ok(1) have "ev21 =
              [Info (str_nat (length (retained res)) @ '' chromosome VCFs are outputted with variants.''),
               Info ''reference phasing ...'',
               Call (phasing_call a c ?vc ?tg),
               Info (''phased VCFs are in dir '' @ quoted (phasing_dir_of (c_out_dir c)) @ ''.'')]"
        by (auto simp: phasing_stage_run split: prod.splits option.splits)
      ultimately show ?thesis using ok(3) by (simp add: is_phasing_def)
    qed
    with ok(3) ev1 show ?thesis by auto
  qed
qed

lemma ex_run_from_split_events:
  "snd (snd (run_from_split ex_env ex_args ex_checked ex_res {})) =
     [Call (VcfIndex ''out/phasing/s1_chr1.vcf.gz''), Call (VcfIndex ''out/phasing/s1_chr5.vcf.gz''),
      Info ''2 chromosome VCFs are outputted with variants.'', Info ''reference phasing ...'']
     @ Call (RefPhasing [''out/phasing/s1_chr1.vcf.gz'', ''out/phasing/s1_chr5.vcf.gz'']
               [''panel/chr1.genotypes.bcf'', ''panel/chr5.genotypes.bcf'']
               [''out/phasing/s1_chr1.phased'', ''out/phasing/s1_chr5.phased'']
               ''genetic_map_hg38_withX.txt.gz'' ''eagle'' ''out/phasing'' 1
               ''out/run_phasing.sh'' ''out/phasing.log'')
     # [Info (''phased VCFs are in dir '' @ quoted ''out/phasing'' @ ''.''),
        Info ''merge phased VCFs ...'',
        Call (VcfMerge [''out/phasing/s1_chr1.phased.vcf.gz'', ''out/phasing/s1_chr5.phased.vcf.gz'']
                ''out/s1.phased.vcf.gz'' True),
        Info (''merged VCF is '' @ quoted ''out/s1.phased.vcf.gz'' @ ''.'')]"
  by code_simp

text \<open>
  The ways a run from the split on can end: a \<^verbatim>\<open>vcf_index\<close> raises, \<^verbatim>\<open>ref_phasing\<close>
  raises, a phased file is missing, \<^verbatim>\<open>vcf_merge\<close> raises, or the run returns.
\<close>

lemma index_loop_Inl:
  "index_loop env res acc fs = (Inl e, fs', ev) \<Longrightarrow> \<exists>m. e = StageError m"
  using satD[OF sat_index_loop[of "\<lambda>e. True" "\<lambda>e. \<exists>m. e = StageError m" env res acc], of fs "Inl e" fs' ev]
  by auto

lemma run_from_split_cases:
  assumes "run_from_split env a c res fs = (r, fs', ev)"
  obtains
    (index) m where "r = Inl (StageError m)" "prefix ev (index_events res)"
  | (phasing) m where "r = Inl (StageError m)"
      "ev = index_events res @
          [Info (str_nat (length (retained res)) @ '' chromosome VCFs are outputted with variants.''),
           Info ''reference phasing ...'',
           Call (phasing_call a c (map fst (retained res)) (map (\<lambda>t. snd (snd t)) (retained res)))]"
  | (missing) fn fs1 where
      "fn \<in> set (phased_vcf_list_of
          (out_prefix_list_of (phasing_dir_of (c_out_dir c)) (c_label c) (map fst (retained res))))"
      "fn \<notin> fs'" "r = Inl (AssertE (Some fn))"
      "tool env (phasing_call a c (map fst (retained res)) (map (\<lambda>t. snd (snd t)) (retained res))) fs1
         = (None, fs')"
      "ev = index_events res @
          [Info (str_nat (length (retained res)) @ '' chromosome VCFs are outputted with variants.''),
           Info ''reference phasing ...'',
           Call (phasing_call a c (map fst (retained res)) (map (\<lambda>t. snd (snd t)) (retained res))),
           Info (''phased VCFs are in dir '' @ quoted (phasing_dir_of (c_out_dir c)) @ ''.''),
           Info ''merge phased VCFs ...'']"
  | (merged) mr fs1 fs2 where
      "tool env (phasing_call a c (map fst (retained res)) (map (\<lambda>t. snd (snd t)) (retained res))) fs1
         = (None, fs2)"
      "set (phased_vcf_list_of
          (out_prefix_list_of (phasing_dir_of (c_out_dir c)) (c_label c) (map fst (retained res))))
         \<subseteq> fs2"
      "tool env (merge_call c
          (out_prefix_list_of (phasing_dir_of (c_out_dir c)) (c_label c) (map fst (retained res)))) fs2
         = (mr, fs')"
      "r = (case mr of None \<Rightarrow> Inr () | Some m \<Rightarrow> Inl (StageError m))"
      "ev = index_events res @
          [Info (str_nat (length (retained res)) @ '' chromosome VCFs are outputted with variants.''),
           Info ''reference phasing ...'',
           Call (phasing_call a c (map fst (retained res)) (map (\<lambda>t. snd (snd t)) (retained res))),
           Info (''phased VCFs are in dir '' @ quoted (phasing_dir_of (c_out_dir c)) @ ''.''),
           Info ''merge phased VCFs ...'',
           Call (merge_call c
             (out_prefix_list_of (phasing_dir_of (c_out_dir c)) (c_label c) (map fst (retained res))))]
          @ (case mr of
               None \<Rightarrow> [Info (''merged VCF is '' @ quoted (phased_vcf_fn_of (c_out_dir c) (c_label c)) @ ''.'')]
             | Some m \<Rightarrow> [])"
proof -
  let ?vc = "map fst (retained res)" and ?tg = "map (\<lambda>t. snd (snd t)) (retained res)"
  let ?opl = "out_prefix_list_of (phasing_dir_of (c_out_dir c)) (c_label c) ?vc"
  from assms have "bnd (index_loop env res ([], [])) (\<lambda>(valid_chroms, target_vcf_list).
     bnd (phasing_stage env a c valid_chroms target_vcf_list) (\<lambda>out_prefix_list.
     merge_stage env c out_prefix_list)) fs = (r, fs', ev)"
    by (simp add: run_from_split_def)
  then show ?thesis
  proof (cases rule: bnd_cases)
    case (fail e)
    from index_loop_Inl[OF fail(1)[unfolded fail(2)[symmetric]]] fail index_loop_events[OF fail(1)]
    show ?thesis by (auto intro: index)
  next
    case (ok x fs1 ev1 ev2)
    from index_loop_Inr[OF ok(1)] have x: "x = (?vc, ?tg)" and ev1: "ev1 = index_events res"
      by simp_all
    from ok(2) have "bnd (phasing_stage env a c ?vc ?tg) (\<lambda>out_prefix_list.
        merge_stage env c out_prefix_list) fs1 = (r, fs', ev2)"
      unfolding x by simp
    then show ?thesis
    proof (cases rule: bnd_cases)
      case (fail e)
      then obtain m where "e = StageError m"
        "ev2 = [Info (str_nat (length ?vc) @ '' chromosome VCFs are outputted with variants.''),
            Info ''reference phasing ...'', Call (phasing_call a c ?vc ?tg)]"
        by (auto simp: phasing_stage_run split: prod.splits option.splits)
      with fail ok(3) ev1 show ?thesis by (auto intro: phasing)
    next
      case ok2: (ok opl fs2 ev21 ev22)
      from ok2(1) have opl: "opl = ?opl" and t: "tool env (phasing_call a c ?vc ?tg) fs1 = (None, fs2)"
        and ev21: "ev21 =
           [Info (str_nat (length ?vc) @ '' chromosome VCFs are outputted with variants.''),
            Info ''reference phasing ...'', Call (phasing_call a c ?vc ?tg),
            Info (''phased VCFs are in dir '' @ quoted (phasing_dir_of (c_out_dir c)) @ ''.'')]"
        by (auto simp: phasing_stage_run split: prod.splits option.splits)
      show ?thesis
      proof (cases "set (phased_vcf_list_of ?opl) \<subseteq> fs2")
        case True
        obtain mr fs3 where tm: "tool env (merge_call c ?opl) fs2 = (mr, fs3)"
          by (cases "tool env (merge_call c ?opl) fs2") auto
        from merge_stage_present[OF True, of env c] ok2(2) tm opl
        have "fs3 = fs'" "r = (case mr of None \<Rightarrow> Inr () | Some m \<Rightarrow> Inl (StageError m))"
          "ev22 = [Info ''merge phased VCFs ...'', Call (merge_call c ?opl)]
             @ (case mr of
               None \<Rightarrow> [Info (''merged VCF is '' @ quoted (phased_vcf_fn_of (c_out_dir c) (c_label c)) @ ''.'')]
             | Some m \<Rightarrow> [])"
          by (auto split: option.splits)
        with True t tm ok(3) ok2(3) ev1 ev21 show ?thesis
          by (intro merged[of fs1 fs2 mr]) simp_all
      next
        case False
        from merge_stage_missing[OF False, of env c] ok2(2) opl obtain fn where
          "fn \<in> set (phased_vcf_list_of ?opl)" "fn \<notin> fs2" "r = Inl (AssertE (Some fn))" "fs' = fs2"
          "ev22 = [Info ''merge phased VCFs ...'']"
          by auto
        with t ok(3) ok2(3) ev1 ev21 show ?thesis
          by (intro missing[of fn fs1]) simp_all
      qed
    qed
  qed
qed

lemma index_events_calls: "e \<in> set (index_events res) \<Longrightarrow> \<exists>f. e = Call (VcfIndex f)"
  by (auto simp: index_events_def)

text \<open>
  What the trace of a run from the split on holds: its only \<^verbatim>\<open>ref_phasing\<close> call and its
  only \<^verbatim>\<open>vcf_merge\<close> call are those of the lists built from the retained triples.
\<close>

lemma run_from_split_facts:
  assumes "run_from_split env a c res fs = (r, fs', ev)"
  defines "vc \<equiv> map fst (retained res)"
    and "tg \<equiv> map (\<lambda>t. snd (snd t)) (retained res)"
  defines "opl \<equiv> out_prefix_list_of (phasing_dir_of (c_out_dir c)) (c_label c) vc"
  shows "Call (RefPhasing tg' rl ol gm eg d nc scr lg) \<in> set ev \<Longrightarrow>
           RefPhasing tg' rl ol gm eg d nc scr lg = phasing_call a c vc tg"
    and "Call (VcfMerge ins out srt) \<in> set ev \<Longrightarrow>
           VcfMerge ins out srt = merge_call c opl
         \<and> Call (phasing_call a c vc tg) \<in> set ev
         \<and> (\<exists>fs1 fs2. tool env (phasing_call a c vc tg) fs1 = (None, fs2)
               \<and> set (phased_vcf_list_of opl) \<subseteq> fs2)"
    and "r = Inl (AssertE p) \<Longrightarrow> \<exists>fn\<in>set (phased_vcf_list_of opl). p = Some fn"
    and "r = Inr () \<Longrightarrow> Call (phasing_call a c vc tg) \<in> set ev \<and> Call (merge_call c opl) \<in> set ev"
    and "Info (str_nat (length vc) @ '' chromosome VCFs are outputted with variants.'') \<in> set ev
         \<or> (\<forall>e\<in>set ev. \<exists>f. e = Call (VcfIndex f))"
proof -
  have idx: "\<And>e. e \<in> set (index_events res) \<Longrightarrow> \<exists>f. e = Call (VcfIndex f)"
    by (rule index_events_calls)
  show "Call (RefPhasing tg' rl ol gm eg d nc scr lg) \<in> set ev \<Longrightarrow>
           RefPhasing tg' rl ol gm eg d nc scr lg = phasing_call a c vc tg"
    using assms(1)
  proof (cases rule: run_from_split_cases)
    case (index m)
    assume "Call (RefPhasing tg' rl ol gm eg d nc scr lg) \<in> set ev"
    with set_mono_prefix[OF index(2)] idx show ?thesis by blast
  next
    case (merged mr fs1 fs2)
    assume "Call (RefPhasing tg' rl ol gm eg d nc scr lg) \<in> set ev"
    with merged(5) idx show ?thesis
      by (cases mr) (auto simp: vc_def tg_def merge_call_def)
  qed (use idx in \<open>auto simp: vc_def tg_def\<close>)
  show "Call (VcfMerge ins out srt) \<in> set ev \<Longrightarrow>
           VcfMerge ins out srt = merge_call c opl
         \<and> Call (phasing_call a c vc tg) \<in> set ev
         \<and> (\<exists>fs1 fs2. tool env (phasing_call a c vc tg) fs1 = (None, fs2)
               \<and> set (phased_vcf_list_of opl) \<subseteq> fs2)"
    using assms(1)
  proof (cases rule: run_from_split_cases)
    case (index m)
    assume "Call (VcfMerge ins out srt) \<in> set ev"
    with set_mono_prefix[OF index(2)] idx show ?thesis by blast
  next
    case (merged mr fs1 fs2)
    assume "Call (VcfMerge ins out srt) \<in> set ev"
    with merged idx have "VcfMerge ins out srt = merge_call c opl"
      by (cases mr) (auto simp: vc_def tg_def opl_def phasing_call_def)
    moreover from merged(5) have "Call (phasing_call a c vc tg) \<in> set ev"
      by (simp add: vc_def tg_def)
    ultimately show ?thesis using merged(1,2) unfolding vc_def tg_def opl_def by blast
  qed (use idx in \<open>auto simp: vc_def tg_def phasing_call_def\<close>)
  show "r = Inl (AssertE p) \<Longrightarrow> \<exists>fn\<in>set (phased_vcf_list_of opl). p = Some fn"
    using assms(1)
    by (cases rule: run_from_split_cases) (auto simp: vc_def opl_def split: option.splits)
  show "r = Inr () \<Longrightarrow> Call (phasing_call a c vc tg) \<in> set ev \<and> Call (merge_call c opl) \<in> set ev"
    using assms(1)
    by (cases rule: run_from_split_cases) (auto simp: vc_def tg_def opl_def split: option.splits)
  show "Info (str_nat (length vc) @ '' chromosome VCFs are outputted with variants.'') \<in> set ev
         \<or> (\<forall>e\<in>set ev. \<exists>f. e = Call (VcfIndex f))"
    using assms(1)
  proof (cases rule: run_from_split_cases)
    case (index m)
    with set_mono_prefix[OF index(2)] idx show ?thesis by blast
  qed (simp_all add: vc_def)
qed

text \<open>The names of the panel files of two chromosomes of chr1..chr22 differ.\<close>

lemma ref_inj:
  assumes "ch \<in> set chrom_list" "ch' \<in> set chrom_list"
  shows "os_path_join pd (ch @ s) = os_path_join pd (ch' @ s) \<longleftrightarrow> ch = ch'"
proof -
  from chrom_list_chr[OF assms(1)] chrom_list_chr[OF assms(2)]
  obtain d d' where "ch = ''chr'' @ d" "ch' = ''chr'' @ d'" by blast
  then show ?thesis by (auto simp: os_path_join_def)
qed

text \<open>The retained triples, position by position.\<close>

lemma retained_nth:
  assumes "i < length (retained res)"
  shows "(fst (retained res ! i), fst (snd (retained res ! i)), snd (snd (retained res ! i))) \<in> set res
       \<and> fst (snd (retained res ! i)) > 0"
proof -
  from assms have "retained res ! i \<in> set (retained res)" by simp
  then show ?thesis by (simp add: retained_subset)
qed

lemma retained_zip:
  assumes "t \<in> set (retained res)"
  shows "(f t, g t, h t) \<in> set (zip (map f (retained res)) (zip (map g (retained res)) (map h (retained res))))"
proof -
  from assms obtain i where i: "i < length (retained res)" "retained res ! i = t"
    by (auto simp: in_set_conv_nth)
  then show ?thesis
    by (auto simp: set_zip intro!: exI[of _ i])
qed

text \<open>A chromosome with a count that is not positive is not among the retained ones.\<close>

lemma dropped_not_retained:
  assumes "distinct (map fst res)" "(chrom, n, f) \<in> set res" "n \<le> 0"
  shows "chrom \<notin> fst ` set (retained res)"
proof
  assume "chrom \<in> fst ` set (retained res)"
  then obtain t where t: "t \<in> set (retained res)" "fst t = chrom" by auto
  then have "(chrom, snd t) \<in> set res" "fst (snd t) > 0"
    by (auto simp: retained_subset)
  with eq_key_imp_eq_value[OF assms(1) _ assms(2), of "snd t"] assms(3) show False by auto
qed

lemma ex_phasing_called:
  "Call (RefPhasing [''out/phasing/s1_chr1.vcf.gz'', ''out/phasing/s1_chr5.vcf.gz'']
               [''panel/chr1.genotypes.bcf'', ''panel/chr5.genotypes.bcf'']
               [''out/phasing/s1_chr1.phased'', ''out/phasing/s1_chr5.phased'']
               ''genetic_map_hg38_withX.txt.gz'' ''eagle'' ''out/phasing'' 1
               ''out/run_phasing.sh'' ''out/phasing.log'')
     \<in> set (snd (snd (run_from_split ex_env ex_args ex_checked ex_res {})))"
  unfolding ex_run_from_split_events by simp

lemma ex_merge_called:
  "Call (VcfMerge [''out/phasing/s1_chr1.phased.vcf.gz'', ''out/phasing/s1_chr5.phased.vcf.gz'']
                ''out/s1.phased.vcf.gz'' True)
     \<in> set (snd (snd (run_from_split ex_env ex_args ex_checked ex_res {})))"
  unfolding ex_run_from_split_events by simp

subsection \<open>Names of the output files\<close>

lemma join_relative: "\<not> prefix ''/'' b \<Longrightarrow> os_path_join d b = d @ sep_after d @ b"
  by (simp add: os_path_join_def sep_after_def)

lemma no_slash_not_abs: "CHR ''/'' \<notin> set l \<Longrightarrow> x \<noteq> [] \<Longrightarrow> hd x \<noteq> CHR ''/'' \<Longrightarrow> \<not> prefix ''/'' (l @ x)"
  by (cases l; cases x) auto

lemma genotype_name:
  "CHR ''/'' \<notin> set l \<Longrightarrow> genotype_vcf_fn_of od l = od @ sep_after od @ l @ ''.genotype.vcf.gz''"
  by (simp add: genotype_vcf_fn_of_def join_relative no_slash_not_abs)

lemma phased_name:
  "CHR ''/'' \<notin> set l \<Longrightarrow> phased_vcf_fn_of od l = od @ sep_after od @ l @ ''.phased.vcf.gz''"
  by (simp add: phased_vcf_fn_of_def join_relative no_slash_not_abs)

lemma phasing_dir_name: "phasing_dir_of od = od @ sep_after od @ ''phasing''"
  by (simp add: phasing_dir_of_def join_relative)

lemma sep_after_phasing_dir: "sep_after (phasing_dir_of od) = ''/''"
  by (simp add: sep_after_def phasing_dir_name suffix_def)

lemma chrom_phased_name:
  "CHR ''/'' \<notin> set l \<Longrightarrow>
   os_path_join (phasing_dir_of od) (l @ ''_'' @ ch @ ''.phased'') @ ''.vcf.gz''
     = od @ sep_after od @ ''phasing/'' @ l @ ''_'' @ ch @ ''.phased.vcf.gz''"
  by (simp add: join_relative no_slash_not_abs sep_after_phasing_dir) (simp add: phasing_dir_name)

lemma phased_list_set:
  "set (phased_vcf_list_of (out_prefix_list_of d l chs))
     = (\<lambda>ch. os_path_join d (l @ ''_'' @ ch @ ''.phased'') @ ''.vcf.gz'') ` set chs"
  by (auto simp: phased_vcf_list_of_def out_prefix_list_of_def)

lemma genotype_neq_phased: "l1 @ ''.genotype.vcf.gz'' \<noteq> x @ ''.phased.vcf.gz''"
proof
  assume "l1 @ ''.genotype.vcf.gz'' = x @ ''.phased.vcf.gz''"
  then have "rev (l1 @ ''.genotype.vcf.gz'') = rev (x @ ''.phased.vcf.gz'')" by simp
  then show False by simp
qed

lemma first_split_unique:
  "x \<notin> set xs \<Longrightarrow> x \<notin> set xs' \<Longrightarrow> xs @ x # ys = xs' @ x # ys' \<Longrightarrow> xs = xs' \<and> ys = ys'"
proof (induction xs arbitrary: xs')
  case Nil
  then show ?case by (cases xs') auto
next
  case (Cons a xs)
  then show ?case by (cases xs') auto
qed

lemma last_underscore_split:
  assumes "CHR ''_'' \<notin> set c1" "CHR ''_'' \<notin> set c2" "l1 @ ''_'' @ c1 = l2 @ ''_'' @ c2"
  shows "l1 = l2 \<and> c1 = c2"
proof -
  from assms(3) have "rev (l1 @ ''_'' @ c1) = rev (l2 @ ''_'' @ c2)" by simp
  then have "rev c1 @ CHR ''_'' # rev l1 = rev c2 @ CHR ''_'' # rev l2" by simp
  with assms(1,2) first_split_unique[of "CHR ''_''" "rev c1" "rev c2" "rev l1" "rev l2"]
  have "rev c1 = rev c2 \<and> rev l1 = rev l2" by simp
  then show ?thesis by simp
qed

subsection \<open>The command line\<close>

lemma known_ops_dispatched: "list_all (\<lambda>op. dispatched (lowered op)) known_ops"
  by code_simp

lemma long_has_args_known:
  assumes "long_has_args opt long_options = Inr (has_arg, name)" and "CHR ''='' \<notin> set opt"
  shows "''--'' @ name \<in> set known_ops"
proof -
  let ?poss = "filter (\<lambda>o'. prefix opt o') long_options"
  have sub: "set ?poss \<subseteq> set long_options" by auto
  have k: "n \<in> set long_options \<Longrightarrow> ''--'' @ strip_eq n \<in> set known_ops" for n
    by (auto simp: known_ops_def)
  consider (exact) "?poss \<noteq> []" "opt \<in> set ?poss" "name = opt"
    | (arg) "?poss \<noteq> []" "opt \<notin> set ?poss" "opt @ ''='' \<in> set ?poss" "name = opt"
    | (uniq) "?poss \<noteq> []" "opt \<notin> set ?poss" "opt @ ''='' \<notin> set ?poss" "\<not> length ?poss > 1"
         "name = strip_eq (hd ?poss)"
    using assms(1) by (auto simp: long_has_args_def Let_def strip_eq_def split: if_splits)
  then show ?thesis
  proof cases
    case exact
    then have "opt \<in> set long_options" using sub by blast
    moreover from assms(2) have "\<not> suffix ''='' opt"
      by (auto simp: suffix_def)
    ultimately show ?thesis using k[of opt] exact(3) by (simp add: strip_eq_def)
  next
    case arg
    then have "opt @ ''='' \<in> set long_options" using sub by blast
    from k[OF this] arg(4) show ?thesis by (simp add: strip_eq_def)
  next
    case uniq
    then have "hd ?poss \<in> set ?poss" by (intro hd_in_set)
    then have "hd ?poss \<in> set long_options" using sub by blast
    from k[OF this] uniq(5) show ?thesis by simp
  qed
qed

lemma do_longs_known:
  assumes "do_longs opt0 long_options rest = Inr ((op, v), rest')"
  shows "op \<in> set known_ops"
proof -
  let ?opt = "take (length (takeWhile (\<lambda>ch. ch \<noteq> CHR ''='') opt0)) opt0"
  have "?opt = takeWhile (\<lambda>ch. ch \<noteq> CHR ''='') opt0"
    by (metis takeWhile_eq_take)
  then have ne: "CHR ''='' \<notin> set ?opt"
    by (metis (mono_tags, lifting) set_takeWhileD)
  from assms obtain has_arg name where
    l: "long_has_args ?opt long_options = Inr (has_arg, name)" and op: "op = ''--'' @ name"
    by (auto simp: do_longs_def Let_def split: sum.splits if_splits option.splits list.splits)
  from long_has_args_known[OF l ne] op show ?thesis by simp
qed

lemma getopt_loop_known_aux:
  "getopt_loop opts args' lo = Inr (opts', rest) \<Longrightarrow> lo = long_options \<Longrightarrow>
     \<forall>ov\<in>set opts. fst ov \<in> set known_ops \<Longrightarrow> \<forall>ov\<in>set opts'. fst ov \<in> set known_ops"
proof (induction opts args' lo arbitrary: opts' rest rule: getopt_loop.induct)
  case (1 opts longopts)
  then show ?case by simp
next
  case (2 opts a rest0 longopts)
  show ?case
  proof (cases "prefix ''-'' a \<and> a \<noteq> ''-'' \<and> a \<noteq> ''--'' \<and> prefix ''--'' a")
    case True
    with "2.prems"(1) obtain ov rest1 where
      d: "do_longs (drop 2 a) longopts rest0 = Inr (ov, rest1)" and
      g: "getopt_loop (opts @ [ov]) rest1 longopts = Inr (opts', rest)"
      by (auto split: sum.splits)
    from d "2.prems"(2) have "fst ov \<in> set known_ops"
      using do_longs_known[of "drop 2 a" rest0 "fst ov" "snd ov" rest1] by simp
    with "2.prems"(3) have all: "\<forall>ov\<in>set (opts @ [ov]). fst ov \<in> set known_ops" by simp
    from True have t: "\<not> \<not> (prefix ''-'' a \<and> a \<noteq> ''-'')" "a \<noteq> ''--''" "prefix ''--'' a"
      by simp_all
    from "2.IH"[OF t d _ g "2.prems"(2) all] show ?thesis by simp
  next
    case False
    with "2.prems" show ?thesis by (auto split: if_splits)
  qed
qed

lemma getopt_known:
  "getopt args' long_options = Inr (opts, rest) \<Longrightarrow> \<forall>ov\<in>set opts. fst ov \<in> set known_ops"
  using getopt_loop_known_aux[of "[]" args' long_options opts rest] by (simp add: getopt_def)

lemma opt_step_known:
  assumes "dispatched (lowered (fst ov))" and "opt_step env ov a fs = (r, fs', ev)"
  shows "(\<forall>code. r \<noteq> Inr (Inl code)) \<and> fs' = fs
       \<and> (\<forall>e. r = Inl e \<longrightarrow> e = SystemExit 1 \<or> (\<exists>s. e = ValueError s))"
proof -
  define op where "op = (if length (fst ov) > 2 then lower (fst ov) else fst ov)"
  have d: "py_in op ''--label'' \<or> py_in op ''--sam'' \<or> py_in op ''--samlist'' \<or> py_in op ''--barcode''
      \<or> py_in op ''--snpvcf'' \<or> py_in op ''--outdir'' \<or> py_in op ''--gmap'' \<or> py_in op ''--eagle''
      \<or> py_in op ''--paneldir'' \<or> py_in op ''--version'' \<or> py_in op ''--help'' \<or> py_in op ''--celltag''
      \<or> py_in op ''--umitag'' \<or> py_in op ''--ncores'' \<or> py_in op ''--smartseq'' \<or> py_in op ''--bulk''"
    using assms(1) unfolding dispatched_def lowered_def op_def[symmetric] by simp
  from assms(2) have "(let val = snd ov in
      if py_in op ''--label'' then ret (Inr (a\<lparr>label := Some val\<rparr>))
      else if py_in op ''--sam'' then ret (Inr (a\<lparr>sam_fn := Some val\<rparr>))
      else if py_in op ''--samlist'' then ret (Inr (a\<lparr>sam_list_fn := Some val\<rparr>))
      else if py_in op ''--barcode'' then ret (Inr (a\<lparr>barcode_fn := Some val\<rparr>))
      else if py_in op ''--snpvcf'' then ret (Inr (a\<lparr>snp_vcf_fn := Some val\<rparr>))
      else if py_in op ''--outdir'' then ret (Inr (a\<lparr>out_dir := Some val\<rparr>))
      else if py_in op ''--gmap'' then ret (Inr (a\<lparr>gmap_fn := Some val\<rparr>))
      else if py_in op ''--eagle'' then ret (Inr (a\<lparr>eagle_fn := Some val\<rparr>))
      else if py_in op ''--paneldir'' then ret (Inr (a\<lparr>panel_dir := Some val\<rparr>))
      else if py_in op ''--version'' then thn (log_error VERSION) (sys_exit 1)
      else if py_in op ''--help'' then thn usage (sys_exit 1)
      else if py_in op ''--celltag'' then ret (Inr (a\<lparr>cell_tag := val\<rparr>))
      else if py_in op ''--umitag'' then ret (Inr (a\<lparr>umi_tag := val\<rparr>))
      else if py_in op ''--ncores'' then
        (case py_int env val of
           None \<Rightarrow> raise (ValueError val)
         | Some n \<Rightarrow> ret (Inr (a\<lparr>ncores := n\<rparr>)))
      else if py_in op ''--smartseq'' then ret (Inr (a\<lparr>mode := ''smartseq''\<rparr>))
      else if py_in op ''--bulk'' then ret (Inr (a\<lparr>mode := ''bulk''\<rparr>))
      else thn (log_error (''invalid option: '' @ quoted op @ ''.'')) (ret (Inl (- 1)))) fs = (r, fs', ev)"
    unfolding opt_step_def op_def Let_def by simp
  with d show ?thesis
    by (auto simp: Let_def ret_def raise_def thn_def bnd_def log_error_def emit_def usage_def sys_exit_def
             split: if_splits option.splits)
qed

lemma opt_loop_known:
  assumes "\<forall>ov\<in>set opts. fst ov \<in> set known_ops" and "opt_loop env opts a fs = (r, fs', ev)"
  shows "(\<forall>code. r \<noteq> Inr (Inl code)) \<and> fs' = fs
       \<and> (\<forall>e. r = Inl e \<longrightarrow> e = SystemExit 1 \<or> (\<exists>s. e = ValueError s))"
  using assms
proof (induction opts arbitrary: a ev)
  case Nil
  then show ?case by (auto simp: ret_def)
next
  case (Cons ov opts)
  from Cons.prems(1) known_ops_dispatched have d: "dispatched (lowered (fst ov))"
    by (auto simp: list_all_iff)
  from Cons.prems(2) have "bnd (opt_step env ov a) (\<lambda>r.
       case r of Inl v \<Rightarrow> ret (Inl v) | Inr a' \<Rightarrow> opt_loop env opts a') fs = (r, fs', ev)" by simp
  then show ?case
  proof (cases rule: bnd_cases)
    case (fail e)
    with opt_step_known[OF d fail(1)] show ?thesis by simp
  next
    case (ok x fs1 ev1 ev2)
    from opt_step_known[OF d ok(1)] obtain a' where x: "x = Inr a'" and fs1: "fs1 = fs"
      by (cases x) auto
    from ok(2) x fs1 have "opt_loop env opts a' fs = (r, fs', ev2)" by simp
    from Cons.IH[OF _ this] Cons.prems(1) show ?thesis by simp
  qed
qed

lemma do_longs_error: "do_longs opt0 lo rest = Inl e \<Longrightarrow> \<exists>m. e = GetoptError m"
  by (auto simp: do_longs_def long_has_args_def Let_def
           split: sum.splits if_splits option.splits list.splits prod.splits)

lemma getopt_loop_error: "getopt_loop opts args' lo = Inl e \<Longrightarrow> \<exists>m. e = GetoptError m"
proof (induction opts args' lo rule: getopt_loop.induct)
  case (1 opts longopts)
  then show ?case by simp
next
  case (2 opts a rest0 longopts)
  show ?case
  proof (cases "prefix ''-'' a \<and> a \<noteq> ''-'' \<and> a \<noteq> ''--'' \<and> prefix ''--'' a")
    case True
    from True have t: "\<not> \<not> (prefix ''-'' a \<and> a \<noteq> ''-'')" "a \<noteq> ''--''" "prefix ''--'' a"
      by simp_all
    show ?thesis
    proof (cases "do_longs (drop 2 a) longopts rest0")
      case (Inl e')
      with "2.prems" True do_longs_error[OF Inl] show ?thesis by simp
    next
      case (Inr p)
      obtain ov rest1 where p: "p = (ov, rest1)" by (cases p) auto
      with Inr "2.prems" True have "getopt_loop (opts @ [ov]) rest1 longopts = Inl e" by simp
      from "2.IH"[OF t Inr[unfolded p] _ this] show ?thesis by simp
    qed
  next
    case False
    with "2.prems" show ?thesis by (auto split: if_splits)
  qed
qed

subsection \<open>A run that returns\<close>

lemma merge_stage_Inr:
  assumes "merge_stage env c opl fs = (Inr (), fs', ev)"
  shows "set (phased_vcf_list_of opl) \<subseteq> fs \<and> tool env (merge_call c opl) fs = (None, fs')
       \<and> Call (merge_call c opl) \<in> set ev"
proof (cases "set (phased_vcf_list_of opl) \<subseteq> fs")
  case True
  from merge_stage_present[OF True, of env c] assms True show ?thesis
    by (auto split: prod.splits option.splits)
next
  case False
  from merge_stage_missing[OF False, of env c] assms show ?thesis by auto
qed

lemma run_from_split_Inr:
  assumes "run_from_split env a c res fs = (Inr (), fs', ev)"
  shows "\<exists>opl fs0. tool env (merge_call c opl) fs0 = (None, fs') \<and> Call (merge_call c opl) \<in> set ev"
proof -
  from assms have "bnd (index_loop env res ([], [])) (\<lambda>(valid_chroms, target_vcf_list).
     bnd (phasing_stage env a c valid_chroms target_vcf_list) (\<lambda>out_prefix_list.
     merge_stage env c out_prefix_list)) fs = (Inr (), fs', ev)"
    by (simp add: run_from_split_def)
  then show ?thesis
  proof (cases rule: bnd_cases)
    case (ok x fs1 ev1 ev2)
    obtain vc tg where x: "x = (vc, tg)" by (cases x) auto
    from ok(2) have "bnd (phasing_stage env a c vc tg) (\<lambda>out_prefix_list.
        merge_stage env c out_prefix_list) fs1 = (Inr (), fs', ev2)"
      unfolding x by simp
    then show ?thesis
    proof (cases rule: bnd_cases)
      case (ok opl fs2 ev21 ev22)
      from merge_stage_Inr[OF ok(2)] ok(3) \<open>ev = ev1 @ ev2\<close> show ?thesis by auto
    qed simp
  qed simp
qed

lemma run_from_check_Inr:
  assumes "run_from_check env a c fs = (Inr (), fs', ev)"
  shows "\<exists>opl fs0. tool env (merge_call c opl) fs0 = (None, fs') \<and> Call (merge_call c opl) \<in> set ev"
proof -
  from assms have "bnd (pileup_stage env a c) (\<lambda>pileup_vcf_fn.
     bnd (genotype_stage env c pileup_vcf_fn) (\<lambda>genotype_vcf_fn.
     bnd (split_stage env c genotype_vcf_fn) (\<lambda>res.
     run_from_split env a c res))) fs = (Inr (), fs', ev)"
    by (simp add: run_from_check_def)
  then show ?thesis
  proof (cases rule: bnd_cases)
    case (ok x1 fs1 ev1 ev2)
    from ok(2) show ?thesis
    proof (cases rule: bnd_cases)
      case (ok x2 fs2 ev21 ev22)
      from ok(2) show ?thesis
      proof (cases rule: bnd_cases)
        case (ok res fs3 ev31 ev32)
        from run_from_split_Inr[OF ok(2)] ok(3) \<open>ev22 = ev31 @ ev32\<close> \<open>ev2 = ev21 @ ev22\<close>
          \<open>ev = ev1 @ ev2\<close>
        show ?thesis by auto
      qed simp
    qed simp
  qed simp
qed

lemma run_baf_preprocess_Inr:
  assumes "run_baf_preprocess env a fs = (Inr (), fs', ev)"
  shows "\<exists>c opl fs0. label a = Some (c_label c) \<and> out_dir a = Some (c_out_dir c)
           \<and> tool env (merge_call c opl) fs0 = (None, fs') \<and> Call (merge_call c opl) \<in> set ev"
proof -
  obtain r1 fs1 ev1 where ca: "check_args env a fs = (r1, fs1, ev1)" by (metis prod_cases3)
  show ?thesis
  proof (cases r1)
    case (Inl e)
    with ca run_check_Inl[of env a fs e fs1 ev1] assms show ?thesis by simp
  next
    case (Inr c)
    with ca have c: "check_args env a fs = (Inr c, fs1, ev1)" by simp
    obtain r2 fs2 ev2 where rc: "run_from_check env a c fs1 = (r2, fs2, ev2)" by (metis prod_cases3)
    with run_check_Inr[OF c] assms have
      "r2 = Inr ()" "fs2 = fs'" "ev = Info ''xcltk BAF preprocessing starts ...'' # ev1 @ ev2"
      by simp_all
    with rc run_from_check_Inr[of env a c fs1 fs' ev2] check_args_Inr[OF c] show ?thesis
      by auto
  qed
qed

subsection \<open>main and the exit status\<close>

lemma main_run:
  assumes "length argv \<ge> 2" and "getopt (tl argv) long_options = Inr (opts, rest)"
    and "opt_loop env opts default_args fs = (Inr (Inr a), fs1, ev1)"
    and "run_baf_preprocess env a fs1 = (r, fs2, ev2)"
  shows "main env argv fs =
     (case r of
        Inl e \<Rightarrow> (Inl e, fs2, InitLogging # ev1 @ ev2)
      | Inr u \<Rightarrow> (Inr None, fs2, InitLogging # ev1 @ ev2 @ [Info ''All Done!'']))"
  using assms
  by (auto simp: main_def thn_def bnd_def init_logging_def emit_def info_def ret_def
           split: sum.splits)

text \<open>The ways \<^verbatim>\<open>main\<close> can end.\<close>

lemma main_cases:
  assumes "main env argv fs = (r, fs', ev)"
  shows "(\<exists>e. r = Inl e \<and> \<not> is_exit e)
       \<or> r = Inl (SystemExit 1)
       \<or> (length argv \<ge> 2 \<and> (\<exists>opts rest a ev1 ev2.
              getopt (tl argv) long_options = Inr (opts, rest)
            \<and> opt_loop env opts default_args fs = (Inr (Inr a), fs, ev1)
            \<and> run_baf_preprocess env a fs = (Inr (), fs', ev2)
            \<and> ev = InitLogging # ev1 @ ev2 @ [Info ''All Done!''] \<and> r = Inr None))"
proof (cases "length argv < 2")
  case True
  with assms show ?thesis
    by (auto simp: main_def thn_def bnd_def usage_def emit_def sys_exit_def raise_def)
next
  case False
  then have len: "length argv \<ge> 2" by simp
  show ?thesis
  proof (cases "getopt (tl argv) long_options")
    case (Inl e)
    from getopt_loop_error[of "[]" "tl argv" long_options e] Inl obtain m where "e = GetoptError m"
      by (auto simp: getopt_def)
    with Inl assms False show ?thesis
      by (auto simp: main_def thn_def bnd_def init_logging_def emit_def raise_def is_exit_def)
  next
    case (Inr p)
    obtain opts rest where p: "p = (opts, rest)" by (cases p) auto
    note g = Inr[unfolded p]
    obtain r1 fs1 ev1 where ol: "opt_loop env opts default_args fs = (r1, fs1, ev1)"
      by (metis prod_cases3)
    note k = opt_loop_known[OF getopt_known[OF g] ol]
    show ?thesis
    proof (cases r1)
      case (Inl e)
      with ol g assms False have "r = Inl e"
        by (auto simp: main_def thn_def bnd_def init_logging_def emit_def)
      with k Inl show ?thesis by (auto simp: is_exit_def)
    next
      case (Inr x)
      with k obtain a where x: "x = Inr a" by (cases x) auto
      from k have fs1: "fs1 = fs" by simp
      obtain r2 fs2 ev2 where run: "run_baf_preprocess env a fs = (r2, fs2, ev2)"
        by (metis prod_cases3)
      from ol Inr x fs1 have ol': "opt_loop env opts default_args fs = (Inr (Inr a), fs, ev1)" by simp
      note m = main_run[OF len g ol' run]
      show ?thesis
      proof (cases r2)
        case (Inl e)
        with m assms have "r = Inl e" by simp
        moreover from satD[OF run_baf_preprocess_no_exit run] Inl have "\<not> is_exit e" by simp
        ultimately show ?thesis by blast
      next
        case (Inr u)
        with m assms run len g ol' show ?thesis by auto
      qed
    qed
  qed
qed

lemma exit_status_nonzero: "\<not> is_exit e \<or> e = SystemExit 1 \<Longrightarrow> exit_status (Inl e) \<noteq> 0"
  by (cases e) (auto simp: exit_status_def is_exit_def)

lemma ex_getopt:
  "getopt (tl ex_argv) long_options =
     Inr ([(''--label'', ''s1''), (''--sam'', ''a.bam''), (''--barcode'', ''bc.tsv''),
           (''--snpvcf'', ''snp.vcf.gz''), (''--outdir'', ''out''),
           (''--gmap'', ''genetic_map_hg38_withX.txt.gz''), (''--eagle'', ''eagle''),
           (''--paneldir'', ''panel'')], [])"
  by code_simp

lemma ex_opt_loop:
  "fst (opt_loop ex_env [(''--label'', ''s1''), (''--sam'', ''a.bam''), (''--barcode'', ''bc.tsv''),
           (''--snpvcf'', ''snp.vcf.gz''), (''--outdir'', ''out''),
           (''--gmap'', ''genetic_map_hg38_withX.txt.gz''), (''--eagle'', ''eagle''),
           (''--paneldir'', ''panel'')] default_args fs) = Inr (Inr ex_args)"
  by code_simp

lemma ex_status: "fst (script ex_env ex_argv ex_fs) = 0"
  by code_simp

lemma ex_contract: "vcf_merge_contract ex_env"
  by (simp add: vcf_merge_contract_def ex_env_def ex_tool_def)

lemma ex_getopt_refused:
  "getopt (tl [''baf.py'', ''--foo'']) long_options = Inl (GetoptError ''option --foo not recognized'')"
  by code_simp

section \<open>The claims\<close>

text \<open>
  C1. In a run of the pipeline from the result \<open>res\<close> of the split on (lines 215 to 256),
  where \<open>res\<close> has one triple for each chromosome of chr1..chr22: the call of
  \<^verbatim>\<open>ref_phasing\<close> has as many tasks (positions of its three lists) as there are triples
  with a positive count; for a triple with count 0 (any count that is not positive) no task
  has the panel file or the output prefix of its chromosome, the list \<^verbatim>\<open>vcf_merge\<close> is
  called with does not hold its phased file, and the run never stops for want of that
  file; for a triple with a positive count one task is made of its file, the panel file and
  the output prefix of its chromosome, its phased file is in the list \<^verbatim>\<open>vcf_merge\<close> is
  called with, and it existed when \<^verbatim>\<open>ref_phasing\<close> returned. A run that returns has
  called both.
\<close>

theorem C1_zero_count_dropped_positive_count_kept:
  assumes "run_from_split env a c res fs = (r, fs', ev)"
    and "map fst res = chrom_list"
    and "(chrom, n_variants, vcf_fn) \<in> set res"
  shows "(\<forall>tg rl ol gm eg d nc scr lg.
            Call (RefPhasing tg rl ol gm eg d nc scr lg) \<in> set ev \<longrightarrow>
              length tg = length (retained res) \<and> length rl = length (retained res)
            \<and> length ol = length (retained res)
            \<and> (n_variants \<le> 0 \<longrightarrow>
                 os_path_join (c_panel_dir c) (chrom @ ''.genotypes.bcf'') \<notin> set rl
               \<and> os_path_join (phasing_dir_of (c_out_dir c)) (c_label c @ ''_'' @ chrom @ ''.phased'')
                   \<notin> set ol)
            \<and> (n_variants > 0 \<longrightarrow>
                 (vcf_fn, os_path_join (c_panel_dir c) (chrom @ ''.genotypes.bcf''),
                  os_path_join (phasing_dir_of (c_out_dir c)) (c_label c @ ''_'' @ chrom @ ''.phased''))
                   \<in> set (zip tg (zip rl ol))))
       \<and> (\<forall>ins out srt.
            Call (VcfMerge ins out srt) \<in> set ev \<longrightarrow>
              length ins = length (retained res)
            \<and> (n_variants \<le> 0 \<longrightarrow>
                 os_path_join (phasing_dir_of (c_out_dir c)) (c_label c @ ''_'' @ chrom @ ''.phased'')
                   @ ''.vcf.gz'' \<notin> set ins)
            \<and> (n_variants > 0 \<longrightarrow>
                 os_path_join (phasing_dir_of (c_out_dir c)) (c_label c @ ''_'' @ chrom @ ''.phased'')
                   @ ''.vcf.gz'' \<in> set ins
               \<and> (\<exists>tg rl ol gm eg d nc scr lg fs1 fs2.
                     Call (RefPhasing tg rl ol gm eg d nc scr lg) \<in> set ev
                   \<and> tool env (RefPhasing tg rl ol gm eg d nc scr lg) fs1 = (None, fs2)
                   \<and> os_path_join (phasing_dir_of (c_out_dir c))
                         (c_label c @ ''_'' @ chrom @ ''.phased'') @ ''.vcf.gz'' \<in> fs2)))
       \<and> (n_variants \<le> 0 \<longrightarrow>
            r \<noteq> Inl (AssertE (Some (os_path_join (phasing_dir_of (c_out_dir c))
                                       (c_label c @ ''_'' @ chrom @ ''.phased'') @ ''.vcf.gz''))))
       \<and> (r = Inr () \<longrightarrow>
            (\<exists>tg rl ol gm eg d nc scr lg. Call (RefPhasing tg rl ol gm eg d nc scr lg) \<in> set ev)
          \<and> (\<exists>ins out srt. Call (VcfMerge ins out srt) \<in> set ev))"
proof -
  define vc where "vc = map fst (retained res)"
  define tg0 where "tg0 = map (\<lambda>t. snd (snd t)) (retained res)"
  define pd where "pd = c_panel_dir c"
  define phd where "phd = phasing_dir_of (c_out_dir c)"
  define l where "l = c_label c"
  define opl where "opl = out_prefix_list_of phd l vc"
  note facts = run_from_split_facts[OF assms(1), folded vc_def tg0_def, folded phd_def l_def, folded opl_def]
  have dist: "distinct (map fst res)"
    using assms(2) distinct_chrom_list by simp
  have chrom: "chrom \<in> set chrom_list"
    using assms(2,3) by (metis fst_conv image_eqI list.set_map)
  have vc_sub: "set vc \<subseteq> set chrom_list"
    unfolding vc_def assms(2)[symmetric] by (auto simp: retained_subset)
  have in_vc: "chrom \<in> set vc" if "n_variants > 0"
  proof -
    from that assms(3) have "(chrom, n_variants, vcf_fn) \<in> set (retained res)"
      by (simp add: retained_subset)
    then show ?thesis unfolding vc_def by force
  qed
  have not_vc: "chrom \<notin> set vc" if "n_variants \<le> 0"
    using dropped_not_retained[OF dist assms(3) that] by (simp add: vc_def)
  have rl_mem: "os_path_join pd (chrom @ ''.genotypes.bcf'') \<in> set (ref_vcf_list_of pd vc)
                 \<longleftrightarrow> chrom \<in> set vc"
    using ref_inj[OF chrom, of _ pd "''.genotypes.bcf''"] vc_sub
    by (auto simp: ref_vcf_list_of_def)
  have ol_mem: "os_path_join phd (l @ ''_'' @ chrom @ ''.phased'') \<in> set opl \<longleftrightarrow> chrom \<in> set vc"
    using out_prefix_inj[of phd l _ "''.phased''"] by (auto simp: opl_def out_prefix_list_of_def)
  have pv_mem: "os_path_join phd (l @ ''_'' @ chrom @ ''.phased'') @ ''.vcf.gz''
                  \<in> set (phased_vcf_list_of opl) \<longleftrightarrow> chrom \<in> set vc"
    unfolding opl_def phased_list_set using out_prefix_inj[of phd l _ "''.phased''"] by auto
  have task: "(vcf_fn, os_path_join pd (chrom @ ''.genotypes.bcf''),
                  os_path_join phd (l @ ''_'' @ chrom @ ''.phased''))
                   \<in> set (zip tg0 (zip (ref_vcf_list_of pd vc) opl))" if "n_variants > 0"
  proof -
    from that assms(3) have t: "(chrom, n_variants, vcf_fn) \<in> set (retained res)"
      by (simp add: retained_subset)
    from retained_zip[OF t, of "\<lambda>t. snd (snd t)" "\<lambda>t. os_path_join pd (fst t @ ''.genotypes.bcf'')"
        "\<lambda>t. os_path_join phd (l @ ''_'' @ fst t @ ''.phased'')"]
    show ?thesis
      by (simp add: tg0_def opl_def vc_def ref_vcf_list_of_def out_prefix_list_of_def comp_def)
  qed
  have A: "length tg = length (retained res) \<and> length rl = length (retained res)
            \<and> length ol = length (retained res)
            \<and> (n_variants \<le> 0 \<longrightarrow>
                 os_path_join pd (chrom @ ''.genotypes.bcf'') \<notin> set rl
               \<and> os_path_join phd (l @ ''_'' @ chrom @ ''.phased'') \<notin> set ol)
            \<and> (n_variants > 0 \<longrightarrow>
                 (vcf_fn, os_path_join pd (chrom @ ''.genotypes.bcf''),
                  os_path_join phd (l @ ''_'' @ chrom @ ''.phased''))
                   \<in> set (zip tg (zip rl ol)))"
    if "Call (RefPhasing tg rl ol gm eg d nc scr lg) \<in> set ev" for tg rl ol gm eg d nc scr lg
  proof -
    from facts(1)[OF that] have "tg = tg0" "rl = ref_vcf_list_of pd vc" "ol = opl"
      by (simp_all add: phasing_call_def pd_def phd_def l_def opl_def)
    with rl_mem ol_mem not_vc task show ?thesis
      by (auto simp: tg0_def vc_def opl_def ref_vcf_list_of_def out_prefix_list_of_def)
  qed
  have B: "length ins = length (retained res)
            \<and> (n_variants \<le> 0 \<longrightarrow>
                 os_path_join phd (l @ ''_'' @ chrom @ ''.phased'') @ ''.vcf.gz'' \<notin> set ins)
            \<and> (n_variants > 0 \<longrightarrow>
                 os_path_join phd (l @ ''_'' @ chrom @ ''.phased'') @ ''.vcf.gz'' \<in> set ins
               \<and> (\<exists>tg rl ol gm eg d nc scr lg fs1 fs2.
                     Call (RefPhasing tg rl ol gm eg d nc scr lg) \<in> set ev
                   \<and> tool env (RefPhasing tg rl ol gm eg d nc scr lg) fs1 = (None, fs2)
                   \<and> os_path_join phd (l @ ''_'' @ chrom @ ''.phased'') @ ''.vcf.gz'' \<in> fs2))"
    if "Call (VcfMerge ins out srt) \<in> set ev" for ins out srt
  proof -
    from facts(2)[OF that] obtain fs1 fs2 where
      ins: "ins = phased_vcf_list_of opl" and pc: "Call (phasing_call a c vc tg0) \<in> set ev"
      and t: "tool env (phasing_call a c vc tg0) fs1 = (None, fs2)"
      and sub: "set (phased_vcf_list_of opl) \<subseteq> fs2"
      by (auto simp: merge_call_def)
    have len: "length ins = length (retained res)"
      by (simp add: ins phased_vcf_list_of_def opl_def out_prefix_list_of_def vc_def)
    have "\<exists>tg rl ol gm eg d nc scr lg fs1 fs2.
                     Call (RefPhasing tg rl ol gm eg d nc scr lg) \<in> set ev
                   \<and> tool env (RefPhasing tg rl ol gm eg d nc scr lg) fs1 = (None, fs2)
                   \<and> os_path_join phd (l @ ''_'' @ chrom @ ''.phased'') @ ''.vcf.gz'' \<in> fs2"
      if "n_variants > 0"
    proof -
      from pv_mem in_vc[OF that] sub
      have "os_path_join phd (l @ ''_'' @ chrom @ ''.phased'') @ ''.vcf.gz'' \<in> fs2" by auto
      with pc t show ?thesis unfolding phasing_call_def by blast
    qed
    with len pv_mem in_vc not_vc show ?thesis unfolding ins by auto
  qed
  have C: "r \<noteq> Inl (AssertE (Some (os_path_join phd (l @ ''_'' @ chrom @ ''.phased'') @ ''.vcf.gz'')))"
    if "n_variants \<le> 0"
  proof
    assume "r = Inl (AssertE (Some (os_path_join phd (l @ ''_'' @ chrom @ ''.phased'') @ ''.vcf.gz'')))"
    from facts(3)[OF this] pv_mem not_vc[OF that] show False by auto
  qed
  have D: "(\<exists>tg rl ol gm eg d nc scr lg. Call (RefPhasing tg rl ol gm eg d nc scr lg) \<in> set ev)
          \<and> (\<exists>ins out srt. Call (VcfMerge ins out srt) \<in> set ev)" if "r = Inr ()"
    using facts(4)[OF that] unfolding phasing_call_def merge_call_def by blast
  from A B C D show ?thesis
    unfolding pd_def phd_def l_def by blast
qed

theorem C1_zero_count_dropped_positive_count_kept_witness:
  "map fst ex_res = chrom_list
   \<and> (''chr2'', 0, ''out/phasing/s1_chr2.vcf.gz'') \<in> set ex_res \<and> (0::int) \<le> 0
   \<and> (''chr5'', 3, ''out/phasing/s1_chr5.vcf.gz'') \<in> set ex_res \<and> (3::int) > 0
   \<and> Call (RefPhasing [''out/phasing/s1_chr1.vcf.gz'', ''out/phasing/s1_chr5.vcf.gz'']
               [''panel/chr1.genotypes.bcf'', ''panel/chr5.genotypes.bcf'']
               [''out/phasing/s1_chr1.phased'', ''out/phasing/s1_chr5.phased'']
               ''genetic_map_hg38_withX.txt.gz'' ''eagle'' ''out/phasing'' 1
               ''out/run_phasing.sh'' ''out/phasing.log'')
       \<in> set (snd (snd (run_from_split ex_env ex_args ex_checked ex_res {})))
   \<and> Call (VcfMerge [''out/phasing/s1_chr1.phased.vcf.gz'', ''out/phasing/s1_chr5.phased.vcf.gz'']
                ''out/s1.phased.vcf.gz'' True)
       \<in> set (snd (snd (run_from_split ex_env ex_args ex_checked ex_res {})))
   \<and> length [''out/phasing/s1_chr1.vcf.gz'', ''out/phasing/s1_chr5.vcf.gz''] = length (retained ex_res)
   \<and> os_path_join (c_panel_dir ex_checked) (''chr2'' @ ''.genotypes.bcf'')
        \<notin> set [''panel/chr1.genotypes.bcf'', ''panel/chr5.genotypes.bcf'']
   \<and> os_path_join (phasing_dir_of (c_out_dir ex_checked)) (c_label ex_checked @ ''_'' @ ''chr2'' @ ''.phased'')
        \<notin> set [''out/phasing/s1_chr1.phased'', ''out/phasing/s1_chr5.phased'']
   \<and> os_path_join (phasing_dir_of (c_out_dir ex_checked)) (c_label ex_checked @ ''_'' @ ''chr2'' @ ''.phased'')
        @ ''.vcf.gz'' \<notin> set [''out/phasing/s1_chr1.phased.vcf.gz'', ''out/phasing/s1_chr5.phased.vcf.gz'']
   \<and> (''out/phasing/s1_chr5.vcf.gz'',
       os_path_join (c_panel_dir ex_checked) (''chr5'' @ ''.genotypes.bcf''),
       os_path_join (phasing_dir_of (c_out_dir ex_checked)) (c_label ex_checked @ ''_'' @ ''chr5'' @ ''.phased''))
        \<in> set (zip [''out/phasing/s1_chr1.vcf.gz'', ''out/phasing/s1_chr5.vcf.gz'']
                 (zip [''panel/chr1.genotypes.bcf'', ''panel/chr5.genotypes.bcf'']
                      [''out/phasing/s1_chr1.phased'', ''out/phasing/s1_chr5.phased'']))
   \<and> os_path_join (phasing_dir_of (c_out_dir ex_checked)) (c_label ex_checked @ ''_'' @ ''chr5'' @ ''.phased'')
        @ ''.vcf.gz'' \<in> set [''out/phasing/s1_chr1.phased.vcf.gz'', ''out/phasing/s1_chr5.phased.vcf.gz'']"
proof -
  let ?run = "run_from_split ex_env ex_args ex_checked ex_res {}"
  have run: "?run = (fst ?run, fst (snd ?run), snd (snd ?run))" by simp
  note a = C1_zero_count_dropped_positive_count_kept[OF run ex_res_chroms ex_res_chr2]
  note b = C1_zero_count_dropped_positive_count_kept[OF run ex_res_chroms ex_res_chr5]
  have zero: "(0::int) \<le> 0" and three: "(0::int) < 3" by simp_all
  from a ex_phasing_called zero have a1:
    "length [''out/phasing/s1_chr1.vcf.gz'', ''out/phasing/s1_chr5.vcf.gz''] = length (retained ex_res)
     \<and> os_path_join (c_panel_dir ex_checked) (''chr2'' @ ''.genotypes.bcf'')
        \<notin> set [''panel/chr1.genotypes.bcf'', ''panel/chr5.genotypes.bcf'']
     \<and> os_path_join (phasing_dir_of (c_out_dir ex_checked)) (c_label ex_checked @ ''_'' @ ''chr2'' @ ''.phased'')
        \<notin> set [''out/phasing/s1_chr1.phased'', ''out/phasing/s1_chr5.phased'']"
    by blast
  from a ex_merge_called zero have a2:
    "os_path_join (phasing_dir_of (c_out_dir ex_checked)) (c_label ex_checked @ ''_'' @ ''chr2'' @ ''.phased'')
        @ ''.vcf.gz'' \<notin> set [''out/phasing/s1_chr1.phased.vcf.gz'', ''out/phasing/s1_chr5.phased.vcf.gz'']"
    by blast
  from b ex_phasing_called three have b1:
    "(''out/phasing/s1_chr5.vcf.gz'',
       os_path_join (c_panel_dir ex_checked) (''chr5'' @ ''.genotypes.bcf''),
       os_path_join (phasing_dir_of (c_out_dir ex_checked)) (c_label ex_checked @ ''_'' @ ''chr5'' @ ''.phased''))
        \<in> set (zip [''out/phasing/s1_chr1.vcf.gz'', ''out/phasing/s1_chr5.vcf.gz'']
                 (zip [''panel/chr1.genotypes.bcf'', ''panel/chr5.genotypes.bcf'']
                      [''out/phasing/s1_chr1.phased'', ''out/phasing/s1_chr5.phased'']))"
    by blast
  from b ex_merge_called three have b2:
    "os_path_join (phasing_dir_of (c_out_dir ex_checked)) (c_label ex_checked @ ''_'' @ ''chr5'' @ ''.phased'')
        @ ''.vcf.gz'' \<in> set [''out/phasing/s1_chr1.phased.vcf.gz'', ''out/phasing/s1_chr5.phased.vcf.gz'']"
    by blast
  from ex_res_chroms ex_res_chr2 ex_res_chr5 ex_phasing_called ex_merge_called a1 a2 b1 b2 zero three
  show ?thesis by blast
qed

text \<open>
  C2. The merge stage (lines 246 to 256), started on the file system \<open>fs\<close> with the
  output prefixes of the phasing: when one of the expected phased files is absent, the stage
  raises at the first absent one, leaves the file system as it was and has called nothing
  (its only event is its log line), so no merged file is written; and when \<^verbatim>\<open>vcf_merge\<close>
  is called at all, it is called once, with the whole list, and every expected file exists.
\<close>

theorem C2_merge_needs_every_phased_file:
  assumes "merge_stage env c out_prefix_list fs = (r, fs', ev)"
  shows "((\<exists>fn\<in>set (phased_vcf_list_of out_prefix_list). fn \<notin> fs) \<longrightarrow>
            (\<exists>fn\<in>set (phased_vcf_list_of out_prefix_list). fn \<notin> fs \<and> r = Inl (AssertE (Some fn)))
            \<and> fs' = fs \<and> ev = [Info ''merge phased VCFs ...''])
       \<and> (calls_of ev \<noteq> [] \<longrightarrow>
            calls_of ev = [merge_call c out_prefix_list]
            \<and> set (phased_vcf_list_of out_prefix_list) \<subseteq> fs)"
proof (cases "set (phased_vcf_list_of out_prefix_list) \<subseteq> fs")
  case True
  from merge_stage_present[OF True, of env c] assms have "calls_of ev = [merge_call c out_prefix_list]"
    by (auto split: prod.splits option.splits)
  with True show ?thesis by auto
next
  case False
  from merge_stage_missing[OF False, of env c] assms show ?thesis by auto
qed

theorem C2_merge_needs_every_phased_file_witness:
  "''out/phasing/s1_chr5.phased.vcf.gz'' \<in> set (phased_vcf_list_of ex_prefixes)
   \<and> ''out/phasing/s1_chr5.phased.vcf.gz'' \<notin> {''out/phasing/s1_chr1.phased.vcf.gz''}
   \<and> fst (snd (merge_stage ex_env ex_checked ex_prefixes {''out/phasing/s1_chr1.phased.vcf.gz''}))
        = {''out/phasing/s1_chr1.phased.vcf.gz''}
   \<and> snd (snd (merge_stage ex_env ex_checked ex_prefixes {''out/phasing/s1_chr1.phased.vcf.gz''}))
        = [Info ''merge phased VCFs ...'']
   \<and> calls_of (snd (snd (merge_stage ex_env ex_checked ex_prefixes
          {''out/phasing/s1_chr1.phased.vcf.gz'', ''out/phasing/s1_chr5.phased.vcf.gz''})))
        = [merge_call ex_checked ex_prefixes]
   \<and> set (phased_vcf_list_of ex_prefixes)
        \<subseteq> {''out/phasing/s1_chr1.phased.vcf.gz'', ''out/phasing/s1_chr5.phased.vcf.gz''}"
proof -
  let ?fs1 = "{''out/phasing/s1_chr1.phased.vcf.gz''}"
  let ?fs2 = "{''out/phasing/s1_chr1.phased.vcf.gz'', ''out/phasing/s1_chr5.phased.vcf.gz''}"
  let ?m1 = "merge_stage ex_env ex_checked ex_prefixes ?fs1"
  let ?m2 = "merge_stage ex_env ex_checked ex_prefixes ?fs2"
  have mem: "''out/phasing/s1_chr5.phased.vcf.gz'' \<in> set (phased_vcf_list_of ex_prefixes)"
    by (simp add: phased_vcf_list_of_def ex_prefixes_def)
  have sub: "set (phased_vcf_list_of ex_prefixes) \<subseteq> ?fs2"
    by (simp add: phased_vcf_list_of_def ex_prefixes_def)
  have m2: "?m2 = (Inr (), insert (phased_vcf_fn_of ''out'' ''s1'') ?fs2,
              [Info ''merge phased VCFs ...'', Call (merge_call ex_checked ex_prefixes),
               Info (''merged VCF is '' @ quoted (phased_vcf_fn_of ''out'' ''s1'') @ ''.'')])"
    using merge_stage_present[OF sub, of ex_env ex_checked]
    by (simp add: ex_env_def ex_tool_def merge_call_def ex_checked_def)
  have calls2: "calls_of (snd (snd ?m2)) \<noteq> []"
    by (simp add: m2)
  from C2_merge_needs_every_phased_file[of ex_env ex_checked ex_prefixes ?fs1 "fst ?m1" "fst (snd ?m1)" "snd (snd ?m1)"]
    mem
  have a: "fst (snd ?m1) = ?fs1 \<and> snd (snd ?m1) = [Info ''merge phased VCFs ...'']"
    by auto
  from C2_merge_needs_every_phased_file[of ex_env ex_checked ex_prefixes ?fs2 "fst ?m2" "fst (snd ?m2)" "snd (snd ?m2)"]
    calls2
  have b: "calls_of (snd (snd ?m2)) = [merge_call ex_checked ex_prefixes] \<and> set (phased_vcf_list_of ex_prefixes) \<subseteq> ?fs2"
    by simp
  from a b mem show ?thesis by simp
qed

text \<open>
  C3, as amended. When one of the 44 panel files is absent and is still absent once the
  output directory exists (creating the output directory does not bring that path into
  being: the output directory is not that path, another spelling of it or a directory the
  path leads through), \<^verbatim>\<open>run_baf_preprocess\<close> raises in "check args": no stage function is
  called, the only directory it may have created is the output directory itself (so
  neither \<^verbatim>\<open>pileup/\<close> nor \<^verbatim>\<open>phasing/\<close>), and the file system is as it was or as that one
  \<^verbatim>\<open>os.mkdir\<close> left it.
\<close>

theorem C3_missing_panel_file_aborts_in_check_args:
  assumes "panel_dir a = Some pd" and "n \<in> {1..22}"
    and "p = panel_bcf pd n \<or> p = panel_csi pd n" and "p \<notin> fs"
    and "\<forall>od. out_dir a = Some od \<longrightarrow> p \<notin> ensured env od fs"
    and "run_baf_preprocess env a fs = (r, fs', ev)"
  shows "(\<exists>e. r = Inl e) \<and> calls_of ev = []
       \<and> (\<forall>d\<in>set (mkdirs_of ev). out_dir a = Some d)
       \<and> (\<forall>od. out_dir a = Some od \<longrightarrow>
             pileup_dir_of od \<notin> set (mkdirs_of ev) \<and> phasing_dir_of od \<notin> set (mkdirs_of ev))
       \<and> (fs' = fs \<or> (\<exists>od. out_dir a = Some od \<and> od \<notin> fs \<and> fs' = after_mkdir env od fs))"
proof -
  obtain r1 fs1 ev1 where ca: "check_args env a fs = (r1, fs1, ev1)"
    by (cases "check_args env a fs") auto
  have "\<exists>e. r1 = Inl e"
  proof (cases r1)
    case (Inr c)
    with ca check_args_Inr[of env a fs c fs1 ev1]
    have od: "out_dir a = Some (c_out_dir c)"
      and lp: "later_checks_pass a (ensured env (c_out_dir c) fs)"
      by auto
    from assms(2) have "n \<in> set [1..<23]" by auto
    with lp assms(1) have "panel_bcf pd n \<in> ensured env (c_out_dir c) fs
        \<and> panel_csi pd n \<in> ensured env (c_out_dir c) fs"
      by (auto simp: later_checks_pass_def split: option.splits)
    with assms(3,5) od show ?thesis by auto
  qed auto
  then obtain e where e: "r1 = Inl e" ..
  with ca run_check_Inl[of env a fs e fs1 ev1] assms(6)
  have run: "r = Inl e" "fs' = fs1" "ev = Info ''xcltk BAF preprocessing starts ...'' # ev1"
    by auto
  from satD[OF check_args_sat ca]
  have all: "\<forall>x\<in>set ev1. is_info x \<or> (\<exists>od. out_dir a = Some od \<and> x = Mkdir od)"
    by (simp add: list_all_iff)
  have "\<And>c. Call c \<notin> set ev1"
    using all by (force simp: is_info_def)
  then have calls: "calls_of ev1 = []" by (rule calls_of_Nil)
  have mk: "\<forall>d\<in>set (mkdirs_of ev1). out_dir a = Some d"
    using all by (force simp: is_info_def mkdirs_of_mem)
  have neq: "\<And>od. pileup_dir_of od \<noteq> od \<and> phasing_dir_of od \<noteq> od"
    by (simp add: pileup_dir_of_def phasing_dir_of_def os_path_join_neq)
  have sub: "\<forall>od. out_dir a = Some od \<longrightarrow>
             pileup_dir_of od \<notin> set (mkdirs_of ev1) \<and> phasing_dir_of od \<notin> set (mkdirs_of ev1)"
  proof (intro allI impI)
    fix od assume od: "out_dir a = Some od"
    { fix d assume "d \<in> set (mkdirs_of ev1)"
      with mk od have "d = od" by auto }
    with neq[of od] show "pileup_dir_of od \<notin> set (mkdirs_of ev1) \<and> phasing_dir_of od \<notin> set (mkdirs_of ev1)"
      by blast
  qed
  from check_args_files[OF ca] run calls mk sub show ?thesis by simp
qed

theorem C3_counterexample:
  "panel_dir c3_args = Some ''panel''
   \<and> panel_csi ''panel'' 13 = ''panel/chr13.genotypes.bcf.csi''
   \<and> panel_csi ''panel'' 13 \<notin> c3_fs
   \<and> out_dir c3_args = Some ''panel/chr13.genotypes.bcf.csi''
   \<and> Call (Pileup (Some ''a.bam'') None (Some ''bc.tsv'') None ''snp.vcf.gz''
            ''panel/chr13.genotypes.bcf.csi/pileup'' ''10x'' ''CB'' ''UB'' 1 ''0.1'' 20
            ''panel/chr13.genotypes.bcf.csi/run_pileup.sh''
            ''panel/chr13.genotypes.bcf.csi/pileup.log'')
       \<in> set (snd (snd (run_baf_preprocess ex_env c3_args c3_fs)))"
proof -
  have csi: "panel_csi ''panel'' 13 = ''panel/chr13.genotypes.bcf.csi''"
    by code_simp
  have "\<exists>ev1. check_args ex_env c3_args c3_fs =
          (Inr (ex_checked\<lparr>c_out_dir := ''panel/chr13.genotypes.bcf.csi''\<rparr>),
           insert ''panel/chr13.genotypes.bcf.csi'' ex_fs, ev1)"
    by (rule ex_check_args) (auto simp: c3_args_def ex_args_def c3_fs_def ex_fs_def)
  then obtain ev1 where "check_args ex_env c3_args c3_fs =
          (Inr c3_checked, insert ''panel/chr13.genotypes.bcf.csi'' ex_fs, ev1)"
    by (auto simp: c3_checked_def)
  from ex_reaches_pileup[OF this]
  have "Call (pileup_call c3_args c3_checked) \<in> set (snd (snd (run_baf_preprocess ex_env c3_args c3_fs)))" .
  moreover have "pileup_call c3_args c3_checked =
     Pileup (Some ''a.bam'') None (Some ''bc.tsv'') None ''snp.vcf.gz''
            ''panel/chr13.genotypes.bcf.csi/pileup'' ''10x'' ''CB'' ''UB'' 1 ''0.1'' 20
            ''panel/chr13.genotypes.bcf.csi/run_pileup.sh''
            ''panel/chr13.genotypes.bcf.csi/pileup.log''"
    by (simp add: pileup_call_def c3_args_def ex_args_def c3_checked_def ex_checked_def
          pileup_dir_of_def os_path_join_def suffix_to_prefix)
  ultimately show ?thesis
    using csi by (simp add: c3_args_def ex_args_def c3_fs_def)
qed

theorem C3_missing_panel_file_aborts_in_check_args_witness:
  "panel_dir ex_args = Some ''panel'' \<and> (13::nat) \<in> {1..22}
   \<and> panel_csi ''panel'' 13 \<notin> c3_fs \<and> out_dir ex_args = Some ''out''
   \<and> panel_csi ''panel'' 13 \<notin> ensured ex_env ''out'' c3_fs
   \<and> (\<exists>e. fst (run_baf_preprocess ex_env ex_args c3_fs) = Inl e)
   \<and> calls_of (snd (snd (run_baf_preprocess ex_env ex_args c3_fs))) = []
   \<and> pileup_dir_of ''out'' \<notin> set (mkdirs_of (snd (snd (run_baf_preprocess ex_env ex_args c3_fs))))"
proof -
  have csi: "panel_csi ''panel'' 13 = ''panel/chr13.genotypes.bcf.csi''"
    by code_simp
  have h: "panel_dir ex_args = Some ''panel''" "(13::nat) \<in> {1..22}"
     "panel_csi ''panel'' 13 \<notin> c3_fs" "panel_csi ''panel'' 13 \<notin> ensured ex_env ''out'' c3_fs"
     "out_dir ex_args = Some ''out''"
    by (simp_all add: csi ex_ensured ex_args_def c3_fs_def)
  let ?run = "run_baf_preprocess ex_env ex_args c3_fs"
  from C3_missing_panel_file_aborts_in_check_args[of ex_args "''panel''" 13 "panel_csi ''panel'' 13" c3_fs
         ex_env "fst ?run" "fst (snd ?run)" "snd (snd ?run)"] h
  show ?thesis by simp
qed

text \<open>
  C4. In a run of the pipeline from the result \<open>res\<close> of the split on (lines 215 to 256),
  where \<open>res\<close> has one triple for each chromosome of chr1..chr22 in that order, the call of
  \<^verbatim>\<open>ref_phasing\<close> is given three lists as long as \<open>valid_chroms\<close>, the chromosomes of
  the triples with a positive count; at every position, the target file is the one of the
  triple of that chromosome, the reference file is
  \<^verbatim>\<open>os.path.join(panel_dir, chrom + ".genotypes.bcf")\<close> (the panel directory, a slash unless
  the directory is empty or ends with one, and the file name) and the output prefix is
  \<^verbatim>\<open>os.path.join(phasing_dir, label + "_" + chrom + ".phased")\<close> for that same chromosome,
  with the phasing directory the call is given as its output directory; the chromosomes
  are pairwise different and in the order of chr1..chr22; their number is the one the run
  logs; and \<^verbatim>\<open>vcf_merge\<close>, when called, is given the phased files of the output prefixes
  in the same order.
\<close>

theorem C4_phasing_lists_aligned:
  assumes "run_from_split env a c res fs = (r, fs', ev)"
    and "map fst res = chrom_list"
    and "Call (RefPhasing tg rl ol gm eg d nc scr lg) \<in> set ev"
  shows "\<exists>valid_chroms.
           valid_chroms = map fst (retained res)
         \<and> length tg = length valid_chroms \<and> length rl = length valid_chroms
         \<and> length ol = length valid_chroms
         \<and> (\<forall>i<length valid_chroms.
               (\<exists>n>0. (valid_chroms ! i, n, tg ! i) \<in> set res)
             \<and> valid_chroms ! i \<in> set chrom_list
             \<and> rl ! i = os_path_join (c_panel_dir c) (valid_chroms ! i @ ''.genotypes.bcf'')
             \<and> rl ! i = c_panel_dir c @ sep_after (c_panel_dir c) @ valid_chroms ! i @ ''.genotypes.bcf''
             \<and> ol ! i = os_path_join d (c_label c @ ''_'' @ valid_chroms ! i @ ''.phased''))
         \<and> d = phasing_dir_of (c_out_dir c)
         \<and> subseq valid_chroms chrom_list \<and> distinct valid_chroms
         \<and> Info (str_nat (length valid_chroms) @ '' chromosome VCFs are outputted with variants.'')
             \<in> set ev
         \<and> (\<forall>ins out srt. Call (VcfMerge ins out srt) \<in> set ev \<longrightarrow>
               ins = map (\<lambda>p. p @ ''.vcf.gz'') ol)"
proof -
  define vc where "vc = map fst (retained res)"
  define tg0 where "tg0 = map (\<lambda>t. snd (snd t)) (retained res)"
  note facts = run_from_split_facts[OF assms(1), folded vc_def tg0_def]
  from facts(1)[OF assms(3)] have tg: "tg = tg0"
    and rl: "rl = ref_vcf_list_of (c_panel_dir c) vc"
    and ol: "ol = out_prefix_list_of (phasing_dir_of (c_out_dir c)) (c_label c) vc"
    and d: "d = phasing_dir_of (c_out_dir c)"
    by (simp_all add: phasing_call_def)
  have sub: "subseq vc chrom_list"
    unfolding vc_def assms(2)[symmetric] retained_def by (intro subseq_map subseq_filter_left)
  have dist: "distinct vc"
    unfolding vc_def retained_def
    by (rule distinct_map_filter) (simp add: assms(2) distinct_chrom_list)
  have each: "(\<exists>n>0. (vc ! i, n, tg ! i) \<in> set res)
             \<and> vc ! i \<in> set chrom_list
             \<and> rl ! i = os_path_join (c_panel_dir c) (vc ! i @ ''.genotypes.bcf'')
             \<and> rl ! i = c_panel_dir c @ sep_after (c_panel_dir c) @ vc ! i @ ''.genotypes.bcf''
             \<and> ol ! i = os_path_join d (c_label c @ ''_'' @ vc ! i @ ''.phased'')"
    if i: "i < length vc" for i
  proof -
    from i have ir: "i < length (retained res)" by (simp add: vc_def)
    from retained_nth[OF ir] ir have a: "\<exists>n>0. (vc ! i, n, tg ! i) \<in> set res"
      unfolding tg tg0_def vc_def by auto
    have "set vc \<subseteq> set chrom_list"
      unfolding vc_def assms(2)[symmetric] by (auto simp: retained_subset)
    with i have b: "vc ! i \<in> set chrom_list"
      using nth_mem[of i vc] by blast
    from chrom_list_chr[OF b] obtain x where x: "vc ! i = ''chr'' @ x" ..
    have c1: "rl ! i = os_path_join (c_panel_dir c) (vc ! i @ ''.genotypes.bcf'')"
      using i by (simp add: rl ref_vcf_list_of_def)
    have c2: "os_path_join (c_panel_dir c) (vc ! i @ ''.genotypes.bcf'')
        = c_panel_dir c @ sep_after (c_panel_dir c) @ vc ! i @ ''.genotypes.bcf''"
      unfolding x by (simp add: join_relative)
    have e: "ol ! i = os_path_join d (c_label c @ ''_'' @ vc ! i @ ''.phased'')"
      using i by (simp add: ol d out_prefix_list_of_def)
    from a b c1 c2 e show ?thesis by simp
  qed
  have log: "Info (str_nat (length vc) @ '' chromosome VCFs are outputted with variants.'') \<in> set ev"
    using facts(5) assms(3) by auto
  have mrg: "ins = map (\<lambda>p. p @ ''.vcf.gz'') ol" if "Call (VcfMerge ins out srt) \<in> set ev" for ins out srt
    using facts(2)[OF that] by (simp add: merge_call_def phased_vcf_list_of_def ol)
  have len: "length tg = length vc" "length rl = length vc" "length ol = length vc"
    by (simp_all add: tg tg0_def vc_def rl ol ref_vcf_list_of_def out_prefix_list_of_def)
  from len each d sub dist log mrg show ?thesis
    unfolding vc_def by blast
qed

theorem C4_phasing_lists_aligned_witness:
  "map fst ex_res = chrom_list
   \<and> Call (RefPhasing [''out/phasing/s1_chr1.vcf.gz'', ''out/phasing/s1_chr5.vcf.gz'']
               [''panel/chr1.genotypes.bcf'', ''panel/chr5.genotypes.bcf'']
               [''out/phasing/s1_chr1.phased'', ''out/phasing/s1_chr5.phased'']
               ''genetic_map_hg38_withX.txt.gz'' ''eagle'' ''out/phasing'' 1
               ''out/run_phasing.sh'' ''out/phasing.log'')
       \<in> set (snd (snd (run_from_split ex_env ex_args ex_checked ex_res {})))
   \<and> map fst (retained ex_res) = [''chr1'', ''chr5'']
   \<and> [''panel/chr1.genotypes.bcf'', ''panel/chr5.genotypes.bcf''] ! 1
       = os_path_join (c_panel_dir ex_checked) ([''chr1'', ''chr5''] ! 1 @ ''.genotypes.bcf'')
   \<and> [''out/phasing/s1_chr1.phased'', ''out/phasing/s1_chr5.phased''] ! 1
       = os_path_join ''out/phasing'' (c_label ex_checked @ ''_'' @ [''chr1'', ''chr5''] ! 1 @ ''.phased'')
   \<and> ''out/phasing'' = phasing_dir_of (c_out_dir ex_checked)
   \<and> subseq [''chr1'', ''chr5''] chrom_list"
proof -
  let ?run = "run_from_split ex_env ex_args ex_checked ex_res {}"
  have run: "?run = (fst ?run, fst (snd ?run), snd (snd ?run))" by simp
  have vc: "map fst (retained ex_res) = [''chr1'', ''chr5'']"
    by (simp add: ex_retained)
  note t = C4_phasing_lists_aligned[OF run ex_res_chroms ex_phasing_called, unfolded vc]
  have one: "(1::nat) < length [''chr1'', ''chr5'']" by simp
  from t one have
    "[''panel/chr1.genotypes.bcf'', ''panel/chr5.genotypes.bcf''] ! 1
       = os_path_join (c_panel_dir ex_checked) ([''chr1'', ''chr5''] ! 1 @ ''.genotypes.bcf'')"
    and "[''out/phasing/s1_chr1.phased'', ''out/phasing/s1_chr5.phased''] ! 1
       = os_path_join ''out/phasing'' (c_label ex_checked @ ''_'' @ [''chr1'', ''chr5''] ! 1 @ ''.phased'')"
    and "''out/phasing'' = phasing_dir_of (c_out_dir ex_checked)"
    and "subseq [''chr1'', ''chr5''] chrom_list"
    by blast+
  with ex_res_chroms ex_phasing_called vc show ?thesis by blast
qed

text \<open>
  C5. In a run of the pipeline from the result \<open>res\<close> of the split on (lines 215 to 256),
  at the moment \<^verbatim>\<open>ref_phasing\<close> is called (the trace before the call is \<open>pre\<close>), its target
  list is the list of the files of the triples with a positive count, and for every triple
  of \<open>res\<close> with a positive count its file is in that list and \<^verbatim>\<open>vcf_index\<close> has already
  been called on it.
\<close>

theorem C5_indexed_before_phasing:
  assumes "run_from_split env a c res fs = (r, fs', ev)"
    and "ev = pre @ Call (RefPhasing tg rl ol gm eg d nc scr lg) # post"
  shows "tg = map (\<lambda>t. snd (snd t)) (retained res)
       \<and> (\<forall>chrom n_variants vcf_fn. (chrom, n_variants, vcf_fn) \<in> set res \<longrightarrow> n_variants > 0 \<longrightarrow>
             vcf_fn \<in> set tg \<and> Call (VcfIndex vcf_fn) \<in> set pre)
       \<and> (\<forall>f\<in>set tg. Call (VcfIndex f) \<in> set pre)"
proof -
  let ?rp = "Call (RefPhasing tg rl ol gm eg d nc scr lg)"
  have p: "is_phasing ?rp" by (simp add: is_phasing_def)
  from assms(2) have "?rp \<in> set ev" by simp
  with run_from_split_events[OF assms(1)] p obtain rest where
    ev: "ev = (index_events res @
              [Info (str_nat (length (retained res)) @ '' chromosome VCFs are outputted with variants.''),
               Info ''reference phasing ...'']) @
              Call (phasing_call a c (map fst (retained res)) (map (\<lambda>t. snd (snd t)) (retained res))) # rest"
    and rest: "\<forall>e\<in>set rest. \<not> is_phasing e"
    by blast
  have before: "\<forall>e\<in>set (index_events res @
              [Info (str_nat (length (retained res)) @ '' chromosome VCFs are outputted with variants.''),
               Info ''reference phasing ...'']). \<not> is_phasing e"
    using index_events_not_phasing by (auto simp: is_phasing_def)
  from split_unique[OF ev[unfolded assms(2), symmetric] before rest p]
  have pre: "pre = index_events res @
              [Info (str_nat (length (retained res)) @ '' chromosome VCFs are outputted with variants.''),
               Info ''reference phasing ...'']"
    and rp: "?rp = Call (phasing_call a c (map fst (retained res)) (map (\<lambda>t. snd (snd t)) (retained res)))"
    by simp_all
  from rp have tg: "tg = map (\<lambda>t. snd (snd t)) (retained res)"
    by (simp add: phasing_call_def)
  have idx: "\<And>t. t \<in> set (retained res) \<Longrightarrow> Call (VcfIndex (snd (snd t))) \<in> set pre"
    unfolding pre by (auto simp: index_events_def)
  have "\<And>chrom n_variants vcf_fn. (chrom, n_variants, vcf_fn) \<in> set res \<Longrightarrow> n_variants > 0 \<Longrightarrow>
             vcf_fn \<in> set tg \<and> Call (VcfIndex vcf_fn) \<in> set pre"
  proof -
    fix chrom n_variants vcf_fn
    assume "(chrom, n_variants, vcf_fn) \<in> set res" "n_variants > (0::int)"
    then have t: "(chrom, n_variants, vcf_fn) \<in> set (retained res)"
      by (simp add: retained_subset)
    from idx[OF t] t show "vcf_fn \<in> set tg \<and> Call (VcfIndex vcf_fn) \<in> set pre"
      unfolding tg by force
  qed
  moreover have "\<forall>f\<in>set tg. Call (VcfIndex f) \<in> set pre"
    unfolding tg using idx by auto
  ultimately show ?thesis using tg by blast
qed

theorem C5_indexed_before_phasing_witness:
  "(''chr5'', 3, ''out/phasing/s1_chr5.vcf.gz'') \<in> set ex_res \<and> (3::int) > 0
   \<and> snd (snd (run_from_split ex_env ex_args ex_checked ex_res {})) =
     [Call (VcfIndex ''out/phasing/s1_chr1.vcf.gz''), Call (VcfIndex ''out/phasing/s1_chr5.vcf.gz''),
      Info ''2 chromosome VCFs are outputted with variants.'', Info ''reference phasing ...'']
     @ Call (RefPhasing [''out/phasing/s1_chr1.vcf.gz'', ''out/phasing/s1_chr5.vcf.gz'']
               [''panel/chr1.genotypes.bcf'', ''panel/chr5.genotypes.bcf'']
               [''out/phasing/s1_chr1.phased'', ''out/phasing/s1_chr5.phased'']
               ''genetic_map_hg38_withX.txt.gz'' ''eagle'' ''out/phasing'' 1
               ''out/run_phasing.sh'' ''out/phasing.log'')
     # [Info (''phased VCFs are in dir '' @ quoted ''out/phasing'' @ ''.''),
        Info ''merge phased VCFs ...'',
        Call (VcfMerge [''out/phasing/s1_chr1.phased.vcf.gz'', ''out/phasing/s1_chr5.phased.vcf.gz'']
                ''out/s1.phased.vcf.gz'' True),
        Info (''merged VCF is '' @ quoted ''out/s1.phased.vcf.gz'' @ ''.'')]
   \<and> ''out/phasing/s1_chr5.vcf.gz'' \<in> set [''out/phasing/s1_chr1.vcf.gz'', ''out/phasing/s1_chr5.vcf.gz'']
   \<and> Call (VcfIndex ''out/phasing/s1_chr5.vcf.gz'')
       \<in> set [Call (VcfIndex ''out/phasing/s1_chr1.vcf.gz''), Call (VcfIndex ''out/phasing/s1_chr5.vcf.gz''),
               Info ''2 chromosome VCFs are outputted with variants.'', Info ''reference phasing ...'']"
proof -
  let ?run = "run_from_split ex_env ex_args ex_checked ex_res {}"
  have run: "?run = (fst ?run, fst (snd ?run), snd (snd ?run))" by simp
  note t = C5_indexed_before_phasing[OF run ex_run_from_split_events]
  have three: "(0::int) < 3" by simp
  from t ex_res_chr5 three have "''out/phasing/s1_chr5.vcf.gz'' \<in> set [''out/phasing/s1_chr1.vcf.gz'', ''out/phasing/s1_chr5.vcf.gz'']
     \<and> Call (VcfIndex ''out/phasing/s1_chr5.vcf.gz'')
       \<in> set [Call (VcfIndex ''out/phasing/s1_chr1.vcf.gz''), Call (VcfIndex ''out/phasing/s1_chr5.vcf.gz''),
               Info ''2 chromosome VCFs are outputted with variants.'', Info ''reference phasing ...'']"
    by blast
  with ex_res_chr5 ex_run_from_split_events show ?thesis by simp
qed

text \<open>
  C6, as amended. Whenever \<^verbatim>\<open>pileup\<close> is called, "check args" has found the label set and
  the SNP file, the genetic map, the Eagle binary, the panel directory and the 22 panel file
  pairs present. The alignment arguments and the barcode list are not among the things it
  checks: they reach \<^verbatim>\<open>pileup\<close> as they were passed, and with any other values for them
  (both of \<^verbatim>\<open>sam_fn\<close> and \<^verbatim>\<open>sam_list_fn\<close> set, neither set, files that do not exist) the
  same run calls \<^verbatim>\<open>pileup\<close> just the same, with those values.
\<close>

theorem C6_pileup_called_after_check_args_only:
  assumes "run_baf_preprocess env a fs = (r, fs', ev)"
    and "Call (Pileup s sl b smp snp d m ct ut nc mm mc scr lg) \<in> set ev"
  shows "(\<exists>l. label a = Some l) \<and> (\<exists>f. snp_vcf_fn a = Some f \<and> f \<in> fs)
       \<and> (\<exists>od. out_dir a = Some od \<and> later_checks_pass a (ensured env od fs))
       \<and> s = sam_fn a \<and> sl = sam_list_fn a \<and> b = barcode_fn a
       \<and> (\<forall>s' sl' b'.
            Call (Pileup s' sl' b' smp snp d m ct ut nc mm mc scr lg)
              \<in> set (snd (snd (run_baf_preprocess env
                     (a\<lparr>sam_fn := s', sam_list_fn := sl', barcode_fn := b'\<rparr>) fs))))"
proof -
  let ?pc = "Pileup s sl b smp snp d m ct ut nc mm mc scr lg"
  obtain r1 fs1 ev1 where ca: "check_args env a fs = (r1, fs1, ev1)" by (metis prod_cases3)
  have no_call: "\<And>c. Call c \<notin> set ev1"
    using satD[OF check_args_sat ca] by (force simp: list_all_iff is_info_def)
  have "\<exists>c. r1 = Inr c"
  proof (cases r1)
    case (Inl e)
    with ca run_check_Inl[of env a fs e fs1 ev1] assms(1)
    have "ev = Info ''xcltk BAF preprocessing starts ...'' # ev1" by simp
    with assms(2) no_call show ?thesis by auto
  qed auto
  then obtain c where c: "check_args env a fs = (Inr c, fs1, ev1)" using ca by auto
  obtain r2 fs2 ev2 where rc: "run_from_check env a c fs1 = (r2, fs2, ev2)" by (metis prod_cases3)
  from run_events_Inr[OF c] rc assms(1)
  have ev: "ev = Info ''xcltk BAF preprocessing starts ...'' # ev1 @ ev2" by simp
  with assms(2) no_call have in2: "Call ?pc \<in> set ev2" by auto
  from satD[OF run_from_check_one_pileup rc] in2
  have eq: "?pc = pileup_call a c"
    by (auto simp: list_all_iff is_pileup_def)
  have dir_ok: "pileup_dir_of (c_out_dir c) \<in> fs1 \<or> mkdir_ok env (pileup_dir_of (c_out_dir c)) fs1"
    using run_from_check_pileup[OF rc] in2 by (auto split: if_splits)
  have other: "Call (Pileup s' sl' b' smp snp d m ct ut nc mm mc scr lg)
              \<in> set (snd (snd (run_baf_preprocess env
                     (a\<lparr>sam_fn := s', sam_list_fn := sl', barcode_fn := b'\<rparr>) fs)))" for s' sl' b'
  proof -
    let ?a = "a\<lparr>sam_fn := s', sam_list_fn := sl', barcode_fn := b'\<rparr>"
    have c': "check_args env ?a fs = (Inr c, fs1, ev1)"
      using c by (simp add: check_args_ignores_sam)
    obtain r3 fs3 ev3 where rc': "run_from_check env ?a c fs1 = (r3, fs3, ev3)" by (metis prod_cases3)
    from run_from_check_pileup[OF rc'] dir_ok have "Call (pileup_call ?a c) \<in> set ev3" by simp
    moreover have "pileup_call ?a c = Pileup s' sl' b' smp snp d m ct ut nc mm mc scr lg"
      using eq by (simp add: pileup_call_def)
    ultimately show ?thesis using run_events_Inr[OF c'] rc' by simp
  qed
  from check_args_Inr[OF c] eq other show ?thesis
    by (auto simp: pileup_call_def)
qed

theorem C6_counterexample:
  "sam_fn c6_args_neither = None \<and> sam_list_fn c6_args_neither = None
   \<and> barcode_fn c6_args_neither = None
   \<and> Call (Pileup None None None None ''snp.vcf.gz'' ''out/pileup'' ''10x'' ''CB'' ''UB'' 1
            ''0.1'' 20 ''out/run_pileup.sh'' ''out/pileup.log'')
       \<in> set (snd (snd (run_baf_preprocess ex_env c6_args_neither ex_fs)))
   \<and> sam_fn c6_args_both = Some ''a.bam'' \<and> sam_list_fn c6_args_both = Some ''absent.list''
   \<and> ''absent.list'' \<notin> ex_fs
   \<and> Call (Pileup (Some ''a.bam'') (Some ''absent.list'') (Some ''bc.tsv'') None ''snp.vcf.gz''
            ''out/pileup'' ''10x'' ''CB'' ''UB'' 1 ''0.1'' 20 ''out/run_pileup.sh'' ''out/pileup.log'')
       \<in> set (snd (snd (run_baf_preprocess ex_env c6_args_both ex_fs)))"
proof -
  have a: "Call (pileup_call c6_args_neither ex_checked)
             \<in> set (snd (snd (run_baf_preprocess ex_env c6_args_neither ex_fs)))"
    by (rule ex_pileup_call) (simp_all add: c6_args_neither_def ex_args_def)
  have b: "Call (pileup_call c6_args_both ex_checked)
             \<in> set (snd (snd (run_baf_preprocess ex_env c6_args_both ex_fs)))"
    by (rule ex_pileup_call) (simp_all add: c6_args_both_def ex_args_def)
  have absent: "''absent.list'' \<notin> ex_fs"
    by (auto simp: ex_fs_def panel_bcf_def panel_csi_def os_path_join_def)
  from a b absent show ?thesis
    by (simp add: pileup_call_def c6_args_neither_def c6_args_both_def ex_args_def ex_checked_def
          pileup_dir_of_def os_path_join_def suffix_to_prefix)
qed

theorem C6_pileup_called_after_check_args_only_witness:
  "Call (Pileup (Some ''a.bam'') None (Some ''bc.tsv'') None ''snp.vcf.gz'' ''out/pileup''
           ''10x'' ''CB'' ''UB'' 1 ''0.1'' 20 ''out/run_pileup.sh'' ''out/pileup.log'')
      \<in> set (snd (snd (run_baf_preprocess ex_env ex_args ex_fs)))
   \<and> later_checks_pass ex_args (insert ''out'' ex_fs)
   \<and> sam_list_fn ex_args = None
   \<and> Call (Pileup None None None None ''snp.vcf.gz'' ''out/pileup''
           ''10x'' ''CB'' ''UB'' 1 ''0.1'' 20 ''out/run_pileup.sh'' ''out/pileup.log'')
      \<in> set (snd (snd (run_baf_preprocess ex_env
            (ex_args\<lparr>sam_fn := None, sam_list_fn := None, barcode_fn := None\<rparr>) ex_fs)))"
proof -
  let ?run = "run_baf_preprocess ex_env ex_args ex_fs"
  have "Call (pileup_call ex_args ex_checked) \<in> set (snd (snd ?run))"
    by (rule ex_pileup_call) (simp_all add: ex_args_def)
  then have h: "Call (Pileup (Some ''a.bam'') None (Some ''bc.tsv'') None ''snp.vcf.gz'' ''out/pileup''
           ''10x'' ''CB'' ''UB'' 1 ''0.1'' 20 ''out/run_pileup.sh'' ''out/pileup.log'') \<in> set (snd (snd ?run))"
    by (simp add: pileup_call_def ex_args_def ex_checked_def pileup_dir_of_def os_path_join_def
          suffix_to_prefix)
  have od: "out_dir ex_args = Some ''out''" by (simp add: ex_args_def)
  from C6_pileup_called_after_check_args_only[of ex_env ex_args ex_fs "fst ?run" "fst (snd ?run)"
         "snd (snd ?run)", OF _ h] od
  show ?thesis using h by (auto simp: ex_ensured)
qed

text \<open>
  C7. The exit status of the script is 0 exactly when \<^verbatim>\<open>main\<close> returns, and then the whole
  pipeline has run: the options were read, \<^verbatim>\<open>run_baf_preprocess\<close> returned, \<^verbatim>\<open>vcf_merge\<close>
  was called for \<^verbatim>\<open><outdir>/<label>.phased.vcf.gz\<close> and that file exists at the end (given
  that a \<^verbatim>\<open>vcf_merge\<close> that returns has written its output). Every other end of \<^verbatim>\<open>main\<close> is
  an exception or \<^verbatim>\<open>sys.exit(1)\<close> and gives a status that is not 0: in particular an
  option that \<^verbatim>\<open>getopt\<close> refuses, and every exception that leaves \<^verbatim>\<open>run_baf_preprocess\<close>
  (a failed check of "check args", a missing output of a stage, an exception of a stage).
\<close>

theorem C7_exit_status:
  assumes "vcf_merge_contract env" and "script env argv fs = (status, fs', ev)"
  shows "(status = 0 \<longrightarrow>
            length argv \<ge> 2 \<and> (\<exists>opts rest a ev1 ev2 l od ins.
              getopt (tl argv) long_options = Inr (opts, rest)
            \<and> opt_loop env opts default_args fs = (Inr (Inr a), fs, ev1)
            \<and> run_baf_preprocess env a fs = (Inr (), fs', ev2)
            \<and> ev = InitLogging # ev1 @ ev2 @ [Info ''All Done!'']
            \<and> label a = Some l \<and> out_dir a = Some od
            \<and> Call (VcfMerge ins (phased_vcf_fn_of od l) True) \<in> set ev2
            \<and> phased_vcf_fn_of od l \<in> fs'))
       \<and> (status \<noteq> 0 \<longleftrightarrow> (\<exists>e. fst (main env argv fs) = Inl e))
       \<and> (\<forall>e. length argv \<ge> 2 \<longrightarrow> getopt (tl argv) long_options = Inl e \<longrightarrow> status \<noteq> 0)
       \<and> (\<forall>opts rest a ev1 e fs1 ev2. length argv \<ge> 2 \<longrightarrow>
              getopt (tl argv) long_options = Inr (opts, rest) \<longrightarrow>
              opt_loop env opts default_args fs = (Inr (Inr a), fs, ev1) \<longrightarrow>
              run_baf_preprocess env a fs = (Inl e, fs1, ev2) \<longrightarrow> status \<noteq> 0)"
proof -
  obtain r where m: "main env argv fs = (r, fs', ev)" and st: "status = exit_status r"
    using assms(2) by (auto simp: script_def split: prod.splits)
  note cases = main_cases[OF m]
  have B: "status \<noteq> 0 \<longleftrightarrow> (\<exists>e. fst (main env argv fs) = Inl e)"
  proof
    assume "status \<noteq> 0"
    with st m show "\<exists>e. fst (main env argv fs) = Inl e"
      by (cases r) (auto simp: exit_status_def)
  next
    assume "\<exists>e. fst (main env argv fs) = Inl e"
    with m obtain e where e: "r = Inl e" by auto
    with cases have "\<not> is_exit e \<or> e = SystemExit 1" by auto
    from exit_status_nonzero[OF this] st e show "status \<noteq> 0" by simp
  qed
  have A: "status = 0 \<longrightarrow>
            length argv \<ge> 2 \<and> (\<exists>opts rest a ev1 ev2 l od ins.
              getopt (tl argv) long_options = Inr (opts, rest)
            \<and> opt_loop env opts default_args fs = (Inr (Inr a), fs, ev1)
            \<and> run_baf_preprocess env a fs = (Inr (), fs', ev2)
            \<and> ev = InitLogging # ev1 @ ev2 @ [Info ''All Done!'']
            \<and> label a = Some l \<and> out_dir a = Some od
            \<and> Call (VcfMerge ins (phased_vcf_fn_of od l) True) \<in> set ev2
            \<and> phased_vcf_fn_of od l \<in> fs')"
  proof
    assume z: "status = 0"
    with B m have "\<not> (\<exists>e. r = Inl e)" by auto
    with cases obtain opts rest a ev1 ev2 where
      len: "length argv \<ge> 2" and g: "getopt (tl argv) long_options = Inr (opts, rest)"
      and ol: "opt_loop env opts default_args fs = (Inr (Inr a), fs, ev1)"
      and run: "run_baf_preprocess env a fs = (Inr (), fs', ev2)"
      and ev: "ev = InitLogging # ev1 @ ev2 @ [Info ''All Done!'']"
      by auto
    from run_baf_preprocess_Inr[OF run] obtain c opl fs0 where
      c: "label a = Some (c_label c)" "out_dir a = Some (c_out_dir c)"
         "tool env (merge_call c opl) fs0 = (None, fs')" "Call (merge_call c opl) \<in> set ev2"
      by blast
    from c(3) assms(1) have "phased_vcf_fn_of (c_out_dir c) (c_label c) \<in> fs'"
      by (auto simp: vcf_merge_contract_def merge_call_def)
    with len g ol run ev c show "length argv \<ge> 2 \<and> (\<exists>opts rest a ev1 ev2 l od ins.
              getopt (tl argv) long_options = Inr (opts, rest)
            \<and> opt_loop env opts default_args fs = (Inr (Inr a), fs, ev1)
            \<and> run_baf_preprocess env a fs = (Inr (), fs', ev2)
            \<and> ev = InitLogging # ev1 @ ev2 @ [Info ''All Done!'']
            \<and> label a = Some l \<and> out_dir a = Some od
            \<and> Call (VcfMerge ins (phased_vcf_fn_of od l) True) \<in> set ev2
            \<and> phased_vcf_fn_of od l \<in> fs')"
      unfolding merge_call_def by blast
  qed
  have C: "\<forall>e. length argv \<ge> 2 \<longrightarrow> getopt (tl argv) long_options = Inl e \<longrightarrow> status \<noteq> 0"
  proof (intro allI impI)
    fix e assume "length argv \<ge> 2" "getopt (tl argv) long_options = Inl e"
    then have "fst (main env argv fs) = Inl e"
      by (simp add: main_def thn_def bnd_def init_logging_def emit_def raise_def)
    with B show "status \<noteq> 0" by blast
  qed
  have D: "\<forall>opts rest a ev1 e fs1 ev2. length argv \<ge> 2 \<longrightarrow>
              getopt (tl argv) long_options = Inr (opts, rest) \<longrightarrow>
              opt_loop env opts default_args fs = (Inr (Inr a), fs, ev1) \<longrightarrow>
              run_baf_preprocess env a fs = (Inl e, fs1, ev2) \<longrightarrow> status \<noteq> 0"
  proof (intro allI impI)
    fix opts rest a ev1 e fs1 ev2
    assume "length argv \<ge> 2" "getopt (tl argv) long_options = Inr (opts, rest)"
      "opt_loop env opts default_args fs = (Inr (Inr a), fs, ev1)"
      "run_baf_preprocess env a fs = (Inl e, fs1, ev2)"
    from main_run[OF this] have "fst (main env argv fs) = Inl e" by simp
    with B show "status \<noteq> 0" by blast
  qed
  from A B C D show ?thesis by blast
qed

theorem C7_exit_status_witness:
  "vcf_merge_contract ex_env
   \<and> fst (script ex_env ex_argv ex_fs) = 0
   \<and> phased_vcf_fn_of ''out'' ''s1'' \<in> fst (snd (script ex_env ex_argv ex_fs))
   \<and> getopt (tl [''baf.py'', ''--foo'']) long_options = Inl (GetoptError ''option --foo not recognized'')
   \<and> fst (script ex_env [''baf.py'', ''--foo''] ex_fs) \<noteq> 0
   \<and> (\<exists>e. fst (run_baf_preprocess ex_env ex_args {}) = Inl e)
   \<and> fst (script ex_env ex_argv {}) \<noteq> 0"
proof -
  let ?opts = "[(''--label'', ''s1''), (''--sam'', ''a.bam''), (''--barcode'', ''bc.tsv''),
           (''--snpvcf'', ''snp.vcf.gz''), (''--outdir'', ''out''),
           (''--gmap'', ''genetic_map_hg38_withX.txt.gz''), (''--eagle'', ''eagle''),
           (''--paneldir'', ''panel'')]"
  have pair: "\<And>x. x = (fst x, fst (snd x), snd (snd x))" by simp
  let ?s1 = "script ex_env ex_argv ex_fs"
  note t1 = C7_exit_status[OF ex_contract pair[of ?s1]]
  from t1 ex_status obtain opts rest a ev1 l od where
    g: "getopt (tl ex_argv) long_options = Inr (opts, rest)"
    and ol: "opt_loop ex_env opts default_args ex_fs = (Inr (Inr a), ex_fs, ev1)"
    and a: "label a = Some l" "out_dir a = Some od"
    and p: "phased_vcf_fn_of od l \<in> fst (snd ?s1)"
    by blast
  from g ex_getopt have "opts = ?opts" by simp
  with ol ex_opt_loop[of ex_fs] have "a = ex_args" by simp
  with a have "l = ''s1''" "od = ''out''" by (simp_all add: ex_args_def)
  with p have present: "phased_vcf_fn_of ''out'' ''s1'' \<in> fst (snd ?s1)" by simp
  let ?s2 = "script ex_env [''baf.py'', ''--foo''] ex_fs"
  note t2 = C7_exit_status[OF ex_contract pair[of ?s2]]
  from t2 ex_getopt_refused have refused: "fst ?s2 \<noteq> 0" by simp
  let ?s3 = "script ex_env ex_argv {}"
  note t3 = C7_exit_status[OF ex_contract pair[of ?s3]]
  obtain r3 fs3 ev3 where ol3: "opt_loop ex_env ?opts default_args {} = (r3, fs3, ev3)"
    by (metis prod_cases3)
  from ex_opt_loop[of "{}"] ol3 have r3: "r3 = Inr (Inr ex_args)" by simp
  have known: "\<forall>ov\<in>set ?opts. fst ov \<in> set known_ops"
    using getopt_known[OF ex_getopt] .
  from opt_loop_known[OF known ol3] have "fs3 = {}" by simp
  with ol3 r3 have ol3': "opt_loop ex_env ?opts default_args {} = (Inr (Inr ex_args), {}, ev3)" by simp
  have "\<exists>s. snp_vcf_fn ex_args = Some s \<and> s \<notin> {}" by (simp add: ex_args_def)
  then obtain e where "check_args ex_env ex_args {} = (Inl e, {}, [Info ''check args ...''])"
    using check_args_early_fail[of ex_args "{}" ex_env] by blast
  from run_check_Inl[OF this] have run3: "run_baf_preprocess ex_env ex_args {} =
     (Inl e, {}, [Info ''xcltk BAF preprocessing starts ...'', Info ''check args ...''])" .
  have len: "length ex_argv \<ge> 2" by (simp add: ex_argv_def)
  from t3 len ex_getopt ol3' run3 have failed: "fst ?s3 \<noteq> 0" by blast
  from run3 have "\<exists>e. fst (run_baf_preprocess ex_env ex_args {}) = Inl e" by simp
  with ex_contract ex_status present ex_getopt_refused refused failed show ?thesis by simp
qed

text \<open>
  C8. The genome build of a run is read off the genetic-map argument \<^verbatim>\<open>gmap_fn\<close> as it was
  passed: it is hg19 exactly when that string contains "hg19", and hg38 in every other case,
  also when the string contains neither "hg19" nor "hg38". A run whose "check args" passes
  applies this to its \<^verbatim>\<open>gmap_fn\<close> and logs the result as its genome version.
\<close>

theorem C8_genome_of_gmap_fn:
  "(genome_of gmap = ''hg19'' \<longleftrightarrow> (\<exists>pre post. gmap = pre @ ''hg19'' @ post))
   \<and> (genome_of gmap = ''hg38'' \<longleftrightarrow> \<not> (\<exists>pre post. gmap = pre @ ''hg19'' @ post))
   \<and> (check_args env a fs = (Inr c, fs', ev) \<longrightarrow>
         gmap_fn a = Some (c_gmap_fn c)
       \<and> last ev = Info (''run in '' @ quoted (mode a) @ '' mode (genome version ''
                          @ quoted (genome_of (c_gmap_fn c)) @ '')''))"
proof -
  have run: "gmap_fn a = Some (c_gmap_fn c)
       \<and> last ev = Info (''run in '' @ quoted (mode a) @ '' mode (genome version ''
                          @ quoted (genome_of (c_gmap_fn c)) @ '')'')"
    if h: "check_args env a fs = (Inr c, fs', ev)"
  proof -
    note f = check_args_Inr[OF h]
    from f have l: "label a = Some (c_label c)" and s: "snp_vcf_fn a = Some (c_snp_vcf_fn c)"
      and sin: "c_snp_vcf_fn c \<in> fs" and od: "out_dir a = Some (c_out_dir c)"
      and ok: "c_out_dir c \<in> fs \<or> mkdir_ok env (c_out_dir c) fs"
      and lp: "later_checks_pass a (ensured env (c_out_dir c) fs)"
      and gm: "gmap_fn a = Some (c_gmap_fn c)"
      by auto
    from check_args_pass[OF l s sin od ok lp, of ] h gm show ?thesis by auto
  qed
  show ?thesis
    using run by (simp add: genome_of_def py_in_def sublist_def)
qed

theorem C8_genome_of_gmap_fn_witness:
  "genome_of ''tables/genetic_map_hg19_withX.txt.gz'' = ''hg19''
   \<and> genome_of ''tables/genetic_map_hg38_withX.txt.gz'' = ''hg38''
   \<and> genome_of ''tables/genetic_map.txt.gz'' = ''hg38''
   \<and> fst (check_args ex_env ex_args ex_fs) = Inr ex_checked
   \<and> last (snd (snd (check_args ex_env ex_args ex_fs)))
        = Info (''run in '' @ quoted ''10x'' @ '' mode (genome version '' @ quoted ''hg38'' @ '')'')"
proof -
  have a: "''tables/genetic_map_hg19_withX.txt.gz'' = ''tables/genetic_map_'' @ ''hg19'' @ ''_withX.txt.gz''"
    by simp
  have g1: "genome_of ''tables/genetic_map_hg19_withX.txt.gz'' = ''hg19''"
    using C8_genome_of_gmap_fn[of "''tables/genetic_map_hg19_withX.txt.gz''"] a by blast
  have g2: "genome_of ''tables/genetic_map_hg38_withX.txt.gz'' = ''hg38''"
    by code_simp
  have g3: "genome_of ''tables/genetic_map.txt.gz'' = ''hg38''"
    by code_simp
  have g4: "genome_of ''genetic_map_hg38_withX.txt.gz'' = ''hg38''"
    by code_simp
  have "\<exists>ev1. check_args ex_env ex_args ex_fs = (Inr (ex_checked\<lparr>c_out_dir := ''out''\<rparr>), insert ''out'' ex_fs, ev1)"
    by (rule ex_check_args) (simp_all add: ex_args_def ex_fs_def)
  then obtain ev1 where c: "check_args ex_env ex_args ex_fs = (Inr ex_checked, insert ''out'' ex_fs, ev1)"
    by (auto simp: ex_checked_def)
  from C8_genome_of_gmap_fn[of "''x''" ex_env ex_args ex_fs ex_checked "insert ''out'' ex_fs" ev1] c
  have "last ev1 = Info (''run in '' @ quoted (mode ex_args) @ '' mode (genome version ''
                          @ quoted (genome_of (c_gmap_fn ex_checked)) @ '')'')"
    by blast
  with c g1 g2 g3 g4 show ?thesis
    by (simp add: ex_args_def ex_checked_def)
qed

text \<open>
  C9, as amended. For a label without a slash the names are fixed by the output directory,
  the label and the chromosome: the genotype VCF is \<^verbatim>\<open><outdir>/<label>.genotype.vcf.gz\<close>,
  the merged VCF is \<^verbatim>\<open><outdir>/<label>.phased.vcf.gz\<close> and the phased VCF of a chromosome
  is \<^verbatim>\<open><outdir>/phasing/<label>_<chrom>.phased.vcf.gz\<close> (the slash after the output
  directory is left out when the directory is empty or ends with one); the names of one
  label are distinct from each other, so distinct chromosomes have distinct phased files;
  and two labels without a slash that differ share none of these names in the same output
  directory.
\<close>

theorem C9_label_paths_disjoint:
  assumes "CHR ''/'' \<notin> set l1" and "CHR ''/'' \<notin> set l2" and "l1 \<noteq> l2"
  shows "genotype_vcf_fn_of od l1 = od @ sep_after od @ l1 @ ''.genotype.vcf.gz''
       \<and> phased_vcf_fn_of od l1 = od @ sep_after od @ l1 @ ''.phased.vcf.gz''
       \<and> phased_vcf_list_of (out_prefix_list_of (phasing_dir_of od) l1 chrom_list)
           = map (\<lambda>ch. od @ sep_after od @ ''phasing/'' @ l1 @ ''_'' @ ch @ ''.phased.vcf.gz'') chrom_list
       \<and> distinct (label_paths od l1)
       \<and> set (label_paths od l1) \<inter> set (label_paths od l2) = {}"
proof -
  let ?p = "od @ sep_after od"
  let ?G = "\<lambda>l. ?p @ l @ ''.genotype.vcf.gz''"
  let ?F = "\<lambda>l. ?p @ l @ ''.phased.vcf.gz''"
  let ?C = "\<lambda>l ch. ?p @ ''phasing/'' @ l @ ''_'' @ ch @ ''.phased.vcf.gz''"
  have form: "label_paths od l = ?G l # ?F l # map (?C l) chrom_list"
    if "CHR ''/'' \<notin> set l" for l
    using that
    by (simp add: label_paths_def genotype_name phased_name phased_vcf_list_of_def
          out_prefix_list_of_def comp_def chrom_phased_name[simplified])
  have GF: "?G l \<noteq> ?F l'" for l l'
    using genotype_neq_phased[of l l'] by simp
  have GC: "?G l \<noteq> ?C l' ch" for l l' ch
    using genotype_neq_phased[of l "''phasing/'' @ l' @ ''_'' @ ch"] by simp
  have FC: "?F l \<noteq> ?C l' ch" if "CHR ''/'' \<notin> set l" for l l' ch
  proof
    assume "?F l = ?C l' ch"
    then have "l = ''phasing/'' @ l' @ ''_'' @ ch" by simp
    then have "CHR ''/'' \<in> set l" by (metis in_set_conv_decomp append_Cons append_Nil list.set_intros(1) set_append UnI1 UnI2 list.set_intros(2))
    with that show False by simp
  qed
  have GG: "?G l = ?G l' \<longleftrightarrow> l = l'" for l l' by simp
  have FF: "?F l = ?F l' \<longleftrightarrow> l = l'" for l l' by simp
  have CC: "?C l ch = ?C l' ch' \<longleftrightarrow> l = l' \<and> ch = ch'"
    if "ch \<in> set chrom_list" "ch' \<in> set chrom_list" for l l' ch ch'
    using last_underscore_split[OF chrom_list_no_underscore[OF that(1)] chrom_list_no_underscore[OF that(2)], of l l']
    by auto
  have inj: "inj_on (?C l1) (set chrom_list)"
    by (rule inj_onI) (simp add: CC)
  have dist: "distinct (label_paths od l1)"
    unfolding form[OF assms(1)]
    using GF[of l1 l1] GC[of l1 l1] FC[OF assms(1), of l1] inj distinct_chrom_list
    by (auto simp: distinct_map)
  have disj: "set (label_paths od l1) \<inter> set (label_paths od l2) = {}"
    unfolding form[OF assms(1)] form[OF assms(2)]
    using GF[of l1 l2] GF[of l2 l1] GC[of l1 l2] GC[of l2 l1]
      FC[OF assms(1), of l2] FC[OF assms(2), of l1] assms(3) CC[of _ _ l1 l2]
    by (auto simp: GG FF)
  have names: "phased_vcf_list_of (out_prefix_list_of (phasing_dir_of od) l1 chrom_list)
           = map (?C l1) chrom_list"
    using form[OF assms(1)] by (simp add: label_paths_def)
  from dist disj names genotype_name[OF assms(1)] phased_name[OF assms(1)] show ?thesis by simp
qed

theorem C9_counterexample:
  "''phasing/x_chr1'' \<noteq> ''x'' \<and> ''chr1'' \<in> set chrom_list
   \<and> phased_vcf_fn_of ''out'' ''phasing/x_chr1'' = ''out/phasing/x_chr1.phased.vcf.gz''
   \<and> os_path_join (phasing_dir_of ''out'') (''x'' @ ''_'' @ ''chr1'' @ ''.phased'') @ ''.vcf.gz''
        = ''out/phasing/x_chr1.phased.vcf.gz''
   \<and> ''out/phasing/x_chr1.phased.vcf.gz'' \<in> set (label_paths ''out'' ''phasing/x_chr1'')
   \<and> ''out/phasing/x_chr1.phased.vcf.gz'' \<in> set (label_paths ''out'' ''x'')"
  by (simp add: chrom_list_eq label_paths_def phased_vcf_fn_of_def phasing_dir_of_def
        genotype_vcf_fn_of_def phased_vcf_list_of_def out_prefix_list_of_def
        os_path_join_def suffix_to_prefix)

theorem C9_label_paths_disjoint_witness:
  "CHR ''/'' \<notin> set ''s1'' \<and> CHR ''/'' \<notin> set ''s2'' \<and> ''s1'' \<noteq> ''s2''
   \<and> genotype_vcf_fn_of ''out'' ''s1'' = ''out/s1.genotype.vcf.gz''
   \<and> phased_vcf_fn_of ''out'' ''s1'' = ''out/s1.phased.vcf.gz''
   \<and> distinct (label_paths ''out'' ''s1'')
   \<and> set (label_paths ''out'' ''s1'') \<inter> set (label_paths ''out'' ''s2'') = {}"
proof -
  have h: "CHR ''/'' \<notin> set ''s1''" "CHR ''/'' \<notin> set ''s2''" "''s1'' \<noteq> ''s2''" by simp_all
  from C9_label_paths_disjoint[OF h, of "''out''"] h show ?thesis
    by (simp add: sep_after_def suffix_to_prefix)
qed

text \<open>
  C10. "check args" is not atomic on the file system. When the label is unset or the SNP
  file is unset or absent, \<^verbatim>\<open>run_baf_preprocess\<close> raises with the file system unchanged and
  no directory created. When those two checks pass, the output directory \<open>od\<close> is absent
  and can be created, and one of the later checks fails (genetic map, Eagle binary, panel
  directory or one of the 22 panel file pairs, on the file system that now holds
  \<open>od\<close>), it raises after having created \<open>od\<close>, which stays behind: the file system it
  leaves is the one \<^verbatim>\<open>os.mkdir(od)\<close> has made, with \<open>od\<close> and all that existed before.
\<close>

theorem C10_output_dir_left_behind:
  "((label a = None \<or> snp_vcf_fn a = None \<or> (\<exists>s. snp_vcf_fn a = Some s \<and> s \<notin> fs)) \<longrightarrow>
      (\<exists>e. run_baf_preprocess env a fs =
         (Inl e, fs, [Info ''xcltk BAF preprocessing starts ...'', Info ''check args ...''])))
   \<and> ((label a = Some l \<and> snp_vcf_fn a = Some s \<and> s \<in> fs \<and> out_dir a = Some od \<and> od \<notin> fs
        \<and> mkdir_ok env od fs \<and> \<not> later_checks_pass a (after_mkdir env od fs)) \<longrightarrow>
      (\<exists>e. run_baf_preprocess env a fs =
         (Inl e, after_mkdir env od fs,
          [Info ''xcltk BAF preprocessing starts ...'', Info ''check args ...'', Mkdir od]))
      \<and> od \<in> after_mkdir env od fs \<and> fs \<subseteq> after_mkdir env od fs)"
proof (intro conjI impI)
  assume "label a = None \<or> snp_vcf_fn a = None \<or> (\<exists>s. snp_vcf_fn a = Some s \<and> s \<notin> fs)"
  from check_args_early_fail[OF this, of env] obtain e where
    "check_args env a fs = (Inl e, fs, [Info ''check args ...''])" ..
  from run_check_Inl[OF this]
  show "\<exists>e. run_baf_preprocess env a fs =
         (Inl e, fs, [Info ''xcltk BAF preprocessing starts ...'', Info ''check args ...''])"
    by blast
next
  assume h: "label a = Some l \<and> snp_vcf_fn a = Some s \<and> s \<in> fs \<and> out_dir a = Some od \<and> od \<notin> fs
        \<and> mkdir_ok env od fs \<and> \<not> later_checks_pass a (after_mkdir env od fs)"
  then obtain e where "late_checks a l s od (after_mkdir env od fs) = (Inl e, after_mkdir env od fs, [])"
    using late_checks_fail[of a "after_mkdir env od fs" l s od] by blast
  with h have "check_args env a fs = (Inl e, after_mkdir env od fs, [Info ''check args ...'', Mkdir od])"
    using check_args_late[of a l s fs od env] by simp
  from run_check_Inl[OF this]
  show "\<exists>e. run_baf_preprocess env a fs =
         (Inl e, after_mkdir env od fs,
          [Info ''xcltk BAF preprocessing starts ...'', Info ''check args ...'', Mkdir od])"
    by blast
next
  show "od \<in> after_mkdir env od fs" by (simp add: after_mkdir_def)
next
  show "fs \<subseteq> after_mkdir env od fs" by (auto simp: after_mkdir_def)
qed

theorem C10_output_dir_left_behind_witness:
  "label (ex_args\<lparr>label := None\<rparr>) = None
   \<and> fst (snd (run_baf_preprocess ex_env (ex_args\<lparr>label := None\<rparr>) {''snp.vcf.gz''})) = {''snp.vcf.gz''}
   \<and> snd (snd (run_baf_preprocess ex_env (ex_args\<lparr>label := None\<rparr>) {''snp.vcf.gz''}))
       = [Info ''xcltk BAF preprocessing starts ...'', Info ''check args ...'']
   \<and> label ex_args = Some ''s1'' \<and> snp_vcf_fn ex_args = Some ''snp.vcf.gz''
   \<and> ''snp.vcf.gz'' \<in> {''snp.vcf.gz''} \<and> out_dir ex_args = Some ''out'' \<and> ''out'' \<notin> {''snp.vcf.gz''}
   \<and> mkdir_ok ex_env ''out'' {''snp.vcf.gz''}
   \<and> \<not> later_checks_pass ex_args (after_mkdir ex_env ''out'' {''snp.vcf.gz''})
   \<and> fst (snd (run_baf_preprocess ex_env ex_args {''snp.vcf.gz''})) = {''out'', ''snp.vcf.gz''}
   \<and> snd (snd (run_baf_preprocess ex_env ex_args {''snp.vcf.gz''}))
       = [Info ''xcltk BAF preprocessing starts ...'', Info ''check args ...'', Mkdir ''out'']"
proof -
  have h1: "label (ex_args\<lparr>label := None\<rparr>) = None" by simp
  have h2: "label ex_args = Some ''s1'' \<and> snp_vcf_fn ex_args = Some ''snp.vcf.gz''
     \<and> ''snp.vcf.gz'' \<in> {''snp.vcf.gz''} \<and> out_dir ex_args = Some ''out'' \<and> ''out'' \<notin> {''snp.vcf.gz''}
     \<and> mkdir_ok ex_env ''out'' {''snp.vcf.gz''}
     \<and> \<not> later_checks_pass ex_args (after_mkdir ex_env ''out'' {''snp.vcf.gz''})"
    unfolding ex_after_mkdir by (simp add: ex_args_def ex_env_def later_checks_pass_def)
  from C10_output_dir_left_behind[of "ex_args\<lparr>label := None\<rparr>" "{''snp.vcf.gz''}" ex_env] h1
  have a: "\<exists>e. run_baf_preprocess ex_env (ex_args\<lparr>label := None\<rparr>) {''snp.vcf.gz''} =
         (Inl e, {''snp.vcf.gz''}, [Info ''xcltk BAF preprocessing starts ...'', Info ''check args ...''])"
    by blast
  from C10_output_dir_left_behind[of ex_args "{''snp.vcf.gz''}" ex_env "''s1''" "''snp.vcf.gz''" "''out''"] h2
  have b: "\<exists>e. run_baf_preprocess ex_env ex_args {''snp.vcf.gz''} =
         (Inl e, after_mkdir ex_env ''out'' {''snp.vcf.gz''},
          [Info ''xcltk BAF preprocessing starts ...'', Info ''check args ...'', Mkdir ''out''])"
    by blast
  from a b h1 h2 show ?thesis by (auto simp: ex_after_mkdir)
qed

end
